theory Spec2Isabelle
  imports Complex_Main
begin

section \<open>JavaScript numbers\<close>

text \<open>
  A JavaScript number is an IEEE 754 double: a finite value, NaN or an infinity. \<open>Finite\<close>
  carries the value as a real; every operation rounds its exact result to the nearest
  double, ties to even, and overflows to an infinity. Negative zero is not told apart
  from zero: the two agree under addition, subtraction, comparison and truthiness, and no
  division of this program meets a zero divisor.
\<close>

datatype js_number = Finite real | NaN | PosInfinity | NegInfinity

text \<open>Rounding a real to the nearest integer, ties to the even one.\<close>

definition rne :: "real \<Rightarrow> int" where
  "rne r = (let f = \<lfloor>r\<rfloor>; d = r - of_int f
            in if d < 1 / 2 then f else if d > 1 / 2 then f + 1
               else if even f then f else f + 1)"

text \<open>The binary exponent of a magnitude \<open>x\<close>: the first \<open>e\<close>, counting up from the least
  exponent of the format through its \<open>n\<close> binades, with \<open>x < 2\<^sup>e\<^sup>+\<^sup>1\<close>. Below the first
  binade (subnormal numbers) it stays at the least exponent.\<close>

fun binade_from :: "nat \<Rightarrow> int \<Rightarrow> real \<Rightarrow> int" where
  "binade_from 0 e x = e"
| "binade_from (Suc n) e x = (if x < 2 powi (e + 1) then e else binade_from n (e + 1) x)"

text \<open>Rounding to a binary format of precision \<open>p\<close>: to the nearest multiple of the
  spacing \<open>2\<^sup>e\<^sup>-\<^sup>p\<^sup>+\<^sup>1\<close> of the binade of \<open>x\<close>.\<close>

definition round_binary :: "nat \<Rightarrow> int \<Rightarrow> nat \<Rightarrow> real \<Rightarrow> real" where
  "round_binary p emin n x =
     (let q = 2 powi (binade_from n emin \<bar>x\<bar> - int p + 1) in of_int (rne (x / q)) * q)"

definition round_double :: "real \<Rightarrow> js_number" where
  "round_double x =
     (let y = round_binary 53 (- 1022) 2046 x
      in if 2 ^ 1024 \<le> \<bar>y\<bar> then (if 0 < y then PosInfinity else NegInfinity) else Finite y)"

fun js_add :: "js_number \<Rightarrow> js_number \<Rightarrow> js_number" where
  "js_add (Finite a) (Finite b) = round_double (a + b)"
| "js_add NaN b = NaN"
| "js_add a NaN = NaN"
| "js_add PosInfinity NegInfinity = NaN"
| "js_add NegInfinity PosInfinity = NaN"
| "js_add PosInfinity b = PosInfinity"
| "js_add a PosInfinity = PosInfinity"
| "js_add NegInfinity b = NegInfinity"
| "js_add a NegInfinity = NegInfinity"

fun js_neg :: "js_number \<Rightarrow> js_number" where
  "js_neg (Finite a) = Finite (- a)"
| "js_neg NaN = NaN"
| "js_neg PosInfinity = NegInfinity"
| "js_neg NegInfinity = PosInfinity"

definition js_sub :: "js_number \<Rightarrow> js_number \<Rightarrow> js_number" where
  "js_sub a b = js_add a (js_neg b)"

fun js_abs :: "js_number \<Rightarrow> js_number" where
  "js_abs (Finite a) = Finite \<bar>a\<bar>"
| "js_abs NaN = NaN"
| "js_abs PosInfinity = PosInfinity"
| "js_abs NegInfinity = PosInfinity"

text \<open>\<^verbatim>\<open>a > b\<close>: false whenever an operand is NaN.\<close>

fun js_gt :: "js_number \<Rightarrow> js_number \<Rightarrow> bool" where
  "js_gt (Finite a) (Finite b) = (a > b)"
| "js_gt NaN b = False"
| "js_gt a NaN = False"
| "js_gt PosInfinity PosInfinity = False"
| "js_gt PosInfinity b = True"
| "js_gt a PosInfinity = False"
| "js_gt NegInfinity b = False"
| "js_gt a NegInfinity = True"

fun js_divide :: "js_number \<Rightarrow> js_number \<Rightarrow> js_number" where
  "js_divide (Finite a) (Finite b) =
     (if b \<noteq> 0 then round_double (a / b)
      else if a = 0 then NaN else if a > 0 then PosInfinity else NegInfinity)"
| "js_divide NaN b = NaN"
| "js_divide a NaN = NaN"
| "js_divide (Finite a) PosInfinity = Finite 0"
| "js_divide (Finite a) NegInfinity = Finite 0"
| "js_divide PosInfinity (Finite b) = (if b \<ge> 0 then PosInfinity else NegInfinity)"
| "js_divide NegInfinity (Finite b) = (if b \<ge> 0 then NegInfinity else PosInfinity)"
| "js_divide a b = NaN"

text \<open>Truthiness of a number: 0 and NaN are falsy.\<close>

fun number_truthy :: "js_number \<Rightarrow> bool" where
  "number_truthy (Finite a) = (a \<noteq> 0)"
| "number_truthy NaN = False"
| "number_truthy a = True"

section \<open>What the database makes of a number\<close>

text \<open>
  The columns \<^verbatim>\<open>quantity\<close>, \<^verbatim>\<open>quantity_change\<close> and \<^verbatim>\<open>total_price\<close> are PostgreSQL \<^verbatim>\<open>real\<close>.
  The conversion a written number undergoes before it is read again belongs to the
  database and its driver, not to the program: the storage functions below take it as the
  parameter \<open>col\<close>, which answers the number a later read returns, or \<open>None\<close> when the
  database refuses the value. \<open>real4\<close> is the conversion used in the examples: the nearest
  single-precision number, refused when it overflows or when a nonzero value rounds to
  zero, NaN and the infinities kept. It reads a stored number back as itself, which is
  what the driver does for the integers of the examples.
\<close>

definition real4 :: "js_number \<Rightarrow> js_number option" where
  "real4 v =
     (case v of
        Finite x \<Rightarrow>
          (let y = round_binary 24 (- 126) 254 x
           in if 2 ^ 128 \<le> \<bar>y\<bar> \<or> (y = 0 \<and> x \<noteq> 0) then None else Some (Finite y))
      | _ \<Rightarrow> Some v)"

text \<open>An \<^verbatim>\<open>integer\<close> column accepts the text of an integer within 32 bits.\<close>

definition int4 :: "js_number \<Rightarrow> int option" where
  "int4 v =
     (case v of
        Finite x \<Rightarrow> if x = of_int \<lfloor>x\<rfloor> \<and> - (2 ^ 31) \<le> \<lfloor>x\<rfloor> \<and> \<lfloor>x\<rfloor> < 2 ^ 31 then Some \<lfloor>x\<rfloor> else None
      | _ \<Rightarrow> None)"

section \<open>Data model (shared/schema.ts)\<close>

text \<open>
  The four tables of \<^verbatim>\<open>shared/schema.ts\<close>. Every table has a column \<^verbatim>\<open>id\<close>, and several
  share \<^verbatim>\<open>unit\<close>, \<^verbatim>\<open>product_id\<close> and \<^verbatim>\<open>total_price\<close>; record fields are global names, so
  each field carries a prefix for its table. Identifiers and timestamps (milliseconds) are
  integers, the \<^verbatim>\<open>real\<close> columns are JavaScript numbers, a nullable column is an option.
\<close>

record User =
  u_id :: int
  u_username :: string
  u_password :: string
  u_is_admin :: bool
  u_can_add_product :: bool
  u_can_view_reports :: bool
  u_can_manage_inventory :: bool

record Product =
  p_id :: int
  p_name :: string
  p_category :: string

record Inventory =
  i_id :: int
  i_product_id :: int
  i_quantity :: js_number
  i_unit :: string
  i_total_price :: js_number
  i_last_updated :: int
  i_updated_by :: "int option"

record InventoryMovement =
  m_id :: int
  m_product_id :: int
  m_quantity_change :: js_number
  m_unit :: string
  m_total_price :: js_number
  m_movement_type :: string
  m_movement_date :: int
  m_user_id :: "int option"

text \<open>The insert types: the columns a caller supplies (ids and timestamps are assigned
  by the storage).\<close>

record InsertInventory =
  ii_product_id :: int
  ii_quantity :: js_number
  ii_unit :: string
  ii_total_price :: js_number
  ii_updated_by :: "int option"

record InsertInventoryMovement =
  im_product_id :: int
  im_quantity_change :: js_number
  im_unit :: string
  im_total_price :: js_number
  im_movement_type :: string
  im_user_id :: "int option"

section \<open>The storage state (server/storage.ts)\<close>

text \<open>
  \<^verbatim>\<open>MemStorage\<close> holds four \<^verbatim>\<open>Map<number, T>\<close> and four id counters; \<^verbatim>\<open>DatabaseStorage\<close>
  holds four tables whose \<^verbatim>\<open>serial\<close> columns are counters too. One record is the state of
  either. A collection is the list of its rows in insertion order, each row stored under
  its own \<^verbatim>\<open>id\<close>, which is how every \<^verbatim>\<open>set\<close> of the source is called. A variable
  the source names \<^verbatim>\<open>id\<close> is \<open>ident\<close> here (\<open>id\<close> is HOL's identity function).
\<close>

record store =
  users :: "User list"
  products :: "Product list"
  inventory :: "Inventory list"
  inventoryMovements :: "InventoryMovement list"
  userIdCounter :: int
  productIdCounter :: int
  inventoryIdCounter :: int
  movementIdCounter :: int

text \<open>JavaScript's \<^verbatim>\<open>Map\<close>: \<^verbatim>\<open>get\<close>, \<^verbatim>\<open>set\<close> (an existing key keeps its position, a new
  key goes last) and \<^verbatim>\<open>delete\<close> (which answers whether the key was there).\<close>

definition js_map_get :: "('a \<Rightarrow> int) \<Rightarrow> int \<Rightarrow> 'a list \<Rightarrow> 'a option" where
  "js_map_get key k xs = find (\<lambda>x. key x = k) xs"

fun js_map_set :: "('a \<Rightarrow> int) \<Rightarrow> 'a \<Rightarrow> 'a list \<Rightarrow> 'a list" where
  "js_map_set key v [] = [v]"
| "js_map_set key v (x # xs) = (if key x = key v then v # xs else x # js_map_set key v xs)"

definition js_map_delete :: "('a \<Rightarrow> int) \<Rightarrow> int \<Rightarrow> 'a list \<Rightarrow> bool \<times> 'a list" where
  "js_map_delete key k xs = (list_ex (\<lambda>x. key x = k) xs, filter (\<lambda>x. key x \<noteq> k) xs)"

subsection \<open>MemStorage\<close>

text \<open>The constructor: empty maps, counters at 1, then \<^verbatim>\<open>createUser\<close> of the bootstrap
  administrator (the password is its stored hash).\<close>

definition mem_createUser :: "User \<Rightarrow> store \<Rightarrow> User \<times> store" where
  "mem_createUser insertUser s =
     (let ident = userIdCounter s;
          user = insertUser\<lparr>u_id := ident\<rparr>
      in (user, s\<lparr>userIdCounter := ident + 1, users := js_map_set u_id user (users s)\<rparr>))"

definition mem_empty :: store where
  "mem_empty = \<lparr>users = [], products = [], inventory = [], inventoryMovements = [],
     userIdCounter = 1, productIdCounter = 1, inventoryIdCounter = 1, movementIdCounter = 1\<rparr>"

definition mem_init :: store where
  "mem_init = snd (mem_createUser
     \<lparr>u_id = 0, u_username = ''admin'',
      u_password = ''$2b$10$enyk9jDoU46isk1pWPoxROnncUaC6Qbso9ETHKHCiwo/uEt00VP6.'',
      u_is_admin = True, u_can_add_product = True, u_can_view_reports = True,
      u_can_manage_inventory = True\<rparr> mem_empty)"

definition getInventoryItem :: "store \<Rightarrow> int \<Rightarrow> Inventory option" where
  "getInventoryItem s productId = find (\<lambda>item. i_product_id item = productId) (inventory s)"

text \<open>\<^verbatim>\<open>updateInventory\<close>: locate the product's row or create it. \<open>now\<close> is the clock
  reading of \<^verbatim>\<open>new Date()\<close>.\<close>

definition mem_updateInventory :: "int \<Rightarrow> InsertInventory \<Rightarrow> store \<Rightarrow> Inventory \<times> store" where
  "mem_updateInventory now item s =
     (case getInventoryItem s (ii_product_id item) of
        Some existingItem \<Rightarrow>
          (let updatedItem = existingItem\<lparr>
                 i_quantity := js_add (i_quantity existingItem) (ii_quantity item),
                 i_unit := ii_unit item,
                 i_total_price := js_add (i_total_price existingItem) (ii_total_price item),
                 i_last_updated := now,
                 i_updated_by := ii_updated_by item\<rparr>
           in (updatedItem, s\<lparr>inventory := js_map_set i_id updatedItem (inventory s)\<rparr>))
      | None \<Rightarrow>
          (let ident = inventoryIdCounter s;
               newItem = \<lparr>i_id = ident, i_product_id = ii_product_id item,
                 i_quantity = ii_quantity item, i_unit = ii_unit item,
                 i_total_price = ii_total_price item, i_last_updated = now,
                 i_updated_by = ii_updated_by item\<rparr>
           in (newItem, s\<lparr>inventoryIdCounter := ident + 1,
                            inventory := js_map_set i_id newItem (inventory s)\<rparr>)))"

definition mem_createInventoryMovement ::
  "int \<Rightarrow> InsertInventoryMovement \<Rightarrow> store \<Rightarrow> InventoryMovement \<times> store" where
  "mem_createInventoryMovement now movement s =
     (let ident = movementIdCounter s;
          newMovement = \<lparr>m_id = ident, m_product_id = im_product_id movement,
            m_quantity_change = im_quantity_change movement, m_unit = im_unit movement,
            m_total_price = im_total_price movement,
            m_movement_type = im_movement_type movement, m_movement_date = now,
            m_user_id = im_user_id movement\<rparr>
      in (newMovement, s\<lparr>movementIdCounter := ident + 1,
            inventoryMovements := js_map_set m_id newMovement (inventoryMovements s)\<rparr>))"

definition mem_deleteInventoryMovement :: "int \<Rightarrow> int \<Rightarrow> store \<Rightarrow> bool \<times> store" where
  "mem_deleteInventoryMovement now ident s =
     (case js_map_get m_id ident (inventoryMovements s) of
        None \<Rightarrow> (False, s)
      | Some movement \<Rightarrow>
          (let s1 = (case getInventoryItem s (m_product_id movement) of
                       Some inventoryItem \<Rightarrow>
                         (let updatedItem = inventoryItem\<lparr>
                                i_quantity := js_sub (i_quantity inventoryItem) (m_quantity_change movement),
                                i_total_price := js_sub (i_total_price inventoryItem) (m_total_price movement),
                                i_last_updated := now,
                                i_updated_by := i_updated_by inventoryItem\<rparr>
                          in s\<lparr>inventory := js_map_set i_id updatedItem (inventory s)\<rparr>)
                     | None \<Rightarrow> s);
               d = js_map_delete m_id ident (inventoryMovements s1)
           in (fst d, s1\<lparr>inventoryMovements := snd d\<rparr>)))"

text \<open>The record-movement operation on a \<^verbatim>\<open>MemStorage\<close>: the two storage calls of the
  \<^verbatim>\<open>POST /api/inventory/movements\<close> handler, in its order, with the values it passes.\<close>

definition mem_recordMovement ::
  "int \<Rightarrow> int \<Rightarrow> js_number \<Rightarrow> string \<Rightarrow> js_number \<Rightarrow> int option \<Rightarrow> store
     \<Rightarrow> InventoryMovement \<times> store" where
  "mem_recordMovement now productId quantityDelta unit totalPriceDelta actingAccountId s =
     (let c = mem_createInventoryMovement now
                \<lparr>im_product_id = productId, im_quantity_change = quantityDelta,
                 im_unit = unit, im_total_price = totalPriceDelta,
                 im_movement_type = ''update'', im_user_id = actingAccountId\<rparr> s;
          u = mem_updateInventory now
                \<lparr>ii_product_id = productId, ii_quantity = quantityDelta, ii_unit = unit,
                 ii_total_price = totalPriceDelta, ii_updated_by = actingAccountId\<rparr> (snd c)
      in (fst c, snd u))"

definition mem_deleteProduct :: "int \<Rightarrow> store \<Rightarrow> bool \<times> store" where
  "mem_deleteProduct ident s =
     (let inventoryItems = filter (\<lambda>item. i_product_id item = ident) (inventory s);
          inv = foldl (\<lambda>acc item. snd (js_map_delete i_id (i_id item) acc)) (inventory s)
                  inventoryItems;
          movements = filter (\<lambda>movement. m_product_id movement = ident) (inventoryMovements s);
          mvs = foldl (\<lambda>acc movement. snd (js_map_delete m_id (m_id movement) acc))
                  (inventoryMovements s) movements;
          d = js_map_delete p_id ident (products s)
      in (fst d, s\<lparr>inventory := inv, inventoryMovements := mvs, products := snd d\<rparr>))"

text \<open>\<^verbatim>\<open>String.prototype.toLowerCase\<close> on ASCII letters (other characters are kept).\<close>

definition toLowerCase_char :: "char \<Rightarrow> char" where
  "toLowerCase_char c =
     (let n = (of_char c :: nat) in if 65 \<le> n \<and> n \<le> 90 then char_of (n + 32) else c)"

definition toLowerCase :: "string \<Rightarrow> string" where
  "toLowerCase str = map toLowerCase_char str"

definition getUser :: "store \<Rightarrow> int \<Rightarrow> User option" where
  "getUser s ident = find (\<lambda>user. u_id user = ident) (users s)"

definition getAllUsers :: "store \<Rightarrow> User list" where
  "getAllUsers s = users s"

definition getAllProducts :: "store \<Rightarrow> Product list" where
  "getAllProducts s = products s"

definition mem_getUserByUsername :: "store \<Rightarrow> string \<Rightarrow> User option" where
  "mem_getUserByUsername s username =
     find (\<lambda>user. toLowerCase (u_username user) = toLowerCase username) (users s)"

definition mem_getProductByName :: "store \<Rightarrow> string \<Rightarrow> Product option" where
  "mem_getProductByName s name =
     find (\<lambda>product. toLowerCase (p_name product) = toLowerCase name) (products s)"
subsection \<open>DatabaseStorage\<close>

text \<open>
  A query is a filter over the table, \<^verbatim>\<open>const [row] = await ...\<close> takes the first row of
  the answer. A statement can fail in three ways. The database refuses a value of a
  \<^verbatim>\<open>real\<close> column (\<open>col\<close> answers \<open>None\<close>) when the statement is bound, before it runs.
  A constraint of the schema (primary key, \<^verbatim>\<open>unique\<close>, \<^verbatim>\<open>references\<close>) rejects the
  statement while it runs. Or it is aborted for a reason outside the program (a timeout, a
  lost connection), which the argument \<open>fail\<close> or \<open>fail_at\<close> stands for: the index, among
  the statements the call runs, of the one that is aborted. A failed statement writes no
  row and throws; an \<^verbatim>\<open>INSERT\<close> that has started running has already taken its \<^verbatim>\<open>serial\<close>
  value, which is not given back.
\<close>

datatype db_error = DbError

definition db_first :: "'a list \<Rightarrow> 'a option" where
  "db_first rows = (case rows of [] \<Rightarrow> None | row # _ \<Rightarrow> Some row)"

definition db_getUserByUsername :: "store \<Rightarrow> string \<Rightarrow> User option" where
  "db_getUserByUsername s username =
     db_first (filter (\<lambda>user. u_username user = username) (users s))"

definition db_getProductByName :: "store \<Rightarrow> string \<Rightarrow> Product option" where
  "db_getProductByName s name =
     db_first (filter (\<lambda>product. p_name product = name) (products s))"

definition db_getInventoryItem :: "store \<Rightarrow> int \<Rightarrow> Inventory option" where
  "db_getInventoryItem s productId =
     db_first (filter (\<lambda>item. i_product_id item = productId) (inventory s))"

definition user_ref_ok :: "store \<Rightarrow> int option \<Rightarrow> bool" where
  "user_ref_ok s ref = (case ref of None \<Rightarrow> True | Some uid \<Rightarrow> list_ex (\<lambda>user. u_id user = uid) (users s))"

definition product_ref_ok :: "store \<Rightarrow> int \<Rightarrow> bool" where
  "product_ref_ok s pid = list_ex (\<lambda>product. p_id product = pid) (products s)"

definition db_createUser :: "bool \<Rightarrow> User \<Rightarrow> store \<Rightarrow> (db_error + User) \<times> store" where
  "db_createUser fail userData s =
     (let ident = userIdCounter s;
          s0 = s\<lparr>userIdCounter := ident + 1\<rparr>;
          user = userData\<lparr>u_id := ident\<rparr>
      in if fail \<or> list_ex (\<lambda>u. u_id u = ident) (users s)
              \<or> list_ex (\<lambda>u. u_username u = u_username user) (users s)
         then (Inl DbError, s0)
         else (Inr user, s0\<lparr>users := users s @ [user]\<rparr>))"

definition db_deleteUser :: "bool \<Rightarrow> int \<Rightarrow> store \<Rightarrow> bool \<times> store" where
  "db_deleteUser fail ident s =
     (if fail \<or> list_ex (\<lambda>item. i_updated_by item = Some ident) (inventory s)
            \<or> list_ex (\<lambda>movement. m_user_id movement = Some ident) (inventoryMovements s)
      then (False, s)
      else (True, s\<lparr>users := filter (\<lambda>user. u_id user \<noteq> ident) (users s)\<rparr>))"

definition db_createProduct ::
  "bool \<Rightarrow> string \<Rightarrow> string option \<Rightarrow> store \<Rightarrow> (db_error + Product) \<times> store" where
  "db_createProduct fail name category s =
     (let ident = productIdCounter s;
          s0 = s\<lparr>productIdCounter := ident + 1\<rparr>;
          newProduct = \<lparr>p_id = ident, p_name = name,
            p_category = (case category of None \<Rightarrow> ''GENEL''
                          | Some c \<Rightarrow> if c = [] then ''GENEL'' else c)\<rparr>
      in if fail \<or> list_ex (\<lambda>p. p_id p = ident) (products s)
              \<or> list_ex (\<lambda>p. p_name p = name) (products s)
         then (Inl DbError, s0)
         else (Inr newProduct, s0\<lparr>products := products s @ [newProduct]\<rparr>))"

definition db_deleteProduct :: "nat option \<Rightarrow> int \<Rightarrow> store \<Rightarrow> bool \<times> store" where
  "db_deleteProduct fail_at ident s =
     (if fail_at = Some 0 then (False, s)
      else
        let s1 = s\<lparr>inventoryMovements :=
                     filter (\<lambda>movement. m_product_id movement \<noteq> ident) (inventoryMovements s)\<rparr>
        in if fail_at = Some 1 then (False, s1)
           else
             let s2 = s1\<lparr>inventory := filter (\<lambda>item. i_product_id item \<noteq> ident) (inventory s1)\<rparr>
             in if fail_at = Some 2 then (False, s2)
                else (True, s2\<lparr>products := filter (\<lambda>product. p_id product \<noteq> ident) (products s2)\<rparr>))"

text \<open>\<^verbatim>\<open>updateInventory\<close>: statement 0 reads the product's row, statement 1 updates it
  or inserts a new one.\<close>

definition db_updateInventory ::
  "(js_number \<Rightarrow> js_number option) \<Rightarrow> nat option \<Rightarrow> int \<Rightarrow> InsertInventory \<Rightarrow> store
     \<Rightarrow> (db_error + Inventory) \<times> store" where
  "db_updateInventory col fail_at now item s =
     (if fail_at = Some 0 then (Inl DbError, s)
      else
        case db_getInventoryItem s (ii_product_id item) of
          Some existingItem \<Rightarrow>
            (case (col (js_add (i_quantity existingItem) (ii_quantity item)),
                   col (js_add (i_total_price existingItem) (ii_total_price item))) of
               (Some q, Some t) \<Rightarrow>
                 (let upd = (\<lambda>row. row\<lparr>i_quantity := q, i_unit := ii_unit item,
                                i_total_price := t, i_last_updated := now,
                                i_updated_by := ii_updated_by item\<rparr>)
                  in if fail_at = Some 1 \<or> \<not> user_ref_ok s (ii_updated_by item)
                     then (Inl DbError, s)
                     else (Inr (upd existingItem),
                           s\<lparr>inventory :=
                               map (\<lambda>row. if i_id row = i_id existingItem then upd row else row)
                                 (inventory s)\<rparr>))
             | _ \<Rightarrow> (Inl DbError, s))
        | None \<Rightarrow>
            (case (col (ii_quantity item), col (ii_total_price item)) of
               (Some q, Some t) \<Rightarrow>
                 (let ident = inventoryIdCounter s;
                      s0 = s\<lparr>inventoryIdCounter := ident + 1\<rparr>;
                      createdItem = \<lparr>i_id = ident, i_product_id = ii_product_id item,
                        i_quantity = q, i_unit = ii_unit item, i_total_price = t,
                        i_last_updated = now, i_updated_by = ii_updated_by item\<rparr>
                  in if fail_at = Some 1 \<or> list_ex (\<lambda>row. i_id row = ident) (inventory s)
                        \<or> \<not> product_ref_ok s (ii_product_id item)
                        \<or> \<not> user_ref_ok s (ii_updated_by item)
                     then (Inl DbError, s0)
                     else (Inr createdItem, s0\<lparr>inventory := inventory s @ [createdItem]\<rparr>))
             | _ \<Rightarrow> (Inl DbError, s)))"

definition db_createInventoryMovement ::
  "(js_number \<Rightarrow> js_number option) \<Rightarrow> bool \<Rightarrow> int \<Rightarrow> InsertInventoryMovement \<Rightarrow> store
     \<Rightarrow> (db_error + InventoryMovement) \<times> store" where
  "db_createInventoryMovement col fail now movement s =
     (case (col (im_quantity_change movement), col (im_total_price movement)) of
        (Some q, Some t) \<Rightarrow>
          (let ident = movementIdCounter s;
               s0 = s\<lparr>movementIdCounter := ident + 1\<rparr>;
               createdMovement = \<lparr>m_id = ident, m_product_id = im_product_id movement,
                 m_quantity_change = q, m_unit = im_unit movement, m_total_price = t,
                 m_movement_type = im_movement_type movement, m_movement_date = now,
                 m_user_id = im_user_id movement\<rparr>
           in if fail \<or> list_ex (\<lambda>row. m_id row = ident) (inventoryMovements s)
                   \<or> \<not> product_ref_ok s (im_product_id movement)
                   \<or> \<not> user_ref_ok s (im_user_id movement)
              then (Inl DbError, s0)
              else (Inr createdMovement,
                    s0\<lparr>inventoryMovements := inventoryMovements s @ [createdMovement]\<rparr>))
      | _ \<Rightarrow> (Inl DbError, s))"

text \<open>\<^verbatim>\<open>deleteInventoryMovement\<close> runs up to four statements inside one \<^verbatim>\<open>try\<close>: 0 reads
  the movement, 1 reads the balance row, 2 updates it (when there is one), the last deletes
  the movement. The \<^verbatim>\<open>catch\<close> answers \<^verbatim>\<open>false\<close>, whatever was already written.\<close>

definition db_deleteInventoryMovement ::
  "(js_number \<Rightarrow> js_number option) \<Rightarrow> nat option \<Rightarrow> int \<Rightarrow> int \<Rightarrow> store \<Rightarrow> bool \<times> store" where
  "db_deleteInventoryMovement col fail_at now ident s =
     (if fail_at = Some 0 then (False, s)
      else
        case db_first (filter (\<lambda>row. m_id row = ident) (inventoryMovements s)) of
          None \<Rightarrow> (False, s)
        | Some movement \<Rightarrow>
            if fail_at = Some 1 then (False, s)
            else
              (case db_first (filter (\<lambda>row. i_product_id row = m_product_id movement) (inventory s)) of
                 Some inventoryItem \<Rightarrow>
                   (case (col (js_sub (i_quantity inventoryItem) (m_quantity_change movement)),
                          col (js_sub (i_total_price inventoryItem) (m_total_price movement))) of
                      (Some q, Some t) \<Rightarrow>
                        if fail_at = Some 2 then (False, s)
                        else
                          let s1 = s\<lparr>inventory :=
                                map (\<lambda>row. if i_id row = i_id inventoryItem
                                       then row\<lparr>i_quantity := q, i_total_price := t,
                                                i_last_updated := now\<rparr>
                                       else row) (inventory s)\<rparr>
                          in if fail_at = Some 3 then (False, s1)
                             else (True, s1\<lparr>inventoryMovements :=
                                     filter (\<lambda>row. m_id row \<noteq> ident) (inventoryMovements s1)\<rparr>)
                    | _ \<Rightarrow> (False, s))
               | None \<Rightarrow>
                   if fail_at = Some 2 then (False, s)
                   else (True, s\<lparr>inventoryMovements :=
                           filter (\<lambda>row. m_id row \<noteq> ident) (inventoryMovements s)\<rparr>)))"

subsection \<open>Reports\<close>

record ProductWithInventory =
  r_id :: int
  r_name :: string
  r_category :: string
  r_current_quantity :: js_number
  r_unit :: string
  r_total_value :: js_number
  r_movement_count :: nat

text \<open>\<^verbatim>\<open>x || d\<close> on a number and on a string: the default replaces a falsy value.\<close>

definition or_num :: "js_number \<Rightarrow> js_number \<Rightarrow> js_number" where
  "or_num x d = (if number_truthy x then x else d)"

definition or_str :: "string \<Rightarrow> string \<Rightarrow> string" where
  "or_str x d = (if x = [] then d else x)"

text \<open>\<^verbatim>\<open>getInventoryReport\<close>: the loop over the products pushes one row each. \<open>start\<close>
  and \<open>end\<close> are the timestamps of \<^verbatim>\<open>new Date(startDate)\<close> and \<^verbatim>\<open>new Date(endDate)\<close>.
  First the one of \<^verbatim>\<open>MemStorage\<close>, then the one of \<^verbatim>\<open>DatabaseStorage\<close>, which looks the balance
  row up and selects the movements by queries.\<close>

fun getInventoryReport_loop ::
  "store \<Rightarrow> int \<Rightarrow> int \<Rightarrow> Product list \<Rightarrow> ProductWithInventory list \<Rightarrow> ProductWithInventory list" where
  "getInventoryReport_loop s start end [] result = result"
| "getInventoryReport_loop s start end (product # rest) result =
     (let inventoryItem = getInventoryItem s (p_id product);
          movements = filter (\<lambda>m. m_product_id m = p_id product \<and>
                                   m_movement_date m \<ge> start \<and> m_movement_date m \<le> end)
                        (inventoryMovements s);
          row = \<lparr>r_id = p_id product, r_name = p_name product, r_category = p_category product,
                 r_current_quantity =
                   (case inventoryItem of None \<Rightarrow> Finite 0
                    | Some item \<Rightarrow> or_num (i_quantity item) (Finite 0)),
                 r_unit = (case inventoryItem of None \<Rightarrow> '''' | Some item \<Rightarrow> or_str (i_unit item) ''''),
                 r_total_value =
                   (case inventoryItem of None \<Rightarrow> Finite 0
                    | Some item \<Rightarrow> or_num (i_total_price item) (Finite 0)),
                 r_movement_count = length movements\<rparr>
      in getInventoryReport_loop s start end rest (result @ [row]))"

definition getInventoryReport :: "store \<Rightarrow> int \<Rightarrow> int \<Rightarrow> ProductWithInventory list" where
  "getInventoryReport s start end = getInventoryReport_loop s start end (getAllProducts s) []"

fun db_getInventoryReport_loop ::
  "store \<Rightarrow> int \<Rightarrow> int \<Rightarrow> Product list \<Rightarrow> ProductWithInventory list \<Rightarrow> ProductWithInventory list" where
  "db_getInventoryReport_loop s start end [] result = result"
| "db_getInventoryReport_loop s start end (product # rest) result =
     (let inventoryItem = db_getInventoryItem s (p_id product);
          movements = filter (\<lambda>row. m_product_id row = p_id product \<and>
                                   m_movement_date row \<ge> start \<and> m_movement_date row \<le> end)
                        (inventoryMovements s);
          row = \<lparr>r_id = p_id product, r_name = p_name product, r_category = p_category product,
                 r_current_quantity =
                   (case inventoryItem of None \<Rightarrow> Finite 0
                    | Some item \<Rightarrow> or_num (i_quantity item) (Finite 0)),
                 r_unit = (case inventoryItem of None \<Rightarrow> '''' | Some item \<Rightarrow> or_str (i_unit item) ''''),
                 r_total_value =
                   (case inventoryItem of None \<Rightarrow> Finite 0
                    | Some item \<Rightarrow> or_num (i_total_price item) (Finite 0)),
                 r_movement_count = length movements\<rparr>
      in db_getInventoryReport_loop s start end rest (result @ [row]))"

definition db_getInventoryReport :: "store \<Rightarrow> int \<Rightarrow> int \<Rightarrow> ProductWithInventory list" where
  "db_getInventoryReport s start end =
     db_getInventoryReport_loop s start end (getAllProducts s) []"

section \<open>The client's summary aggregator (client/src/pages/reporting.tsx)\<close>

text \<open>
  A row of the detailed report as the page receives it. JSON carries a finite number or
  \<^verbatim>\<open>null\<close> (NaN and the infinities are sent as \<^verbatim>\<open>null\<close>), so \<^verbatim>\<open>quantity_change\<close> and
  \<^verbatim>\<open>total_price\<close> are options of a real; the page guards them with \<^verbatim>\<open>|| 0\<close>.
\<close>

record ReportItem =
  ri_product_name :: string
  ri_quantity_change :: "real option"
  ri_unit :: string
  ri_total_price :: "real option"

record SummaryGroup =
  sg_name :: string
  sg_quantity :: js_number
  sg_unit :: string
  sg_total_price :: js_number

definition or_zero :: "real option \<Rightarrow> js_number" where
  "or_zero x = (case x of None \<Rightarrow> Finite 0 | Some v \<Rightarrow> or_num (Finite v) (Finite 0))"

text \<open>The accumulator object of \<^verbatim>\<open>reduce\<close>: its own keys in insertion order. One step
  creates the group of a new product name, then adds to it. (A product named like an
  inherited property of a JavaScript object, \<open>constructor\<close> for one, is outside the model.)\<close>

definition summary_step :: "(string \<times> SummaryGroup) list \<Rightarrow> ReportItem \<Rightarrow> (string \<times> SummaryGroup) list" where
  "summary_step acc item =
     (let key = ri_product_name item;
          acc1 = (case map_of acc key of
                    None \<Rightarrow> acc @ [(key, \<lparr>sg_name = ri_product_name item, sg_quantity = Finite 0,
                                           sg_unit = ri_unit item, sg_total_price = Finite 0\<rparr>)]
                  | Some _ \<Rightarrow> acc)
      in map (\<lambda>(k, g). if k = key
                then (k, g\<lparr>sg_quantity :=
                             js_add (sg_quantity g) (js_abs (or_zero (ri_quantity_change item))),
                           sg_total_price :=
                             js_add (sg_total_price g) (or_zero (ri_total_price item))\<rparr>)
                else (k, g)) acc1)"

definition summary_groups :: "ReportItem list \<Rightarrow> (string \<times> SummaryGroup) list" where
  "summary_groups report = foldl summary_step [] report"

text \<open>The table cell: \<^verbatim>\<open>x.toFixed(2)\<close> of a number (the rendering itself is not
  modelled; of NaN and of an infinity it is their name) or a literal text.\<close>

datatype cell = ToFixed2 js_number | Text string

definition unitPrice :: "SummaryGroup \<Rightarrow> cell" where
  "unitPrice item =
     (if js_gt (sg_quantity item) (Finite 0)
      then ToFixed2 (js_divide (sg_total_price item) (sg_quantity item))
      else Text ''0.00'')"
section \<open>The request handlers (server/routes.ts, server/auth.ts)\<close>

text \<open>
  What the handlers take from their surroundings: the database's conversion of a \<^verbatim>\<open>real\<close>
  column (above), and \<^verbatim>\<open>Number::toString\<close> on a finite number, the shortest decimal text
  that reads back as the number, which JavaScript and the database driver use to turn a
  number into text.
\<close>

record environment =
  column :: "js_number \<Rightarrow> js_number option"
  numberToString :: "real \<Rightarrow> string"

text \<open>
  A handler takes the session's account id (\<open>None\<close>: no session), its inputs and the
  store, and answers the HTTP status with the store it leaves. The exported \<^verbatim>\<open>storage\<close>
  is the \<^verbatim>\<open>DatabaseStorage\<close>. Passport reloads the session's account on every request
  (\<^verbatim>\<open>deserializeUser\<close>); an account that is gone is an error before the handler runs.
  The \<open>ident\<close> of a \<^verbatim>\<open>DELETE\<close> handler is the integer \<^verbatim>\<open>parseInt(req.params.id)\<close>.
\<close>

datatype request_user = Anonymous | Authenticated User | DeserializeError

definition deserializeUser :: "store \<Rightarrow> int option \<Rightarrow> request_user" where
  "deserializeUser s session =
     (case session of
        None \<Rightarrow> Anonymous
      | Some ident \<Rightarrow> (case getUser s ident of None \<Rightarrow> DeserializeError
                       | Some user \<Rightarrow> Authenticated user))"

text \<open>A field of a JSON request body. \<open>JUndefined\<close> is an absent field. \<open>JOther\<close> is an
  array or an object, given by the text \<^verbatim>\<open>ToString\<close> makes of it and by the text the
  database driver sends for it.\<close>

datatype jsval =
  JUndefined | JNull | JBool bool | JNum js_number | JStr string | JOther string string

definition truthy :: "jsval \<Rightarrow> bool" where
  "truthy v = (case v of JUndefined \<Rightarrow> False | JNull \<Rightarrow> False | JBool b \<Rightarrow> b
               | JNum n \<Rightarrow> number_truthy n | JStr str \<Rightarrow> str \<noteq> [] | JOther t d \<Rightarrow> True)"

definition number_text :: "environment \<Rightarrow> js_number \<Rightarrow> string" where
  "number_text env n =
     (case n of Finite x \<Rightarrow> numberToString env x | NaN \<Rightarrow> ''NaN''
      | PosInfinity \<Rightarrow> ''Infinity'' | NegInfinity \<Rightarrow> ''-Infinity'')"

text \<open>
  \<^verbatim>\<open>parseInt\<close> and \<^verbatim>\<open>parseFloat\<close> read the text of their argument after its leading (ASCII)
  white space: a sign, then digits (hexadecimal ones after \<^verbatim>\<open>0x\<close>) for \<^verbatim>\<open>parseInt\<close>, and
  \<^verbatim>\<open>Infinity\<close> or digits with a fraction and an exponent for \<^verbatim>\<open>parseFloat\<close>; what follows
  is ignored, and without a digit the result is NaN. The value read is rounded to a double.
\<close>

definition is_digit :: "char \<Rightarrow> bool" where
  "is_digit c = (let n = (of_char c :: nat) in 48 \<le> n \<and> n \<le> 57)"

definition is_hex_digit :: "char \<Rightarrow> bool" where
  "is_hex_digit c =
     (let n = (of_char c :: nat)
      in (48 \<le> n \<and> n \<le> 57) \<or> (65 \<le> n \<and> n \<le> 70) \<or> (97 \<le> n \<and> n \<le> 102))"

definition is_space :: "char \<Rightarrow> bool" where
  "is_space c = (let n = (of_char c :: nat) in n = 32 \<or> (9 \<le> n \<and> n \<le> 13))"

definition digits_val :: "string \<Rightarrow> nat" where
  "digits_val ds = foldl (\<lambda>a c. 10 * a + (of_char c - 48)) 0 ds"

definition hex_digits_val :: "string \<Rightarrow> nat" where
  "hex_digits_val ds =
     foldl (\<lambda>a c. 16 * a + (let n = (of_char c :: nat)
                             in if n \<le> 57 then n - 48 else if n \<le> 70 then n - 55 else n - 87)) 0 ds"

definition read_sign :: "string \<Rightarrow> bool \<times> string" where
  "read_sign str =
     (case str of
        c # rest \<Rightarrow> if c = CHR ''-'' then (True, rest)
                    else if c = CHR ''+'' then (False, rest) else (False, str)
      | [] \<Rightarrow> (False, str))"

definition parseInt_str :: "string \<Rightarrow> js_number" where
  "parseInt_str str =
     (let (neg, t) = read_sign (dropWhile is_space str);
          hex = (take 2 t = ''0x'' \<or> take 2 t = ''0X'');
          ds = (if hex then takeWhile is_hex_digit (drop 2 t) else takeWhile is_digit t);
          v = real (if hex then hex_digits_val ds else digits_val ds)
      in if ds = [] then NaN else round_double (if neg then - v else v))"

definition read_exponent :: "string \<Rightarrow> int" where
  "read_exponent str =
     (case str of
        c # rest \<Rightarrow>
          if c = CHR ''e'' \<or> c = CHR ''E'' then
            (let (neg, t) = read_sign rest; ds = takeWhile is_digit t
             in if ds = [] then 0
                else if neg then - int (digits_val ds) else int (digits_val ds))
          else 0
      | [] \<Rightarrow> 0)"

definition parseFloat_str :: "string \<Rightarrow> js_number" where
  "parseFloat_str str =
     (let (neg, t) = read_sign (dropWhile is_space str);
          ip = takeWhile is_digit t;
          t1 = dropWhile is_digit t;
          fp = (case t1 of c # rest \<Rightarrow> if c = CHR ''.'' then takeWhile is_digit rest else []
                | [] \<Rightarrow> []);
          t2 = (case t1 of c # rest \<Rightarrow> if c = CHR ''.'' then dropWhile is_digit rest else t1
                | [] \<Rightarrow> []);
          e = read_exponent t2;
          m = real (digits_val (ip @ fp)) / 10 ^ length fp;
          v = (if e \<ge> 0 then m * 10 ^ nat e else m / 10 ^ nat (- e))
      in if take 8 t = ''Infinity'' then (if neg then NegInfinity else PosInfinity)
         else if ip = [] \<and> fp = [] then NaN
         else round_double (if neg then - v else v))"

text \<open>On a number, \<^verbatim>\<open>parseFloat\<close> gives the number back, and \<^verbatim>\<open>parseInt\<close> its integer part
  as long as the number's text has no exponent (0, or a magnitude from \<open>10\<^sup>-\<^sup>6\<close> up to
  \<open>10\<^sup>2\<^sup>1\<close>); on the text with an exponent it reads the leading digits.\<close>

definition parseInt :: "environment \<Rightarrow> jsval \<Rightarrow> js_number" where
  "parseInt env v =
     (case v of
        JNum n \<Rightarrow>
          (case n of
             Finite x \<Rightarrow>
               if x = 0 \<or> (1 / 10 ^ 6 \<le> \<bar>x\<bar> \<and> \<bar>x\<bar> < 10 ^ 21)
               then Finite (of_int (if x \<ge> 0 then \<lfloor>x\<rfloor> else \<lceil>x\<rceil>))
               else parseInt_str (numberToString env x)
           | _ \<Rightarrow> NaN)
      | JStr str \<Rightarrow> parseInt_str str
      | JOther t d \<Rightarrow> parseInt_str t
      | _ \<Rightarrow> NaN)"

definition parseFloat :: "jsval \<Rightarrow> js_number" where
  "parseFloat v =
     (case v of JNum n \<Rightarrow> n | JStr str \<Rightarrow> parseFloat_str str | JOther t d \<Rightarrow> parseFloat_str t
      | _ \<Rightarrow> NaN)"

text \<open>The text the driver sends for a value bound to a \<^verbatim>\<open>text\<close> column (\<open>None\<close>: SQL
  \<^verbatim>\<open>NULL\<close>, which the column refuses).\<close>

definition driver_text :: "environment \<Rightarrow> jsval \<Rightarrow> string option" where
  "driver_text env v =
     (case v of JUndefined \<Rightarrow> None | JNull \<Rightarrow> None
      | JBool b \<Rightarrow> Some (if b then ''true'' else ''false'')
      | JNum n \<Rightarrow> Some (number_text env n) | JStr str \<Rightarrow> Some str | JOther t d \<Rightarrow> Some d)"

text \<open>
  \<^verbatim>\<open>POST /api/inventory/movements\<close>. The statements it runs are counted through both
  storage calls: 0 inserts the movement, 1 reads the product's balance row, 2 updates or
  inserts it; \<open>fail_at\<close> names the one that is aborted. The parsed product id reaches an
  \<^verbatim>\<open>integer\<close> column and the unit a \<^verbatim>\<open>text\<close> column: a value they refuse fails the insert
  of the movement when it is bound.
\<close>

definition post_movement_handler ::
  "environment \<Rightarrow> nat option \<Rightarrow> int \<Rightarrow> int option \<Rightarrow> jsval \<Rightarrow> jsval \<Rightarrow> jsval \<Rightarrow> jsval \<Rightarrow> store
     \<Rightarrow> nat \<times> store" where
  "post_movement_handler env fail_at now session product_id quantity_change unit total_price s =
     (case deserializeUser s session of
        Anonymous \<Rightarrow> (401, s)
      | DeserializeError \<Rightarrow> (500, s)
      | Authenticated user \<Rightarrow>
          if \<not> u_can_manage_inventory user \<and> \<not> u_is_admin user then (403, s)
          else if \<not> truthy product_id \<or> \<not> truthy quantity_change \<or> \<not> truthy unit
                  \<or> total_price = JUndefined then (400, s)
          else
            (case (int4 (parseInt env product_id), driver_text env unit) of
               (Some pid, Some u) \<Rightarrow>
                 (let r1 = db_createInventoryMovement (column env) (fail_at = Some 0) now
                             \<lparr>im_product_id = pid,
                              im_quantity_change = parseFloat quantity_change, im_unit = u,
                              im_total_price = parseFloat total_price,
                              im_movement_type = ''update'',
                              im_user_id = Some (u_id user)\<rparr> s
                  in case fst r1 of
                       Inl err \<Rightarrow> (500, snd r1)
                     | Inr movement \<Rightarrow>
                         (let r2 = db_updateInventory (column env)
                                     (case fail_at of Some (Suc n) \<Rightarrow> Some n | _ \<Rightarrow> None) now
                                     \<lparr>ii_product_id = pid,
                                      ii_quantity = parseFloat quantity_change, ii_unit = u,
                                      ii_total_price = parseFloat total_price,
                                      ii_updated_by = Some (u_id user)\<rparr> (snd r1)
                          in case fst r2 of
                               Inl err \<Rightarrow> (500, snd r2)
                             | Inr item \<Rightarrow> (201, snd r2)))
             | _ \<Rightarrow> (500, s)))"

definition delete_movement_handler ::
  "environment \<Rightarrow> nat option \<Rightarrow> int \<Rightarrow> int option \<Rightarrow> int \<Rightarrow> store \<Rightarrow> nat \<times> store" where
  "delete_movement_handler env fail_at now session ident s =
     (case deserializeUser s session of
        Anonymous \<Rightarrow> (401, s)
      | DeserializeError \<Rightarrow> (500, s)
      | Authenticated user \<Rightarrow>
          if \<not> u_can_manage_inventory user \<and> \<not> u_is_admin user then (403, s)
          else (let r = db_deleteInventoryMovement (column env) fail_at now ident s
                in if fst r then (200, snd r) else (404, snd r)))"

definition post_product_handler ::
  "bool \<Rightarrow> int option \<Rightarrow> string \<Rightarrow> string option \<Rightarrow> store \<Rightarrow> nat \<times> store" where
  "post_product_handler fail session name category s =
     (case deserializeUser s session of
        Anonymous \<Rightarrow> (401, s)
      | DeserializeError \<Rightarrow> (500, s)
      | Authenticated user \<Rightarrow>
          if \<not> u_can_add_product user \<and> \<not> u_is_admin user then (403, s)
          else (case db_getProductByName s name of
                  Some existingProduct \<Rightarrow> (400, s)
                | None \<Rightarrow> (let r = db_createProduct fail name category s
                           in case fst r of
                                Inl err \<Rightarrow> (500, snd r)
                              | Inr product \<Rightarrow> (201, snd r))))"

definition delete_product_handler :: "nat option \<Rightarrow> int option \<Rightarrow> int \<Rightarrow> store \<Rightarrow> nat \<times> store" where
  "delete_product_handler fail_at session ident s =
     (case deserializeUser s session of
        Anonymous \<Rightarrow> (401, s)
      | DeserializeError \<Rightarrow> (500, s)
      | Authenticated user \<Rightarrow>
          if \<not> u_can_add_product user \<and> \<not> u_is_admin user then (403, s)
          else (let r = db_deleteProduct fail_at ident s
                in if fst r then (200, snd r) else (404, snd r)))"

text \<open>\<^verbatim>\<open>POST /api/users\<close> and \<^verbatim>\<open>POST /api/register\<close>: the new account arrives with its flags
  already booleans (\<^verbatim>\<open>!!\<close>, respectively \<^verbatim>\<open>?? false\<close>) and its password already hashed.\<close>

definition post_users_handler :: "bool \<Rightarrow> int option \<Rightarrow> User \<Rightarrow> store \<Rightarrow> nat \<times> store" where
  "post_users_handler fail session newUser s =
     (case deserializeUser s session of
        Anonymous \<Rightarrow> (401, s)
      | DeserializeError \<Rightarrow> (500, s)
      | Authenticated user \<Rightarrow>
          if \<not> u_is_admin user then (403, s)
          else (case db_getUserByUsername s (u_username newUser) of
                  Some existingUser \<Rightarrow> (400, s)
                | None \<Rightarrow> (let r = db_createUser fail newUser s
                           in case fst r of
                                Inl err \<Rightarrow> (500, snd r)
                              | Inr created \<Rightarrow> (201, snd r))))"

definition post_register_handler :: "bool \<Rightarrow> int option \<Rightarrow> User \<Rightarrow> store \<Rightarrow> nat \<times> store" where
  "post_register_handler fail session newUser s =
     (case deserializeUser s session of
        Anonymous \<Rightarrow> (401, s)
      | DeserializeError \<Rightarrow> (500, s)
      | Authenticated currentUser \<Rightarrow>
          if \<not> u_is_admin currentUser then (403, s)
          else (case db_getUserByUsername s (u_username newUser) of
                  Some existingUser \<Rightarrow> (400, s)
                | None \<Rightarrow> (let r = db_createUser fail newUser s
                           in case fst r of
                                Inl err \<Rightarrow> (500, snd r)
                              | Inr user \<Rightarrow> (201, snd r))))"

text \<open>\<^verbatim>\<open>DELETE /api/users/:id\<close>. Its statements: 0 \<^verbatim>\<open>getAllUsers\<close>, 1 \<^verbatim>\<open>getUser\<close>,
  2 the delete inside \<^verbatim>\<open>deleteUser\<close>, whose \<^verbatim>\<open>catch\<close> answers \<^verbatim>\<open>false\<close>.\<close>

definition delete_user_handler :: "nat option \<Rightarrow> int option \<Rightarrow> int \<Rightarrow> store \<Rightarrow> nat \<times> store" where
  "delete_user_handler fail_at session ident s =
     (case deserializeUser s session of
        Anonymous \<Rightarrow> (401, s)
      | DeserializeError \<Rightarrow> (500, s)
      | Authenticated user \<Rightarrow>
          if \<not> u_is_admin user then (403, s)
          else if ident = u_id user then (400, s)
          else if fail_at = Some 0 then (500, s)
          else
            let admins = filter u_is_admin (getAllUsers s)
            in if fail_at = Some 1 then (500, s)
               else
                 let targetUser = getUser s ident
                 in if (case targetUser of None \<Rightarrow> False | Some t \<Rightarrow> u_is_admin t)
                        \<and> length admins \<le> 1
                    then (400, s)
                    else (let r = db_deleteUser (fail_at = Some 2) ident s
                          in if fst r then (200, snd r) else (404, snd r)))"

text \<open>The requests that write, and a run of them.\<close>

datatype request =
    PostProduct bool "int option" string "string option"
  | DeleteProduct "nat option" "int option" int
  | PostMovement "nat option" int "int option" jsval jsval jsval jsval
  | DeleteMovementReq "nat option" int "int option" int
  | PostUsers bool "int option" User
  | PostRegister bool "int option" User
  | DeleteUser "nat option" "int option" int

fun handle :: "environment \<Rightarrow> request \<Rightarrow> store \<Rightarrow> nat \<times> store" where
  "handle env (PostProduct fail session name category) s =
     post_product_handler fail session name category s"
| "handle env (DeleteProduct fail_at session ident) s =
     delete_product_handler fail_at session ident s"
| "handle env (PostMovement fail_at now session product_id quantity_change unit total_price) s =
     post_movement_handler env fail_at now session product_id quantity_change unit total_price s"
| "handle env (DeleteMovementReq fail_at now session ident) s =
     delete_movement_handler env fail_at now session ident s"
| "handle env (PostUsers fail session newUser) s = post_users_handler fail session newUser s"
| "handle env (PostRegister fail session newUser) s = post_register_handler fail session newUser s"
| "handle env (DeleteUser fail_at session ident) s = delete_user_handler fail_at session ident s"

fun run_requests :: "environment \<Rightarrow> request list \<Rightarrow> store \<Rightarrow> store" where
  "run_requests env [] s = s"
| "run_requests env (r # rs) s = run_requests env rs (snd (handle env r s))"

section \<open>Sequences of ledger operations\<close>

datatype ledger_op =
    RecordMovement int int js_number string js_number "int option"
  | DeleteMovement int int

fun apply_ledger_op :: "store \<Rightarrow> ledger_op \<Rightarrow> store" where
  "apply_ledger_op s (RecordMovement now productId q unit t uid) =
     snd (mem_recordMovement now productId q unit t uid s)"
| "apply_ledger_op s (DeleteMovement now ident) = snd (mem_deleteInventoryMovement now ident s)"

definition run_ledger :: "ledger_op list \<Rightarrow> store \<Rightarrow> store" where
  "run_ledger ops s = foldl apply_ledger_op s ops"

definition movements_of :: "store \<Rightarrow> int \<Rightarrow> InventoryMovement list" where
  "movements_of s p = filter (\<lambda>m. m_product_id m = p) (inventoryMovements s)"

definition balance_quantity :: "store \<Rightarrow> int \<Rightarrow> js_number" where
  "balance_quantity s p =
     (case getInventoryItem s p of None \<Rightarrow> Finite 0 | Some i \<Rightarrow> i_quantity i)"

definition balance_total_value :: "store \<Rightarrow> int \<Rightarrow> js_number" where
  "balance_total_value s p =
     (case getInventoryItem s p of None \<Rightarrow> Finite 0 | Some i \<Rightarrow> i_total_price i)"

text \<open>A fresh product has no balance row and no movement.\<close>

definition fresh_product :: "store \<Rightarrow> int \<Rightarrow> bool" where
  "fresh_product s p \<longleftrightarrow> getInventoryItem s p = None \<and> movements_of s p = []"

text \<open>What a \<^verbatim>\<open>Map\<close> and the counters guarantee: keys are unique, and every id handed
  out so far is below its counter.\<close>

definition store_wf :: "store \<Rightarrow> bool" where
  "store_wf s \<longleftrightarrow>
     distinct (map i_id (inventory s)) \<and> distinct (map m_id (inventoryMovements s)) \<and>
     list_all (\<lambda>i. i_id i < inventoryIdCounter s) (inventory s) \<and>
     list_all (\<lambda>m. m_id m < movementIdCounter s) (inventoryMovements s)"

text \<open>The value of a finite number, and the sum of a list of numbers as reals.\<close>

fun finite_value :: "js_number \<Rightarrow> real" where
  "finite_value (Finite x) = x"
| "finite_value v = 0"

fun is_finite :: "js_number \<Rightarrow> bool" where
  "is_finite (Finite x) = True"
| "is_finite v = False"

definition real_sum :: "js_number list \<Rightarrow> real" where
  "real_sum vs = sum_list (map finite_value vs)"

text \<open>An addition or subtraction is exact when both operands are finite and the result
  is their sum or difference as real numbers: nothing was rounded.\<close>

definition exact_add :: "js_number \<Rightarrow> js_number \<Rightarrow> bool" where
  "exact_add a b \<longleftrightarrow>
     is_finite a \<and> is_finite b \<and> js_add a b = Finite (finite_value a + finite_value b)"

definition exact_sub :: "js_number \<Rightarrow> js_number \<Rightarrow> bool" where
  "exact_sub a b \<longleftrightarrow>
     is_finite a \<and> is_finite b \<and> js_sub a b = Finite (finite_value a - finite_value b)"

text \<open>A ledger operation is exact for product \<open>p\<close> in a store when the arithmetic it
  performs on the balance of \<open>p\<close> is: the additions of a record on \<open>p\<close> (the first record
  only stores its amounts, which have to be finite), the subtractions of a delete of a
  movement of \<open>p\<close>. An operation on another product is exact for \<open>p\<close>. A run is exact
  when each of its operations is, in the store it meets.\<close>

fun ledger_op_exact :: "store \<Rightarrow> int \<Rightarrow> ledger_op \<Rightarrow> bool" where
  "ledger_op_exact s p (RecordMovement now productId q unit t uid) =
     (if productId = p then
        (case getInventoryItem s p of
           None \<Rightarrow> is_finite q \<and> is_finite t
         | Some e \<Rightarrow> exact_add (i_quantity e) q \<and> exact_add (i_total_price e) t)
      else True)"
| "ledger_op_exact s p (DeleteMovement now ident) =
     (case js_map_get m_id ident (inventoryMovements s) of
        None \<Rightarrow> True
      | Some m \<Rightarrow>
          if m_product_id m = p then
            (case getInventoryItem s p of
               None \<Rightarrow> True
             | Some e \<Rightarrow> exact_sub (i_quantity e) (m_quantity_change m) \<and>
                         exact_sub (i_total_price e) (m_total_price m))
          else True)"

fun run_exact :: "store \<Rightarrow> int \<Rightarrow> ledger_op list \<Rightarrow> bool" where
  "run_exact s p [] = True"
| "run_exact s p (x # xs) = (ledger_op_exact s p x \<and> run_exact (apply_ledger_op s x) p xs)"

definition ledger_inv :: "store \<Rightarrow> int \<Rightarrow> bool" where
  "ledger_inv s p =
     (list_all (\<lambda>m. is_finite (m_quantity_change m) \<and> is_finite (m_total_price m))
        (movements_of s p) \<and>
      (case getInventoryItem s p of
         None \<Rightarrow> movements_of s p = []
       | Some i \<Rightarrow>
           i_quantity i = Finite (real_sum (map m_quantity_change (movements_of s p))) \<and>
           i_total_price i = Finite (real_sum (map m_total_price (movements_of s p)))))"

subsection \<open>On the DatabaseStorage\<close>

text \<open>The record-movement operation on the \<^verbatim>\<open>DatabaseStorage\<close>: the two storage calls of
  the \<^verbatim>\<open>POST /api/inventory/movements\<close> handler, in its order, with the values it passes
  and its numbering of the statements; the first call that throws ends the operation (the
  handler's \<^verbatim>\<open>catch\<close>).\<close>

definition db_recordMovement ::
  "(js_number \<Rightarrow> js_number option) \<Rightarrow> nat option \<Rightarrow> int \<Rightarrow> int \<Rightarrow> js_number \<Rightarrow> string
     \<Rightarrow> js_number \<Rightarrow> int option \<Rightarrow> store \<Rightarrow> (db_error + InventoryMovement) \<times> store" where
  "db_recordMovement col fail_at now productId quantityDelta unit totalPriceDelta actingAccountId s =
     (let r1 = db_createInventoryMovement col (fail_at = Some 0) now
                 \<lparr>im_product_id = productId, im_quantity_change = quantityDelta,
                  im_unit = unit, im_total_price = totalPriceDelta,
                  im_movement_type = ''update'', im_user_id = actingAccountId\<rparr> s
      in case fst r1 of
           Inl err \<Rightarrow> (Inl err, snd r1)
         | Inr movement \<Rightarrow>
             (let r2 = db_updateInventory col
                         (case fail_at of Some (Suc n) \<Rightarrow> Some n | _ \<Rightarrow> None) now
                         \<lparr>ii_product_id = productId, ii_quantity = quantityDelta,
                          ii_unit = unit, ii_total_price = totalPriceDelta,
                          ii_updated_by = actingAccountId\<rparr> (snd r1)
              in case fst r2 of
                   Inl err \<Rightarrow> (Inl err, snd r2)
                 | Inr item \<Rightarrow> (Inr movement, snd r2)))"

datatype db_ledger_op =
    DbRecordMovement "nat option" int int js_number string js_number "int option"
  | DbDeleteMovement "nat option" int int

fun apply_db_ledger_op :: "(js_number \<Rightarrow> js_number option) \<Rightarrow> store \<Rightarrow> db_ledger_op \<Rightarrow> store" where
  "apply_db_ledger_op col s (DbRecordMovement fail_at now productId q unit t uid) =
     snd (db_recordMovement col fail_at now productId q unit t uid s)"
| "apply_db_ledger_op col s (DbDeleteMovement fail_at now ident) =
     snd (db_deleteInventoryMovement col fail_at now ident s)"

definition run_db_ledger ::
  "(js_number \<Rightarrow> js_number option) \<Rightarrow> db_ledger_op list \<Rightarrow> store \<Rightarrow> store" where
  "run_db_ledger col ops s = foldl (apply_db_ledger_op col) s ops"

text \<open>The column keeps a figure when it stores it unchanged.\<close>

definition kept :: "(js_number \<Rightarrow> js_number option) \<Rightarrow> js_number \<Rightarrow> bool" where
  "kept col v \<longleftrightarrow> col v = Some v"

text \<open>A database operation is exact for product \<open>p\<close> in a store when, bearing on \<open>p\<close>, it
  either succeeds with exact arithmetic on figures that the columns keep, or fails without
  having written a row: a record fails with the movement not inserted, a delete fails
  before its last statement.\<close>

fun db_ledger_op_exact ::
  "(js_number \<Rightarrow> js_number option) \<Rightarrow> store \<Rightarrow> int \<Rightarrow> db_ledger_op \<Rightarrow> bool" where
  "db_ledger_op_exact col s p (DbRecordMovement fail_at now productId q unit t uid) =
     (if productId = p then
        (case fst (db_recordMovement col fail_at now productId q unit t uid s) of
           Inl err \<Rightarrow>
             inventoryMovements (snd (db_recordMovement col fail_at now productId q unit t uid s))
               = inventoryMovements s
         | Inr movement \<Rightarrow>
             kept col q \<and> kept col t \<and>
             (case getInventoryItem s p of
                None \<Rightarrow> is_finite q \<and> is_finite t
              | Some e \<Rightarrow>
                  exact_add (i_quantity e) q \<and> kept col (js_add (i_quantity e) q) \<and>
                  exact_add (i_total_price e) t \<and> kept col (js_add (i_total_price e) t)))
      else True)"
| "db_ledger_op_exact col s p (DbDeleteMovement fail_at now ident) =
     (case js_map_get m_id ident (inventoryMovements s) of
        None \<Rightarrow> True
      | Some m \<Rightarrow>
          if m_product_id m = p then
            (case getInventoryItem s p of
               None \<Rightarrow> True
             | Some e \<Rightarrow>
                 if fst (db_deleteInventoryMovement col fail_at now ident s) then
                   exact_sub (i_quantity e) (m_quantity_change m) \<and>
                   kept col (js_sub (i_quantity e) (m_quantity_change m)) \<and>
                   exact_sub (i_total_price e) (m_total_price m) \<and>
                   kept col (js_sub (i_total_price e) (m_total_price m))
                 else fail_at \<noteq> Some 3)
          else True)"

fun db_run_exact ::
  "(js_number \<Rightarrow> js_number option) \<Rightarrow> store \<Rightarrow> int \<Rightarrow> db_ledger_op list \<Rightarrow> bool" where
  "db_run_exact col s p [] = True"
| "db_run_exact col s p (x # xs) =
     (db_ledger_op_exact col s p x \<and> db_run_exact col (apply_db_ledger_op col s x) p xs)"

section \<open>Concrete stores\<close>

text \<open>The surroundings of the examples: the single-precision column, and a
  \<^verbatim>\<open>Number::toString\<close> that no example calls (their numbers are parsed without their text).\<close>

definition example_env :: environment where
  "example_env = \<lparr>column = real4, numberToString = (\<lambda>x. [])\<rparr>"

text \<open>The store of the specification's scenario, after its two movements on product 1:
  10 kg for 100.00, then 5 kg for 40.00, both by the administrator.\<close>

definition example_store :: store where
  "example_store =
     \<lparr>users = [\<lparr>u_id = 1, u_username = ''admin'', u_password = ''hash'', u_is_admin = True,
                 u_can_add_product = True, u_can_view_reports = True,
                 u_can_manage_inventory = True\<rparr>],
      products = [\<lparr>p_id = 1, p_name = ''Un'', p_category = ''GENEL''\<rparr>],
      inventory = [\<lparr>i_id = 1, i_product_id = 1, i_quantity = Finite 15, i_unit = ''kg'',
                     i_total_price = Finite 140, i_last_updated = 2000, i_updated_by = Some 1\<rparr>],
      inventoryMovements =
        [\<lparr>m_id = 1, m_product_id = 1, m_quantity_change = Finite 10, m_unit = ''kg'',
          m_total_price = Finite 100, m_movement_type = ''update'', m_movement_date = 1000,
          m_user_id = Some 1\<rparr>,
         \<lparr>m_id = 2, m_product_id = 1, m_quantity_change = Finite 5, m_unit = ''kg'',
          m_total_price = Finite 40, m_movement_type = ''update'', m_movement_date = 2000,
          m_user_id = Some 1\<rparr>],
      userIdCounter = 2, productIdCounter = 2, inventoryIdCounter = 2, movementIdCounter = 3\<rparr>"




text \<open>The same with a movement of quantity 0 and price 0.\<close>

definition example_zero_movement :: InventoryMovement where
  "example_zero_movement =
     \<lparr>m_id = 3, m_product_id = 1, m_quantity_change = Finite 0, m_unit = ''kg'',
      m_total_price = Finite 0, m_movement_type = ''update'', m_movement_date = 3000,
      m_user_id = Some 1\<rparr>"

definition example_zero_recorded :: store where
  "example_zero_recorded =
     example_store\<lparr>movementIdCounter := 4,
       inventoryMovements := inventoryMovements example_store @ [example_zero_movement],
       inventory :=
         [\<lparr>i_id = 1, i_product_id = 1, i_quantity = Finite 15, i_unit = ''kg'',
           i_total_price = Finite 140, i_last_updated = 3000, i_updated_by = Some 1\<rparr>]\<rparr>"

text \<open>The scenario's store with the second movement's balance update undone but its row
  kept: what a delete of movement 2 leaves when its last statement is aborted.\<close>

definition example_reduced :: store where
  "example_reduced =
     example_store\<lparr>inventory :=
       [\<lparr>i_id = 1, i_product_id = 1, i_quantity = Finite 10, i_unit = ''kg'',
         i_total_price = Finite 100, i_last_updated = 3000, i_updated_by = Some 1\<rparr>]\<rparr>"

text \<open>A store whose product 1 is fresh, and the movement of quantity NaN that a request
  with the quantity text \<open>x\<close> stores.\<close>

definition example_fresh :: store where
  "example_fresh = example_store\<lparr>inventory := [], inventoryMovements := [], inventoryIdCounter := 1,
     movementIdCounter := 1\<rparr>"

definition example_nan :: store where
  "example_nan =
     example_store\<lparr>movementIdCounter := 4,
       inventoryMovements := inventoryMovements example_store @
         [\<lparr>m_id = 3, m_product_id = 1, m_quantity_change = NaN, m_unit = ''kg'',
           m_total_price = Finite 0, m_movement_type = ''update'', m_movement_date = 3000,
           m_user_id = Some 1\<rparr>],
       inventory :=
         [\<lparr>i_id = 1, i_product_id = 1, i_quantity = NaN, i_unit = ''kg'',
           i_total_price = Finite 140, i_last_updated = 3000, i_updated_by = Some 1\<rparr>]\<rparr>"

section \<open>Administrators\<close>

definition has_admin :: "store \<Rightarrow> bool" where
  "has_admin s = list_ex u_is_admin (users s)"


section \<open>Groups of the summary\<close>

text \<open>What every group of the summary satisfies: its quantity, a sum of absolute values,
  is a finite number that is not negative or has overflowed to \<open>+\<infinity>\<close>, and its total
  price is not NaN.\<close>

definition group_ok :: "SummaryGroup \<Rightarrow> bool" where
  "group_ok g \<longleftrightarrow>
     (sg_quantity g = PosInfinity \<or> (\<exists>q. sg_quantity g = Finite q \<and> 0 \<le> q)) \<and>
     sg_total_price g \<noteq> NaN"

section \<open>Rounding\<close>

lemma rne_of_int [simp]: "rne (of_int k) = k"
  by (simp add: rne_def)

lemma rne_nonneg: "0 \<le> r \<Longrightarrow> 0 \<le> rne r"
  by (auto simp: rne_def Let_def)

lemma rne_ge_floor: "\<lfloor>r\<rfloor> \<le> rne r"
  by (simp add: rne_def Let_def)

lemma binade_from_ge: "e \<le> binade_from n e x"
proof (induction n arbitrary: e)
  case (Suc n)
  show ?case using Suc[of "e + 1"] by simp
qed simp

lemma binade_from_lower: "binade_from n e x = e \<or> 2 powi binade_from n e x \<le> x"
proof (induction n arbitrary: e)
  case (Suc n)
  show ?case
  proof (cases "x < 2 powi (e + 1)")
    case True
    then show ?thesis by simp
  next
    case False
    with Suc[of "e + 1"] show ?thesis by auto
  qed
qed simp

lemma binade_from_upper: "binade_from n e x = e + int n \<or> x < 2 powi (binade_from n e x + 1)"
proof (induction n arbitrary: e)
  case (Suc n)
  show ?case
  proof (cases "x < 2 powi (e + 1)")
    case True
    then show ?thesis by simp
  next
    case False
    with Suc[of "e + 1"] show ?thesis by auto
  qed
qed simp

lemma binade_from_eq:
  assumes "emin \<le> e" "e < emin + int n" "e = emin \<or> 2 powi e \<le> x" "x < 2 powi (e + 1)"
  shows "binade_from n emin x = e"
proof -
  let ?b = "binade_from n emin x"
  have "?b \<le> e"
  proof (rule ccontr)
    assume "\<not> ?b \<le> e"
    then have gt: "e + 1 \<le> ?b" by simp
    then have "?b \<noteq> emin" using assms(1) by simp
    with binade_from_lower[of n emin x] have "2 powi ?b \<le> x" by simp
    moreover have "(2::real) powi (e + 1) \<le> 2 powi ?b"
      using gt by (intro power_int_increasing) auto
    ultimately show False using assms(4) by simp
  qed
  moreover have "e \<le> ?b"
  proof (rule ccontr)
    assume "\<not> e \<le> ?b"
    then have lt: "?b + 1 \<le> e" by simp
    then have "?b \<noteq> emin + int n" using assms(2) by simp
    with binade_from_upper[of n emin x] have u: "x < 2 powi (?b + 1)" by simp
    have "e \<noteq> emin" using lt binade_from_ge[of emin n x] by simp
    with assms(3) have "2 powi e \<le> x" by simp
    moreover have "(2::real) powi (?b + 1) \<le> 2 powi e"
      using lt by (intro power_int_increasing) auto
    ultimately show False using u by simp
  qed
  ultimately show ?thesis by simp
qed

lemma binade_from_max: "2 powi (e + int n) \<le> x \<Longrightarrow> binade_from n e x = e + int n"
proof (induction n arbitrary: e)
  case (Suc n)
  have "(2::real) powi (e + 1) \<le> 2 powi (e + int (Suc n))"
    by (intro power_int_increasing) auto
  with Suc.prems have "\<not> x < 2 powi (e + 1)" by simp
  moreover have "binade_from n (e + 1) x = e + 1 + int n"
    using Suc.prems by (intro Suc.IH) (simp add: add.assoc)
  ultimately show ?case by simp
qed simp

lemma round_binary_exact:
  assumes "x / 2 powi (binade_from n emin \<bar>x\<bar> - int p + 1) \<in> \<int>"
  shows "round_binary p emin n x = x"
proof -
  from assms obtain k where k: "x / 2 powi (binade_from n emin \<bar>x\<bar> - int p + 1) = of_int k"
    by (auto elim: Ints_cases)
  have "(2::real) powi (binade_from n emin \<bar>x\<bar> - int p + 1) \<noteq> 0" by simp
  with k have "of_int k * 2 powi (binade_from n emin \<bar>x\<bar> - int p + 1) = x"
    by (simp add: field_simps)
  with k show ?thesis
    by (simp add: round_binary_def Let_def)
qed

lemma round_binary_0 [simp]: "round_binary p emin n 0 = 0"
  by (simp add: round_binary_def rne_def)

lemma powi_Ints: "0 \<le> i \<Longrightarrow> (2::real) powi i \<in> \<int>"
  by (cases i) (auto simp: power_int_def)

lemma mult_powi_Ints:
  assumes "0 \<le> e"
  shows "real_of_int k * 2 powi e \<in> \<int>"
  using assms by (intro Ints_mult powi_Ints) auto

lemma div_powi_Ints:
  assumes "e \<le> 0"
  shows "real_of_int k / 2 powi e \<in> \<int>"
proof -
  have "real_of_int k / 2 powi e = of_int k * 2 powi (- e)"
    by (simp add: power_int_minus field_simps)
  also have "\<dots> \<in> \<int>" using assms by (intro Ints_mult powi_Ints) auto
  finally show ?thesis .
qed

lemma round_binary_of_int:
  assumes "\<bar>k\<bar> \<le> 2 ^ p" "emin \<le> 0" "0 < p"
  shows "round_binary p emin n (of_int k) = of_int k"
proof (rule round_binary_exact)
  let ?x = "\<bar>real_of_int k\<bar>"
  let ?b = "binade_from n emin ?x"
  show "real_of_int k / 2 powi (?b - int p + 1) \<in> \<int>"
  proof (cases "?b \<le> int p - 1")
    case True
    then show ?thesis by (intro div_powi_Ints) simp
  next
    case False
    then have bp: "int p \<le> ?b" by simp
    with assms have "?b \<noteq> emin" by simp
    with binade_from_lower[of n emin ?x] have low: "2 powi ?b \<le> ?x" by simp
    have "(2::real) powi int p \<le> 2 powi ?b"
      using bp by (intro power_int_increasing) auto
    with low have "(2::real) ^ p \<le> ?x" by simp
    moreover have "?x \<le> 2 ^ p"
    proof -
      have "real_of_int \<bar>k\<bar> \<le> real_of_int (2 ^ p)" using assms(1) by (simp only: of_int_le_iff)
      then show ?thesis by simp
    qed
    ultimately have eq: "?x = 2 ^ p" by simp
    then have "2 powi ?b \<le> (2::real) powi int p" using low by simp
    then have "?b \<le> int p"
      using power_int_strict_increasing[of "int p" ?b "2::real"] by (cases "?b \<le> int p") auto
    with bp have b: "?b = int p" by simp
    from eq have "real_of_int k = 2 ^ p \<or> real_of_int k = - (2 ^ p)" by (auto simp: abs_if split: if_splits)
    moreover have "(2::real) ^ p / 2 = 2 ^ (p - 1)"
      using assms(3) by (cases p) auto
    ultimately have "real_of_int k / 2 \<in> \<int>"
      by (auto simp: minus_divide_left[symmetric] simp del: minus_divide_left)
    then show ?thesis by (simp add: b)
  qed
qed

lemma round_double_of_int:
  assumes "\<bar>k\<bar> \<le> 2 ^ 53"
  shows "round_double (of_int k) = Finite (of_int k)"
proof -
  have r: "round_binary 53 (- 1022) 2046 (of_int k) = of_int k"
    using assms by (intro round_binary_of_int) auto
  have "\<bar>real_of_int k\<bar> \<le> 2 ^ 53"
  proof -
    have "real_of_int \<bar>k\<bar> \<le> real_of_int (2 ^ 53)" using assms by (simp only: of_int_le_iff)
    then show ?thesis by simp
  qed
  moreover have "(2::real) ^ 53 < 2 ^ 1024" by (intro power_strict_increasing) auto
  ultimately have "\<not> 2 ^ 1024 \<le> \<bar>real_of_int k\<bar>" by linarith
  then show ?thesis by (simp add: round_double_def r Let_def)
qed

lemma round_binary_nonneg: "0 \<le> x \<Longrightarrow> 0 \<le> round_binary p emin n x"
  by (simp add: round_binary_def Let_def rne_nonneg)

lemma round_double_nonneg:
  "0 \<le> x \<Longrightarrow> round_double x = PosInfinity \<or> (\<exists>y. round_double x = Finite y \<and> 0 \<le> y)"
  using round_binary_nonneg[of x 53 "- 1022" 2046]
  by (auto simp: round_double_def Let_def)

lemma pow2_1024_split: "(2::real) ^ 52 * 2 ^ 972 = 2 ^ 1024"
  by (subst power_add[symmetric]) simp

lemma round_double_overflow:
  assumes "2 ^ 1024 \<le> x"
  shows "round_double x = PosInfinity"
proof -
  have x0: "0 < x" using assms by (rule less_le_trans[rotated]) simp
  then have x: "\<bar>x\<bar> = x" by simp
  have b: "binade_from 2046 (- 1022) \<bar>x\<bar> = 1024"
    using binade_from_max[of "- 1022" 2046 x] assms x by simp
  have "(2::real) ^ 52 \<le> x / 2 ^ 972"
    using assms by (simp only: pos_le_divide_eq zero_less_power zero_less_numeral pow2_1024_split)
  then have "(2::int) ^ 52 \<le> \<lfloor>x / 2 ^ 972\<rfloor>" by (simp add: le_floor_iff)
  then have "(2::int) ^ 52 \<le> rne (x / 2 ^ 972)" using rne_ge_floor[of "x / 2 ^ 972"] by linarith
  then have "real_of_int (2 ^ 52) \<le> real_of_int (rne (x / 2 ^ 972))" by (simp only: of_int_le_iff)
  then have "real_of_int (2 ^ 52) * 2 ^ 972 \<le> real_of_int (rne (x / 2 ^ 972)) * 2 ^ 972"
    by (rule mult_right_mono) simp
  then have y: "(2::real) ^ 1024 \<le> real_of_int (rne (x / 2 ^ 972)) * 2 ^ 972"
    using pow2_1024_split by simp
  have r: "round_binary 53 (- 1022) 2046 x = real_of_int (rne (x / 2 ^ 972)) * 2 ^ 972"
    by (simp add: round_binary_def b Let_def)
  have "0 < real_of_int (rne (x / 2 ^ 972)) * (2::real) ^ 972"
    using y by (rule less_le_trans[rotated]) simp
  with y show ?thesis by (simp add: round_double_def r Let_def)
qed

lemma round_binary_dyadic:
  assumes "x = of_int k * 2 powi j" "\<bar>k\<bar> < 2 ^ p" "emin - int p + 1 \<le> j"
  shows "round_binary p emin n x = x"
proof (rule round_binary_exact)
  let ?b = "binade_from n emin \<bar>x\<bar>"
  have le: "?b - int p + 1 \<le> j"
  proof (cases "?b = emin")
    case True
    with assms(3) show ?thesis by simp
  next
    case False
    with binade_from_lower[of n emin "\<bar>x\<bar>"] have low: "2 powi ?b \<le> \<bar>x\<bar>" by simp
    have "real_of_int \<bar>k\<bar> < real_of_int (2 ^ p)" using assms(2) by (simp only: of_int_less_iff)
    then have "\<bar>real_of_int k\<bar> < 2 powi int p" by simp
    then have "\<bar>x\<bar> < 2 powi int p * 2 powi j"
      by (simp add: assms(1) abs_mult)
    then have "\<bar>x\<bar> < 2 powi (int p + j)" by (simp add: power_int_add)
    with low have "(2::real) powi ?b < 2 powi (int p + j)" by simp
    then have "?b < int p + j"
      using power_int_increasing[of "int p + j" ?b "2::real"] by (cases "?b < int p + j") auto
    then show ?thesis by simp
  qed
  have "x / 2 powi (?b - int p + 1) = of_int k * 2 powi (j - (?b - int p + 1))"
    by (simp add: assms(1) power_int_diff)
  also have "\<dots> \<in> \<int>" using le by (intro mult_powi_Ints) simp
  finally show "x / 2 powi (?b - int p + 1) \<in> \<int>" .
qed

lemma round_double_dyadic:
  assumes "x = of_int k * 2 powi j" "\<bar>k\<bar> < 2 ^ 53" "- 1074 \<le> j" "\<bar>x\<bar> < 2 ^ 1024"
  shows "round_double x = Finite x"
proof -
  have "round_binary 53 (- 1022) 2046 x = x"
    using assms by (intro round_binary_dyadic[of x k j]) auto
  with assms(4) show ?thesis by (simp add: round_double_def Let_def)
qed

lemma round_double_tie: "round_double (2 ^ 53 + 1) = Finite (2 ^ 53)"
proof -
  have b: "binade_from 2046 (- 1022) \<bar>2 ^ 53 + 1 :: real\<bar> = 53"
    by (rule binade_from_eq) simp_all
  have f: "\<lfloor>(2 ^ 53 + 1 :: real) / 2\<rfloor> = 2 ^ 52"
    by (simp add: floor_eq_iff)
  have "rne ((2 ^ 53 + 1) / 2) = 2 ^ 52"
    unfolding rne_def Let_def f by simp
  then have "round_binary 53 (- 1022) 2046 (2 ^ 53 + 1) = 2 ^ 53"
    using b by (simp add: round_binary_def Let_def)
  then show ?thesis by (simp add: round_double_def Let_def)
qed

lemma round_double_0 [simp]: "round_double 0 = Finite 0"
  by (simp add: round_double_def)

lemma round_double_numeral:
  "(numeral n :: int) \<le> 2 ^ 53 \<Longrightarrow> round_double (numeral n) = Finite (numeral n)"
  using round_double_of_int[of "numeral n"] by simp

lemma round_double_1 [simp]: "round_double 1 = Finite 1"
  using round_double_of_int[of 1] by simp

lemma real4_of_int:
  assumes "\<bar>k\<bar> \<le> 2 ^ 24"
  shows "real4 (Finite (of_int k)) = Some (Finite (of_int k))"
proof -
  have r: "round_binary 24 (- 126) 254 (of_int k) = of_int k"
    using assms by (intro round_binary_of_int) auto
  have "\<bar>real_of_int k\<bar> \<le> 2 ^ 24"
  proof -
    have "real_of_int \<bar>k\<bar> \<le> real_of_int (2 ^ 24)" using assms by (simp only: of_int_le_iff)
    then show ?thesis by simp
  qed
  moreover have "(2::real) ^ 24 < 2 ^ 128" by (intro power_strict_increasing) auto
  ultimately have "\<not> 2 ^ 128 \<le> \<bar>real_of_int k\<bar>" by linarith
  then show ?thesis by (simp add: real4_def r Let_def)
qed

lemma real4_numeral:
  "(numeral n :: int) \<le> 2 ^ 24 \<Longrightarrow> real4 (Finite (numeral n)) = Some (Finite (numeral n))"
  using real4_of_int[of "numeral n"] by simp

lemma real4_0 [simp]: "real4 (Finite 0) = Some (Finite 0)"
  using real4_of_int[of 0] by simp

lemma real4_NaN [simp]: "real4 NaN = Some NaN"
  by (simp add: real4_def)

lemma is_finite_iff: "is_finite v \<longleftrightarrow> v = Finite (finite_value v)"
  by (cases v) simp_all


section \<open>Facts about the map operations\<close>

lemma js_map_set_fresh: "\<forall>x\<in>set xs. key x \<noteq> key v \<Longrightarrow> js_map_set key v xs = xs @ [v]"
  by (induction xs) auto

lemma js_map_set_keys:
  "map key (js_map_set key v xs) = (if key v \<in> set (map key xs) then map key xs else map key xs @ [key v])"
  by (induction xs) auto

lemma find_set_same:
  "distinct (map key xs) \<Longrightarrow> find P xs = Some e \<Longrightarrow> key e' = key e \<Longrightarrow> P e' \<Longrightarrow>
   find P (js_map_set key e' xs) = Some e'"
proof (induction xs)
  case Nil
  then show ?case by simp
next
  case (Cons x xs)
  show ?case
  proof (cases "P x")
    case True
    with Cons.prems show ?thesis by simp
  next
    case False
    with Cons.prems have f: "find P xs = Some e" by simp
    then have "e \<in> set xs" by (auto simp: find_Some_iff)
    with Cons.prems(1) have "key x \<noteq> key e" by auto
    with Cons f False show ?thesis by simp
  qed
qed

lemma find_set_other:
  "distinct (map key xs) \<Longrightarrow> e \<in> set xs \<Longrightarrow> key e' = key e \<Longrightarrow> \<not> Q e \<Longrightarrow> \<not> Q e' \<Longrightarrow>
   find Q (js_map_set key e' xs) = find Q xs"
proof (induction xs)
  case Nil
  then show ?case by simp
next
  case (Cons x xs)
  show ?case
  proof (cases "key x = key e'")
    case True
    with Cons.prems have "x = e" by (auto simp: image_iff)
    with True Cons.prems show ?thesis by simp
  next
    case False
    with Cons.prems have "e \<in> set xs" by auto
    with Cons False show ?thesis by simp
  qed
qed

lemma find_append_new:
  "find Q (xs @ [v]) = (case find Q xs of Some x \<Rightarrow> Some x | None \<Rightarrow> if Q v then Some v else None)"
  by (induction xs) auto

lemma sum_filter_remove:
  fixes f :: "'a \<Rightarrow> real"
  shows "distinct (map key xs) \<Longrightarrow> m \<in> set xs \<Longrightarrow>
   sum_list (map f (filter P (filter (\<lambda>x. key x \<noteq> key m) xs))) =
   sum_list (map f (filter P xs)) - (if P m then f m else 0)"
proof (induction xs)
  case Nil
  then show ?case by simp
next
  case (Cons x xs)
  show ?case
  proof (cases "x = m")
    case True
    with Cons.prems have "\<forall>y\<in>set xs. key y \<noteq> key m" by (auto simp: image_iff)
    then have "filter (\<lambda>x. key x \<noteq> key m) xs = xs" by (simp add: filter_id_conv)
    with True show ?thesis by simp
  next
    case False
    with Cons.prems have "m \<in> set xs" "key x \<noteq> key m" by (auto simp: image_iff)
    with Cons show ?thesis by simp
  qed
qed


lemma js_map_set_list_all: "list_all P xs \<Longrightarrow> P v \<Longrightarrow> list_all P (js_map_set key v xs)"
  by (induction xs) auto

section \<open>The ledger invariant (MemStorage)\<close>

lemma find_mem: "find P xs = Some e \<Longrightarrow> e \<in> set xs \<and> P e"
  by (auto simp: find_Some_iff)

lemma createMovement_effect:
  assumes "store_wf s"
  shows "inventoryMovements (snd (mem_createInventoryMovement now m s)) =
           inventoryMovements s @ [fst (mem_createInventoryMovement now m s)]"
    and "inventory (snd (mem_createInventoryMovement now m s)) = inventory s"
    and "inventoryIdCounter (snd (mem_createInventoryMovement now m s)) = inventoryIdCounter s"
    and "movementIdCounter (snd (mem_createInventoryMovement now m s)) = movementIdCounter s + 1"
    and "m_id (fst (mem_createInventoryMovement now m s)) = movementIdCounter s"
proof -
  have "\<forall>x\<in>set (inventoryMovements s). m_id x \<noteq> movementIdCounter s"
    using assms by (auto simp: store_wf_def list_all_iff)
  then show "inventoryMovements (snd (mem_createInventoryMovement now m s)) =
           inventoryMovements s @ [fst (mem_createInventoryMovement now m s)]"
    by (simp add: mem_createInventoryMovement_def Let_def js_map_set_fresh)
qed (simp_all add: mem_createInventoryMovement_def Let_def)

lemma createMovement_wf:
  assumes "store_wf s"
  shows "store_wf (snd (mem_createInventoryMovement now m s))"
proof -
  have "\<forall>x\<in>set (inventoryMovements s). m_id x < movementIdCounter s"
    using assms by (auto simp: store_wf_def list_all_iff)
  then show ?thesis
    using assms createMovement_effect[OF assms, of now m]
    by (auto simp: store_wf_def list_all_iff)
qed

lemma createMovement_getInventoryItem:
  "getInventoryItem (snd (mem_createInventoryMovement now m s)) q = getInventoryItem s q"
  by (simp add: mem_createInventoryMovement_def Let_def getInventoryItem_def)

lemma updateInventory_movements:
  "inventoryMovements (snd (mem_updateInventory now item s)) = inventoryMovements s"
  "movementIdCounter (snd (mem_updateInventory now item s)) = movementIdCounter s"
  by (simp_all add: mem_updateInventory_def Let_def split: option.splits)

lemma updateInventory_get:
  assumes "store_wf s"
  shows "getInventoryItem (snd (mem_updateInventory now item s)) q =
           (if q = ii_product_id item then Some (fst (mem_updateInventory now item s))
            else getInventoryItem s q)"
proof (cases "getInventoryItem s (ii_product_id item)")
  case None
  have fresh: "\<forall>x\<in>set (inventory s). i_id x \<noteq> inventoryIdCounter s"
    using assms by (auto simp: store_wf_def list_all_iff)
  have app: "js_map_set i_id v (inventory s) = inventory s @ [v]"
    if "i_id v = inventoryIdCounter s" for v
    using fresh that by (intro js_map_set_fresh) auto
  from None show ?thesis
    by (simp add: mem_updateInventory_def Let_def getInventoryItem_def app find_append_new
        split: option.splits)
next
  case (Some e)
  then have e: "e \<in> set (inventory s)" "i_product_id e = ii_product_id item"
    using find_mem[of "\<lambda>x. i_product_id x = ii_product_id item" "inventory s" e]
    by (simp_all add: getInventoryItem_def)
  have d: "distinct (map i_id (inventory s))" using assms by (simp add: store_wf_def)
  show ?thesis
  proof (cases "q = ii_product_id item")
    case True
    with Some e d show ?thesis
      by (simp add: mem_updateInventory_def Let_def getInventoryItem_def find_set_same)
  next
    case False
    with Some e d show ?thesis
      by (simp add: mem_updateInventory_def Let_def getInventoryItem_def find_set_other)
  qed
qed

lemma updateInventory_result:
  "i_quantity (fst (mem_updateInventory now item s)) =
     (case getInventoryItem s (ii_product_id item) of
        None \<Rightarrow> ii_quantity item
      | Some e \<Rightarrow> js_add (i_quantity e) (ii_quantity item))"
  "i_total_price (fst (mem_updateInventory now item s)) =
     (case getInventoryItem s (ii_product_id item) of
        None \<Rightarrow> ii_total_price item
      | Some e \<Rightarrow> js_add (i_total_price e) (ii_total_price item))"
  "i_unit (fst (mem_updateInventory now item s)) = ii_unit item"
  by (simp_all add: mem_updateInventory_def Let_def split: option.splits)

lemma updateInventory_wf:
  assumes "store_wf s"
  shows "store_wf (snd (mem_updateInventory now item s))"
proof (cases "getInventoryItem s (ii_product_id item)")
  case None
  have fresh: "\<forall>x\<in>set (inventory s). i_id x \<noteq> inventoryIdCounter s"
    and lt: "\<forall>x\<in>set (inventory s). i_id x < inventoryIdCounter s"
    using assms by (auto simp: store_wf_def list_all_iff)
  have app: "js_map_set i_id v (inventory s) = inventory s @ [v]"
    if "i_id v = inventoryIdCounter s" for v
    using fresh that by (intro js_map_set_fresh) auto
  from None assms lt fresh show ?thesis
    by (auto simp: mem_updateInventory_def Let_def store_wf_def list_all_iff app)
next
  case (Some e)
  then have e: "e \<in> set (inventory s)"
    using find_mem[of "\<lambda>x. i_product_id x = ii_product_id item" "inventory s" e]
    by (simp_all add: getInventoryItem_def)
  have keys: "map i_id (js_map_set i_id (e\<lparr>i_quantity := a, i_unit := b, i_total_price := c,
                 i_last_updated := d, i_updated_by := f\<rparr>) (inventory s)) = map i_id (inventory s)"
    for a b c d f
    using e by (simp add: js_map_set_keys)
  have lt: "i_id e < inventoryIdCounter s"
    using assms e by (auto simp: store_wf_def list_all_iff)
  from Some assms lt show ?thesis
    unfolding store_wf_def mem_updateInventory_def Let_def
    by (simp add: keys js_map_set_list_all)
qed

lemma recordMovement_wf:
  assumes "store_wf s"
  shows "store_wf (snd (mem_recordMovement now p q u t a s))"
  by (simp add: mem_recordMovement_def Let_def updateInventory_wf createMovement_wf assms)

lemma recordMovement_fst:
  "m_quantity_change (fst (mem_recordMovement now p q u t a s)) = q"
  "m_total_price (fst (mem_recordMovement now p q u t a s)) = t"
  "m_product_id (fst (mem_recordMovement now p q u t a s)) = p"
  by (simp_all add: mem_recordMovement_def Let_def mem_createInventoryMovement_def)

lemma recordMovement_movements_of:
  assumes "store_wf s"
  shows "movements_of (snd (mem_recordMovement now p q u t a s)) p' =
           movements_of s p' @ (if p' = p then [fst (mem_recordMovement now p q u t a s)] else [])"
proof -
  have "inventoryMovements (snd (mem_recordMovement now p q u t a s)) =
          inventoryMovements s @ [fst (mem_recordMovement now p q u t a s)]"
    using createMovement_effect(1)[OF assms]
    by (simp add: mem_recordMovement_def Let_def updateInventory_movements)
  then show ?thesis
    by (simp add: movements_of_def recordMovement_fst)
qed

lemma recordMovement_get:
  assumes "store_wf s"
  shows "getInventoryItem (snd (mem_recordMovement now p q u t a s)) p' =
     (if p' = p then
        Some (fst (mem_updateInventory now
          \<lparr>ii_product_id = p, ii_quantity = q, ii_unit = u, ii_total_price = t,
           ii_updated_by = a\<rparr>
          (snd (mem_createInventoryMovement now
          \<lparr>im_product_id = p, im_quantity_change = q, im_unit = u, im_total_price = t,
           im_movement_type = ''update'', im_user_id = a\<rparr> s))))
      else getInventoryItem s p')"
  by (simp add: mem_recordMovement_def Let_def updateInventory_get[OF createMovement_wf[OF assms]]
      createMovement_getInventoryItem)

lemma real_sum_append [simp]: "real_sum (xs @ ys) = real_sum xs + real_sum ys"
  by (simp add: real_sum_def)

lemma real_sum_single [simp]: "real_sum [v] = finite_value v"
  by (simp add: real_sum_def)

lemma real_sum_Nil [simp]: "real_sum [] = 0"
  by (simp add: real_sum_def)

lemma recordMovement_inv:
  assumes wf: "store_wf s" and inv: "ledger_inv s p'"
      and ex: "ledger_op_exact s p' (RecordMovement now p q u t a)"
  shows "ledger_inv (snd (mem_recordMovement now p q u t a s)) p'"
proof (cases "p' = p")
  case False
  with inv show ?thesis
    by (simp add: ledger_inv_def recordMovement_get[OF wf] recordMovement_movements_of[OF wf]
        split: option.splits)
next
  case True
  show ?thesis
  proof (cases "getInventoryItem s p")
    case None
    with inv True have "movements_of s p = []" by (simp add: ledger_inv_def)
    moreover from ex None True have "q = Finite (finite_value q)" "t = Finite (finite_value t)"
      by (simp_all add: is_finite_iff[symmetric])
    moreover from ex None True have "is_finite q" "is_finite t" by simp_all
    ultimately show ?thesis
      using None True
      by (simp add: ledger_inv_def recordMovement_get[OF wf] recordMovement_movements_of[OF wf]
          updateInventory_result createMovement_getInventoryItem recordMovement_fst)
  next
    case (Some e)
    with inv True have e: "i_quantity e = Finite (real_sum (map m_quantity_change (movements_of s p)))"
      "i_total_price e = Finite (real_sum (map m_total_price (movements_of s p)))"
      and fin: "list_all (\<lambda>m. is_finite (m_quantity_change m) \<and> is_finite (m_total_price m))
        (movements_of s p)"
      by (simp_all add: ledger_inv_def)
    from ex Some True have x: "exact_add (i_quantity e) q" "exact_add (i_total_price e) t"
      by simp_all
    then have "js_add (i_quantity e) q =
        Finite (real_sum (map m_quantity_change (movements_of s p)) + finite_value q)"
      "js_add (i_total_price e) t =
        Finite (real_sum (map m_total_price (movements_of s p)) + finite_value t)"
      "is_finite q" "is_finite t"
      by (simp_all add: exact_add_def e)
    with Some True fin show ?thesis
      by (simp add: ledger_inv_def recordMovement_get[OF wf] recordMovement_movements_of[OF wf]
          updateInventory_result createMovement_getInventoryItem recordMovement_fst)
  qed
qed

lemma mem_delete_absent:
  "js_map_get m_id ident (inventoryMovements s) = None \<Longrightarrow>
   mem_deleteInventoryMovement now ident s = (False, s)"
  by (simp add: mem_deleteInventoryMovement_def)

lemma deleteMovement_movements:
  "js_map_get m_id ident (inventoryMovements s) = Some m \<Longrightarrow>
   inventoryMovements (snd (mem_deleteInventoryMovement now ident s)) =
     filter (\<lambda>x. m_id x \<noteq> ident) (inventoryMovements s)"
  by (simp add: mem_deleteInventoryMovement_def Let_def js_map_delete_def split: option.splits)

lemma deleteMovement_counters:
  "inventoryIdCounter (snd (mem_deleteInventoryMovement now ident s)) = inventoryIdCounter s"
  "movementIdCounter (snd (mem_deleteInventoryMovement now ident s)) = movementIdCounter s"
  by (simp_all add: mem_deleteInventoryMovement_def Let_def split: option.splits)

lemma mem_delete_get:
  assumes "distinct (map i_id (inventory s))" and "js_map_get m_id ident (inventoryMovements s) = Some m"
  shows "getInventoryItem (snd (mem_deleteInventoryMovement now ident s)) q =
     (case getInventoryItem s q of
        None \<Rightarrow> None
      | Some e \<Rightarrow>
          if q = m_product_id m then
            Some (e\<lparr>i_quantity := js_sub (i_quantity e) (m_quantity_change m),
                    i_total_price := js_sub (i_total_price e) (m_total_price m),
                    i_last_updated := now\<rparr>)
          else Some e)"
proof (cases "getInventoryItem s (m_product_id m)")
  case None
  with assms(2) show ?thesis
    by (auto simp: mem_deleteInventoryMovement_def Let_def getInventoryItem_def split: option.splits)
next
  case (Some e)
  then have e: "e \<in> set (inventory s)" "i_product_id e = m_product_id m"
    using find_mem[of "\<lambda>x. i_product_id x = m_product_id m" "inventory s" e]
    by (simp_all add: getInventoryItem_def)
  show ?thesis
  proof (cases "q = m_product_id m")
    case True
    with Some e assms show ?thesis
      by (simp add: mem_deleteInventoryMovement_def Let_def getInventoryItem_def find_set_same)
  next
    case False
    with Some e assms show ?thesis
      by (simp add: mem_deleteInventoryMovement_def Let_def getInventoryItem_def find_set_other
          split: option.splits)
  qed
qed

lemma deleteMovement_wf:
  assumes "store_wf s"
  shows "store_wf (snd (mem_deleteInventoryMovement now ident s))"
proof (cases "js_map_get m_id ident (inventoryMovements s)")
  case None
  with assms show ?thesis by (simp add: mem_delete_absent)
next
  case (Some m)
  show ?thesis
  proof (cases "getInventoryItem s (m_product_id m)")
    case None
    with Some assms show ?thesis
      by (auto simp: mem_deleteInventoryMovement_def Let_def js_map_delete_def store_wf_def
          distinct_map_filter list_all_iff)
  next
    case (Some e)
    then have e: "e \<in> set (inventory s)"
      using find_mem[of "\<lambda>x. i_product_id x = m_product_id m" "inventory s" e]
      by (simp_all add: getInventoryItem_def)
    have keys: "map i_id (js_map_set i_id v (inventory s)) = map i_id (inventory s)"
      if "i_id v = i_id e" for v
      using e that by (simp add: js_map_set_keys)
    have lt: "i_id e < inventoryIdCounter s"
      using assms e by (auto simp: store_wf_def list_all_iff)
    have "list_all P (filter Q xs)" if "list_all P xs" for P Q and xs :: "InventoryMovement list"
      using that by (auto simp: list_all_iff)
    with Some \<open>js_map_get m_id ident (inventoryMovements s) = Some m\<close> assms lt show ?thesis
      unfolding store_wf_def mem_deleteInventoryMovement_def Let_def js_map_delete_def
      by (simp add: keys js_map_set_list_all distinct_map_filter)
  qed
qed

lemma real_sum_filter_remove:
  assumes "distinct (map m_id xs)" "m \<in> set xs"
  shows "real_sum (map g (filter P (filter (\<lambda>x. m_id x \<noteq> m_id m) xs))) =
         real_sum (map g (filter P xs)) - (if P m then finite_value (g m) else 0)"
  using sum_filter_remove[OF assms, of "\<lambda>x. finite_value (g x)" P]
  by (simp add: real_sum_def comp_def)

lemma deleteMovement_inv:
  assumes wf: "store_wf s" and inv: "ledger_inv s p"
      and ex: "ledger_op_exact s p (DeleteMovement now ident)"
  shows "ledger_inv (snd (mem_deleteInventoryMovement now ident s)) p"
proof (cases "js_map_get m_id ident (inventoryMovements s)")
  case None
  with inv show ?thesis by (simp add: mem_delete_absent)
next
  case (Some m)
  then have m: "m \<in> set (inventoryMovements s)" "m_id m = ident"
    using find_mem[of "\<lambda>x. m_id x = ident" "inventoryMovements s" m]
    by (simp_all add: js_map_get_def)
  have d: "distinct (map m_id (inventoryMovements s))" using wf by (simp add: store_wf_def)
  have di: "distinct (map i_id (inventory s))" using wf by (simp add: store_wf_def)
  let ?s' = "snd (mem_deleteInventoryMovement now ident s)"
  have mv: "movements_of ?s' p =
      filter (\<lambda>x. m_product_id x = p) (filter (\<lambda>x. m_id x \<noteq> m_id m) (inventoryMovements s))"
    by (simp add: movements_of_def deleteMovement_movements[OF Some] m)
  have sq: "real_sum (map m_quantity_change (movements_of ?s' p)) =
      real_sum (map m_quantity_change (movements_of s p)) -
        (if m_product_id m = p then finite_value (m_quantity_change m) else 0)"
    by (subst mv, unfold movements_of_def, rule real_sum_filter_remove[OF d m(1)])
  have sp: "real_sum (map m_total_price (movements_of ?s' p)) =
      real_sum (map m_total_price (movements_of s p)) -
        (if m_product_id m = p then finite_value (m_total_price m) else 0)"
    by (subst mv, unfold movements_of_def, rule real_sum_filter_remove[OF d m(1)])
  have fin: "list_all (\<lambda>m. is_finite (m_quantity_change m) \<and> is_finite (m_total_price m))
        (movements_of ?s' p)"
    using inv by (subst mv) (auto simp: ledger_inv_def movements_of_def list_all_iff)
  show ?thesis
  proof (cases "getInventoryItem s p")
    case None
    with inv have "movements_of s p = []" by (simp add: ledger_inv_def)
    then have "movements_of ?s' p = []"
      by (subst mv) (auto simp: movements_of_def filter_empty_conv)
    with None show ?thesis
      by (simp add: ledger_inv_def mem_delete_get[OF di Some])
  next
    case (Some e)
    with inv have e: "i_quantity e = Finite (real_sum (map m_quantity_change (movements_of s p)))"
      "i_total_price e = Finite (real_sum (map m_total_price (movements_of s p)))"
      by (simp_all add: ledger_inv_def)
    show ?thesis
    proof (cases "m_product_id m = p")
      case False
      with Some e sq sp fin show ?thesis
        by (simp add: ledger_inv_def
            mem_delete_get[OF di \<open>js_map_get m_id ident (inventoryMovements s) = Some m\<close>])
    next
      case True
      with ex Some \<open>js_map_get m_id ident (inventoryMovements s) = Some m\<close>
      have "exact_sub (i_quantity e) (m_quantity_change m)"
        "exact_sub (i_total_price e) (m_total_price m)"
        by simp_all
      then have "js_sub (i_quantity e) (m_quantity_change m) =
          Finite (real_sum (map m_quantity_change (movements_of s p)) -
                  finite_value (m_quantity_change m))"
        "js_sub (i_total_price e) (m_total_price m) =
          Finite (real_sum (map m_total_price (movements_of s p)) -
                  finite_value (m_total_price m))"
        by (simp_all add: exact_sub_def e)
      with Some True sq sp fin show ?thesis
        by (simp add: ledger_inv_def
            mem_delete_get[OF di \<open>js_map_get m_id ident (inventoryMovements s) = Some m\<close>])
    qed
  qed
qed

lemma run_ledger_inv:
  "store_wf s \<Longrightarrow> ledger_inv s p \<Longrightarrow> run_exact s p ops \<Longrightarrow>
   store_wf (run_ledger ops s) \<and> ledger_inv (run_ledger ops s) p"
  unfolding run_ledger_def
proof (induction ops arbitrary: s)
  case Nil
  then show ?case by simp
next
  case (Cons x ops)
  have "store_wf (apply_ledger_op s x) \<and> ledger_inv (apply_ledger_op s x) p"
  proof (cases x)
    case (RecordMovement now productId q unit t uid)
    with Cons.prems show ?thesis
      using recordMovement_inv[of s p now productId q unit t uid]
      by (simp add: recordMovement_wf)
  next
    case (DeleteMovement now ident)
    with Cons.prems show ?thesis
      using deleteMovement_inv[of s p now ident]
      by (simp add: deleteMovement_wf)
  qed
  moreover from Cons.prems have "run_exact (apply_ledger_op s x) p ops" by simp
  ultimately show ?case using Cons.IH by simp
qed

lemma js_add_of_int:
  assumes "\<bar>a + b\<bar> \<le> 2 ^ 53"
  shows "js_add (Finite (of_int a)) (Finite (of_int b)) = Finite (of_int (a + b))"
proof -
  have "js_add (Finite (of_int a)) (Finite (of_int b)) = round_double (of_int (a + b))"
    by simp
  then show ?thesis by (simp only: round_double_of_int[OF assms])
qed

lemma js_sub_of_int:
  assumes "\<bar>a - b\<bar> \<le> 2 ^ 53"
  shows "js_sub (Finite (of_int a)) (Finite (of_int b)) = Finite (of_int (a - b))"
proof -
  have "js_sub (Finite (of_int a)) (Finite (of_int b)) = round_double (of_int (a - b))"
    by (simp add: js_sub_def)
  then show ?thesis by (simp only: round_double_of_int[OF assms])
qed

lemma exact_add_of_int:
  assumes "\<bar>a + b\<bar> \<le> 2 ^ 53"
  shows "exact_add (Finite (of_int a)) (Finite (of_int b))"
  unfolding exact_add_def using js_add_of_int[OF assms] by simp

lemma exact_sub_of_int:
  assumes "\<bar>a - b\<bar> \<le> 2 ^ 53"
  shows "exact_sub (Finite (of_int a)) (Finite (of_int b))"
  unfolding exact_sub_def using js_sub_of_int[OF assms] by simp

lemma run_exact_take: "run_exact s p ops \<Longrightarrow> run_exact s p (take n ops)"
proof (induction ops arbitrary: s n)
  case Nil
  then show ?case by simp
next
  case (Cons x ops)
  then show ?case by (cases n) simp_all
qed

lemma parseInt_1: "parseInt env (JNum (Finite 1)) = Finite 1"
  by (simp add: parseInt_def)

lemma parseFloat_JNum: "parseFloat (JNum n) = n"
  by (simp add: parseFloat_def)

lemma int4_1: "int4 (Finite 1) = Some 1"
  by (simp add: int4_def)

lemma mem_init_wf: "store_wf mem_init"
  by (simp add: store_wf_def mem_init_def mem_empty_def mem_createUser_def Let_def)

lemma mem_init_fresh: "fresh_product mem_init 1"
  by (simp add: fresh_product_def getInventoryItem_def movements_of_def mem_init_def
      mem_empty_def mem_createUser_def Let_def)

lemma round_double_tie_numeral: "round_double 9007199254740993 = Finite 9007199254740992"
  using round_double_tie by simp

section \<open>Deleting a movement\<close>

lemma db_first_filter: "db_first (filter P xs) = find P xs"
  by (induction xs) (auto simp: db_first_def)

lemma db_getInventoryItem_eq: "db_getInventoryItem s p = getInventoryItem s p"
  by (simp add: db_getInventoryItem_def getInventoryItem_def db_first_filter)

lemma map_update_eq_set:
  "distinct (map key xs) \<Longrightarrow> e \<in> set xs \<Longrightarrow> key (f e) = key e \<Longrightarrow>
   map (\<lambda>row. if key row = key e then f row else row) xs = js_map_set key (f e) xs"
proof (induction xs)
  case Nil
  then show ?case by simp
next
  case (Cons x xs)
  show ?case
  proof (cases "x = e")
    case True
    with Cons.prems have "\<forall>y\<in>set xs. key y \<noteq> key e" by (auto simp: image_iff)
    then have "map (\<lambda>row. if key row = key e then f row else row) xs = xs"
      by (simp add: map_idI)
    with True Cons.prems show ?thesis by simp
  next
    case False
    with Cons.prems have "e \<in> set xs" "key x \<noteq> key e" by (auto simp: image_iff)
    with Cons show ?thesis by simp
  qed
qed

lemma mem_delete_present:
  assumes "js_map_get m_id ident (inventoryMovements s) = Some m"
  shows "fst (mem_deleteInventoryMovement now ident s) = True"
proof -
  from assms have "list_ex (\<lambda>x. m_id x = ident) (inventoryMovements s)"
    by (auto simp: js_map_get_def find_Some_iff list_ex_iff)
  with assms show ?thesis
    by (simp add: mem_deleteInventoryMovement_def Let_def js_map_delete_def split: option.splits)
qed

lemma js_map_set_map_other:
  "e \<in> set xs \<Longrightarrow> key v = key e \<Longrightarrow> distinct (map key xs) \<Longrightarrow> g v = g e \<Longrightarrow>
   map g (js_map_set key v xs) = map g xs"
proof (induction xs)
  case Nil
  then show ?case by simp
next
  case (Cons x xs)
  show ?case
  proof (cases "key x = key v")
    case True
    with Cons.prems have "x = e" by (auto simp: image_iff)
    with True Cons.prems show ?thesis by simp
  next
    case False
    with Cons show ?thesis by auto
  qed
qed

lemma mem_delete_units:
  assumes "distinct (map i_id (inventory s))"
  shows "map i_unit (inventory (snd (mem_deleteInventoryMovement now ident s))) =
         map i_unit (inventory s)"
proof (cases "js_map_get m_id ident (inventoryMovements s)")
  case None
  then show ?thesis by (simp add: mem_delete_absent)
next
  case (Some m)
  show ?thesis
  proof (cases "getInventoryItem s (m_product_id m)")
    case None
    with Some show ?thesis
      by (simp add: mem_deleteInventoryMovement_def Let_def)
  next
    case (Some e)
    then have e: "e \<in> set (inventory s)"
      using find_mem[of "\<lambda>x. i_product_id x = m_product_id m" "inventory s" e]
      by (simp add: getInventoryItem_def)
    from Some \<open>js_map_get m_id ident (inventoryMovements s) = Some m\<close>
    show ?thesis
      by (simp add: mem_deleteInventoryMovement_def Let_def js_map_set_map_other[OF e _ assms])
  qed
qed

lemma balance_update_get:
  assumes d: "distinct (map i_id xs)" and f: "find (\<lambda>x. i_product_id x = p) xs = Some e"
  shows "find (\<lambda>x. i_product_id x = q)
           (map (\<lambda>row. if i_id row = i_id e
                   then row\<lparr>i_quantity := a, i_total_price := b, i_last_updated := now\<rparr>
                   else row) xs) =
         (case find (\<lambda>x. i_product_id x = q) xs of
            None \<Rightarrow> None
          | Some x \<Rightarrow>
              if q = p then Some (e\<lparr>i_quantity := a, i_total_price := b, i_last_updated := now\<rparr>)
              else Some x)"
proof -
  from f have e: "e \<in> set xs" "i_product_id e = p"
    using find_mem[of "\<lambda>x. i_product_id x = p" xs e] by simp_all
  have m: "map (\<lambda>row. if i_id row = i_id e
                   then row\<lparr>i_quantity := a, i_total_price := b, i_last_updated := now\<rparr>
                   else row) xs =
           js_map_set i_id (e\<lparr>i_quantity := a, i_total_price := b, i_last_updated := now\<rparr>) xs"
    using map_update_eq_set[OF d e(1),
        of "\<lambda>row. row\<lparr>i_quantity := a, i_total_price := b, i_last_updated := now\<rparr>"]
    by simp
  show ?thesis
  proof (cases "q = p")
    case True
    with f e d show ?thesis by (simp add: m find_set_same)
  next
    case False
    with e d show ?thesis by (simp add: m find_set_other split: option.splits)
  qed
qed

lemma balance_update_units:
  "map i_unit (map (\<lambda>row. if i_id row = k
                   then row\<lparr>i_quantity := a, i_total_price := b, i_last_updated := now\<rparr>
                   else row) xs) = map i_unit xs"
  by (induction xs) auto

lemma db_delete_outcome:
  assumes d: "distinct (map i_id (inventory s))"
      and g: "js_map_get m_id ident (inventoryMovements s) = Some m"
  shows "map i_unit (inventory (snd (db_deleteInventoryMovement col fail_at now ident s))) =
           map i_unit (inventory s)"
    and "fst (db_deleteInventoryMovement col fail_at now ident s) \<longleftrightarrow>
           fail_at \<noteq> Some 0 \<and> fail_at \<noteq> Some 1 \<and> fail_at \<noteq> Some 2 \<and>
           (case getInventoryItem s (m_product_id m) of
              None \<Rightarrow> True
            | Some e \<Rightarrow>
                fail_at \<noteq> Some 3 \<and>
                col (js_sub (i_quantity e) (m_quantity_change m)) \<noteq> None \<and>
                col (js_sub (i_total_price e) (m_total_price m)) \<noteq> None)"
    and "inventoryMovements (snd (db_deleteInventoryMovement col fail_at now ident s)) =
           (if fst (db_deleteInventoryMovement col fail_at now ident s)
            then filter (\<lambda>x. m_id x \<noteq> ident) (inventoryMovements s)
            else inventoryMovements s)"
    and "getInventoryItem (snd (db_deleteInventoryMovement col fail_at now ident s)) q =
           (case getInventoryItem s q of
              None \<Rightarrow> None
            | Some e \<Rightarrow>
                if q = m_product_id m \<and>
                   (fst (db_deleteInventoryMovement col fail_at now ident s) \<or> fail_at = Some 3)
                then
                  (case (col (js_sub (i_quantity e) (m_quantity_change m)),
                         col (js_sub (i_total_price e) (m_total_price m))) of
                     (Some a, Some b) \<Rightarrow>
                       Some (e\<lparr>i_quantity := a, i_total_price := b, i_last_updated := now\<rparr>)
                   | _ \<Rightarrow> Some e)
                else Some e)"
proof -
  from g have f: "db_first (filter (\<lambda>row. m_id row = ident) (inventoryMovements s)) = Some m"
    by (simp add: db_first_filter js_map_get_def)
  let ?r = "db_deleteInventoryMovement col fail_at now ident s"
  have "map i_unit (inventory (snd ?r)) = map i_unit (inventory s) \<and>
        (fst ?r \<longleftrightarrow>
           fail_at \<noteq> Some 0 \<and> fail_at \<noteq> Some 1 \<and> fail_at \<noteq> Some 2 \<and>
           (case getInventoryItem s (m_product_id m) of
              None \<Rightarrow> True
            | Some e \<Rightarrow>
                fail_at \<noteq> Some 3 \<and>
                col (js_sub (i_quantity e) (m_quantity_change m)) \<noteq> None \<and>
                col (js_sub (i_total_price e) (m_total_price m)) \<noteq> None)) \<and>
        inventoryMovements (snd ?r) =
           (if fst ?r then filter (\<lambda>x. m_id x \<noteq> ident) (inventoryMovements s)
            else inventoryMovements s) \<and>
        getInventoryItem (snd ?r) q =
           (case getInventoryItem s q of
              None \<Rightarrow> None
            | Some e \<Rightarrow>
                if q = m_product_id m \<and> (fst ?r \<or> fail_at = Some 3)
                then
                  (case (col (js_sub (i_quantity e) (m_quantity_change m)),
                         col (js_sub (i_total_price e) (m_total_price m))) of
                     (Some a, Some b) \<Rightarrow>
                       Some (e\<lparr>i_quantity := a, i_total_price := b, i_last_updated := now\<rparr>)
                   | _ \<Rightarrow> Some e)
                else Some e)"
  proof (cases "getInventoryItem s (m_product_id m)")
    case None
    then have n: "db_first (filter (\<lambda>row. i_product_id row = m_product_id m) (inventory s)) = None"
      by (simp add: db_first_filter getInventoryItem_def)
    from None show ?thesis
      by (auto simp: db_deleteInventoryMovement_def f n Let_def getInventoryItem_def
          split: option.splits)
  next
    case (Some e)
    then have fe: "find (\<lambda>x. i_product_id x = m_product_id m) (inventory s) = Some e"
      by (simp add: getInventoryItem_def)
    then have n: "db_first (filter (\<lambda>row. i_product_id row = m_product_id m) (inventory s)) = Some e"
      by (simp add: db_first_filter)
    note bg = balance_update_get[OF d fe]
    show ?thesis
    proof (cases "col (js_sub (i_quantity e) (m_quantity_change m))")
      case None
      with Some show ?thesis
        by (auto simp: db_deleteInventoryMovement_def f n Let_def getInventoryItem_def
            split: option.splits)
    next
      case a: (Some a)
      show ?thesis
      proof (cases "col (js_sub (i_total_price e) (m_total_price m))")
        case None
        with Some a show ?thesis
          by (auto simp: db_deleteInventoryMovement_def f n Let_def getInventoryItem_def
              split: option.splits)
      next
        case b: (Some b)
        from Some a b fe show ?thesis
          by (auto simp: db_deleteInventoryMovement_def f n Let_def getInventoryItem_def bg
              balance_update_units split: option.splits)
      qed
    qed
  qed
  then show "map i_unit (inventory (snd ?r)) = map i_unit (inventory s)"
    and "fst ?r \<longleftrightarrow>
           fail_at \<noteq> Some 0 \<and> fail_at \<noteq> Some 1 \<and> fail_at \<noteq> Some 2 \<and>
           (case getInventoryItem s (m_product_id m) of
              None \<Rightarrow> True
            | Some e \<Rightarrow>
                fail_at \<noteq> Some 3 \<and>
                col (js_sub (i_quantity e) (m_quantity_change m)) \<noteq> None \<and>
                col (js_sub (i_total_price e) (m_total_price m)) \<noteq> None)"
    and "inventoryMovements (snd ?r) =
           (if fst ?r then filter (\<lambda>x. m_id x \<noteq> ident) (inventoryMovements s)
            else inventoryMovements s)"
    and "getInventoryItem (snd ?r) q =
           (case getInventoryItem s q of
              None \<Rightarrow> None
            | Some e \<Rightarrow>
                if q = m_product_id m \<and> (fst ?r \<or> fail_at = Some 3)
                then
                  (case (col (js_sub (i_quantity e) (m_quantity_change m)),
                         col (js_sub (i_total_price e) (m_total_price m))) of
                     (Some a, Some b) \<Rightarrow>
                       Some (e\<lparr>i_quantity := a, i_total_price := b, i_last_updated := now\<rparr>)
                   | _ \<Rightarrow> Some e)
                else Some e)"
    by blast+
qed

text \<open>
  Claim C3, as amended. Take a movement that exists, in a store whose balance ids are
  unique (they are map keys, respectively a primary key). No delete changes the \<open>unit\<close> of a
  balance row. \<^verbatim>\<open>MemStorage\<close> answers \<open>True\<close>, removes the movement, and in the balance row of
  the movement's product, when there is one, replaces the quantity and the total value by
  the rounded differences with the movement's \<open>quantity_change\<close> and \<open>total_price\<close>,
  setting only the update time besides; every other balance row is what it was.
  \<^verbatim>\<open>DatabaseStorage\<close> answers \<open>True\<close> exactly when none of its statements fails: \<open>fail_at\<close> is
  none of 0, 1, 2, and when the product has a balance row it is not 3 and the database
  accepts both differences. The movement is removed exactly when the answer is \<open>True\<close>.
  The balance row of the product holds the differences, as the database converts them,
  when the answer is \<open>True\<close> and also when only the final delete (statement 3) failed: then
  the answer is \<open>False\<close>, the balance is reduced and the movement is still stored. In every
  other case the balance rows are what they were.
\<close>

theorem deleteMovement_outcomes:
  assumes "distinct (map i_id (inventory s))"
      and "js_map_get m_id ident (inventoryMovements s) = Some m"
  shows "(\<exists>s'. mem_deleteInventoryMovement now ident s = (True, s') \<and>
           inventoryMovements s' = filter (\<lambda>x. m_id x \<noteq> ident) (inventoryMovements s) \<and>
           (\<forall>q. getInventoryItem s' q =
              (case getInventoryItem s q of
                 None \<Rightarrow> None
               | Some e \<Rightarrow>
                   if q = m_product_id m then
                     Some (e\<lparr>i_quantity := js_sub (i_quantity e) (m_quantity_change m),
                             i_total_price := js_sub (i_total_price e) (m_total_price m),
                             i_last_updated := now\<rparr>)
                   else Some e)) \<and>
           map i_unit (inventory s') = map i_unit (inventory s)) \<and>
         (\<exists>ok s'. db_deleteInventoryMovement col fail_at now ident s = (ok, s') \<and>
           (ok \<longleftrightarrow>
              fail_at \<noteq> Some 0 \<and> fail_at \<noteq> Some 1 \<and> fail_at \<noteq> Some 2 \<and>
              (case getInventoryItem s (m_product_id m) of
                 None \<Rightarrow> True
               | Some e \<Rightarrow>
                   fail_at \<noteq> Some 3 \<and>
                   col (js_sub (i_quantity e) (m_quantity_change m)) \<noteq> None \<and>
                   col (js_sub (i_total_price e) (m_total_price m)) \<noteq> None)) \<and>
           inventoryMovements s' =
             (if ok then filter (\<lambda>x. m_id x \<noteq> ident) (inventoryMovements s)
              else inventoryMovements s) \<and>
           (\<forall>q. getInventoryItem s' q =
              (case getInventoryItem s q of
                 None \<Rightarrow> None
               | Some e \<Rightarrow>
                   if q = m_product_id m \<and> (ok \<or> fail_at = Some 3) then
                     (case (col (js_sub (i_quantity e) (m_quantity_change m)),
                            col (js_sub (i_total_price e) (m_total_price m))) of
                        (Some a, Some b) \<Rightarrow>
                          Some (e\<lparr>i_quantity := a, i_total_price := b, i_last_updated := now\<rparr>)
                      | _ \<Rightarrow> Some e)
                   else Some e)) \<and>
           map i_unit (inventory s') = map i_unit (inventory s))"
proof (intro conjI)
  let ?r = "mem_deleteInventoryMovement now ident s"
  have "?r = (True, snd ?r)"
    using mem_delete_present[OF assms(2), of now] by (cases ?r) simp
  then show "\<exists>s'. ?r = (True, s') \<and>
           inventoryMovements s' = filter (\<lambda>x. m_id x \<noteq> ident) (inventoryMovements s) \<and>
           (\<forall>q. getInventoryItem s' q =
              (case getInventoryItem s q of
                 None \<Rightarrow> None
               | Some e \<Rightarrow>
                   if q = m_product_id m then
                     Some (e\<lparr>i_quantity := js_sub (i_quantity e) (m_quantity_change m),
                             i_total_price := js_sub (i_total_price e) (m_total_price m),
                             i_last_updated := now\<rparr>)
                   else Some e)) \<and>
           map i_unit (inventory s') = map i_unit (inventory s)"
    using deleteMovement_movements[OF assms(2), of now] mem_delete_get[OF assms, of now]
      mem_delete_units[OF assms(1), of now ident]
    by (intro exI[of _ "snd ?r"]) auto
next
  let ?d = "db_deleteInventoryMovement col fail_at now ident s"
  note o = db_delete_outcome[OF assms, of col fail_at now]
  show "\<exists>ok s'. ?d = (ok, s') \<and>
           (ok \<longleftrightarrow>
              fail_at \<noteq> Some 0 \<and> fail_at \<noteq> Some 1 \<and> fail_at \<noteq> Some 2 \<and>
              (case getInventoryItem s (m_product_id m) of
                 None \<Rightarrow> True
               | Some e \<Rightarrow>
                   fail_at \<noteq> Some 3 \<and>
                   col (js_sub (i_quantity e) (m_quantity_change m)) \<noteq> None \<and>
                   col (js_sub (i_total_price e) (m_total_price m)) \<noteq> None)) \<and>
           inventoryMovements s' =
             (if ok then filter (\<lambda>x. m_id x \<noteq> ident) (inventoryMovements s)
              else inventoryMovements s) \<and>
           (\<forall>q. getInventoryItem s' q =
              (case getInventoryItem s q of
                 None \<Rightarrow> None
               | Some e \<Rightarrow>
                   if q = m_product_id m \<and> (ok \<or> fail_at = Some 3) then
                     (case (col (js_sub (i_quantity e) (m_quantity_change m)),
                            col (js_sub (i_total_price e) (m_total_price m))) of
                        (Some a, Some b) \<Rightarrow>
                          Some (e\<lparr>i_quantity := a, i_total_price := b, i_last_updated := now\<rparr>)
                      | _ \<Rightarrow> Some e)
                   else Some e)) \<and>
           map i_unit (inventory s') = map i_unit (inventory s)"
    apply (intro exI[of _ "fst ?d"] exI[of _ "snd ?d"] conjI allI)
        apply simp
       apply (rule o(2))
      apply (rule o(3))
     apply (rule o(4))
    apply (rule o(1))
    done
qed

lemma example_store_distinct: "distinct (map i_id (inventory example_store))"
  by (simp add: example_store_def)

lemma example_store_movement_2:
  "js_map_get m_id 2 (inventoryMovements example_store) =
     Some \<lparr>m_id = 2, m_product_id = 1, m_quantity_change = Finite 5, m_unit = ''kg'',
           m_total_price = Finite 40, m_movement_type = ''update'', m_movement_date = 2000,
           m_user_id = Some 1\<rparr>"
  by (simp add: example_store_def js_map_get_def)

lemma example_store_item_1:
  "getInventoryItem example_store 1 =
     Some \<lparr>i_id = 1, i_product_id = 1, i_quantity = Finite 15, i_unit = ''kg'',
           i_total_price = Finite 140, i_last_updated = 2000, i_updated_by = Some 1\<rparr>"
  by (simp add: example_store_def getInventoryItem_def)

theorem deleteMovement_outcomes_witness:
  "distinct (map i_id (inventory example_store)) \<and>
   js_map_get m_id 2 (inventoryMovements example_store) =
     Some \<lparr>m_id = 2, m_product_id = 1, m_quantity_change = Finite 5, m_unit = ''kg'',
           m_total_price = Finite 40, m_movement_type = ''update'', m_movement_date = 2000,
           m_user_id = Some 1\<rparr> \<and>
   (\<exists>s'. mem_deleteInventoryMovement 3000 2 example_store = (True, s') \<and>
         map m_id (inventoryMovements s') = [1] \<and>
         getInventoryItem s' 1 =
           Some \<lparr>i_id = 1, i_product_id = 1, i_quantity = Finite 10, i_unit = ''kg'',
                 i_total_price = Finite 100, i_last_updated = 3000, i_updated_by = Some 1\<rparr>) \<and>
   (\<exists>s'. db_deleteInventoryMovement real4 None 3000 2 example_store = (True, s') \<and>
         map m_id (inventoryMovements s') = [1] \<and>
         getInventoryItem s' 1 =
           Some \<lparr>i_id = 1, i_product_id = 1, i_quantity = Finite 10, i_unit = ''kg'',
                 i_total_price = Finite 100, i_last_updated = 3000, i_updated_by = Some 1\<rparr>) \<and>
   (\<exists>s'. db_deleteInventoryMovement real4 (Some 1) 3000 2 example_store = (False, s') \<and>
         map m_id (inventoryMovements s') = [1, 2] \<and>
         getInventoryItem s' 1 =
           Some \<lparr>i_id = 1, i_product_id = 1, i_quantity = Finite 15, i_unit = ''kg'',
                 i_total_price = Finite 140, i_last_updated = 2000, i_updated_by = Some 1\<rparr>)"
proof -
  note d = example_store_distinct
  note g = example_store_movement_2
  note i = example_store_item_1
  have f: "map m_id (filter (\<lambda>x. m_id x \<noteq> 2) (inventoryMovements example_store)) = [1]"
       "map m_id (inventoryMovements example_store) = [1, 2]"
    by (simp_all add: example_store_def)
  have n: "js_sub (Finite 15) (Finite 5) = Finite 10" "js_sub (Finite 140) (Finite 40) = Finite 100"
    by (simp_all add: js_sub_def round_double_numeral)
  have r: "real4 (Finite 10) = Some (Finite 10)" "real4 (Finite 100) = Some (Finite 100)"
    by (simp_all add: real4_numeral)
  from deleteMovement_outcomes[OF d g, of 3000 real4 None]
  have a: "\<exists>s'. mem_deleteInventoryMovement 3000 2 example_store = (True, s') \<and>
         map m_id (inventoryMovements s') = [1] \<and>
         getInventoryItem s' 1 =
           Some \<lparr>i_id = 1, i_product_id = 1, i_quantity = Finite 10, i_unit = ''kg'',
                 i_total_price = Finite 100, i_last_updated = 3000, i_updated_by = Some 1\<rparr>"
    by (auto simp: i n f)
  from deleteMovement_outcomes[OF d g, of 3000 real4 None]
  have b: "\<exists>s'. db_deleteInventoryMovement real4 None 3000 2 example_store = (True, s') \<and>
         map m_id (inventoryMovements s') = [1] \<and>
         getInventoryItem s' 1 =
           Some \<lparr>i_id = 1, i_product_id = 1, i_quantity = Finite 10, i_unit = ''kg'',
                 i_total_price = Finite 100, i_last_updated = 3000, i_updated_by = Some 1\<rparr>"
    by (auto simp: i n r f)
  from deleteMovement_outcomes[OF d g, of 3000 real4 "Some 1"]
  have c: "\<exists>s'. db_deleteInventoryMovement real4 (Some 1) 3000 2 example_store = (False, s') \<and>
         map m_id (inventoryMovements s') = [1, 2] \<and>
         getInventoryItem s' 1 =
           Some \<lparr>i_id = 1, i_product_id = 1, i_quantity = Finite 15, i_unit = ''kg'',
                 i_total_price = Finite 140, i_last_updated = 2000, i_updated_by = Some 1\<rparr>"
    by (auto simp: i n r f)
  from a b c d g show ?thesis by blast
qed

text \<open>
  Claim C3 as stated fails on the \<^verbatim>\<open>DatabaseStorage\<close>: movement 2 (5 kg for 40.00) exists, and
  the final delete of its removal is aborted. The answer is \<open>False\<close>; the balance of
  product 1 has gone from 15 and 140.00 to 10 and 100.00, and movement 2 is still stored.
\<close>

theorem deleteMovement_partial_counterexample:
  "js_map_get m_id 2 (inventoryMovements example_store) =
     Some \<lparr>m_id = 2, m_product_id = 1, m_quantity_change = Finite 5, m_unit = ''kg'',
           m_total_price = Finite 40, m_movement_type = ''update'', m_movement_date = 2000,
           m_user_id = Some 1\<rparr> \<and>
   db_deleteInventoryMovement (column example_env) (Some 3) 3000 2 example_store =
     (False, example_reduced) \<and>
   map m_id (inventoryMovements example_reduced) = [1, 2] \<and>
   getInventoryItem example_store 1 =
     Some \<lparr>i_id = 1, i_product_id = 1, i_quantity = Finite 15, i_unit = ''kg'',
           i_total_price = Finite 140, i_last_updated = 2000, i_updated_by = Some 1\<rparr> \<and>
   getInventoryItem example_reduced 1 =
     Some \<lparr>i_id = 1, i_product_id = 1, i_quantity = Finite 10, i_unit = ''kg'',
           i_total_price = Finite 100, i_last_updated = 3000, i_updated_by = Some 1\<rparr>"
proof -
  have n: "js_sub (Finite 15) (Finite 5) = Finite 10" "js_sub (Finite 140) (Finite 40) = Finite 100"
    by (simp_all add: js_sub_def round_double_numeral)
  have "db_deleteInventoryMovement (column example_env) (Some 3) 3000 2 example_store =
     (False, example_reduced)"
    by (simp add: db_deleteInventoryMovement_def db_first_def example_env_def n real4_numeral
        example_reduced_def example_store_def Let_def)
  moreover have "map m_id (inventoryMovements example_reduced) = [1, 2]"
    by (simp add: example_reduced_def example_store_def)
  moreover have "getInventoryItem example_reduced 1 =
     Some \<lparr>i_id = 1, i_product_id = 1, i_quantity = Finite 10, i_unit = ''kg'',
           i_total_price = Finite 100, i_last_updated = 3000, i_updated_by = Some 1\<rparr>"
    by (simp add: getInventoryItem_def example_reduced_def example_store_def)
  ultimately show ?thesis
    using example_store_movement_2 example_store_item_1 by simp
qed

lemma db_delete_absent:
  "js_map_get m_id ident (inventoryMovements s) = None \<Longrightarrow>
   db_deleteInventoryMovement col fail_at now ident s = (False, s)"
  by (simp add: db_deleteInventoryMovement_def db_first_filter js_map_get_def)

lemma find_filter_neg: "find P (filter (\<lambda>x. \<not> P x) xs) = None"
  by (induction xs) auto

lemma db_delete_true_movements:
  "fst (db_deleteInventoryMovement col fail_at now ident s) \<Longrightarrow>
   inventoryMovements (snd (db_deleteInventoryMovement col fail_at now ident s)) =
     filter (\<lambda>row. m_id row \<noteq> ident) (inventoryMovements s)"
  by (auto simp: db_deleteInventoryMovement_def Let_def split: if_splits option.splits)

lemma mem_delete_true_movements:
  "fst (mem_deleteInventoryMovement now ident s) \<Longrightarrow>
   inventoryMovements (snd (mem_deleteInventoryMovement now ident s)) =
     filter (\<lambda>row. m_id row \<noteq> ident) (inventoryMovements s)"
  by (auto simp: mem_deleteInventoryMovement_def Let_def js_map_delete_def split: option.splits)

text \<open>
  Claim C4. Deleting a movement id that is not stored answers \<open>False\<close> (a result, not an
  error) and leaves the whole store as it was, in both storage classes, whatever the
  database rejects and however it converts numbers. After a delete that answered \<open>True\<close>,
  a second delete of the same id answers \<open>False\<close> and changes nothing.
\<close>

theorem deleteMovement_not_found:
  "(js_map_get m_id ident (inventoryMovements s) = None \<longrightarrow>
      mem_deleteInventoryMovement now ident s = (False, s) \<and>
      db_deleteInventoryMovement col fail_at now ident s = (False, s)) \<and>
   (fst (mem_deleteInventoryMovement now ident s) \<longrightarrow>
      mem_deleteInventoryMovement now' ident (snd (mem_deleteInventoryMovement now ident s)) =
        (False, snd (mem_deleteInventoryMovement now ident s))) \<and>
   (fst (db_deleteInventoryMovement col fail_at now ident s) \<longrightarrow>
      db_deleteInventoryMovement col' fail_at' now' ident
          (snd (db_deleteInventoryMovement col fail_at now ident s)) =
        (False, snd (db_deleteInventoryMovement col fail_at now ident s)))"
proof (intro conjI impI)
  assume "js_map_get m_id ident (inventoryMovements s) = None"
  then show "mem_deleteInventoryMovement now ident s = (False, s)"
    and "db_deleteInventoryMovement col fail_at now ident s = (False, s)"
    by (simp_all add: mem_delete_absent db_delete_absent)
next
  assume "fst (mem_deleteInventoryMovement now ident s)"
  then have "js_map_get m_id ident
      (inventoryMovements (snd (mem_deleteInventoryMovement now ident s))) = None"
    by (simp add: mem_delete_true_movements js_map_get_def
        find_filter_neg[of "\<lambda>x. m_id x = ident", simplified])
  then show "mem_deleteInventoryMovement now' ident (snd (mem_deleteInventoryMovement now ident s)) =
        (False, snd (mem_deleteInventoryMovement now ident s))"
    by (rule mem_delete_absent)
next
  assume "fst (db_deleteInventoryMovement col fail_at now ident s)"
  then have "js_map_get m_id ident
      (inventoryMovements (snd (db_deleteInventoryMovement col fail_at now ident s))) = None"
    by (simp add: db_delete_true_movements js_map_get_def
        find_filter_neg[of "\<lambda>x. m_id x = ident", simplified])
  then show "db_deleteInventoryMovement col' fail_at' now' ident
          (snd (db_deleteInventoryMovement col fail_at now ident s)) =
        (False, snd (db_deleteInventoryMovement col fail_at now ident s))"
    by (rule db_delete_absent)
qed

theorem deleteMovement_not_found_witness:
  "js_map_get m_id 7 (inventoryMovements example_store) = None \<and>
   mem_deleteInventoryMovement 3000 7 example_store = (False, example_store) \<and>
   db_deleteInventoryMovement real4 None 3000 7 example_store = (False, example_store) \<and>
   fst (mem_deleteInventoryMovement 3000 2 example_store) \<and>
   mem_deleteInventoryMovement 4000 2 (snd (mem_deleteInventoryMovement 3000 2 example_store)) =
     (False, snd (mem_deleteInventoryMovement 3000 2 example_store)) \<and>
   fst (db_deleteInventoryMovement real4 None 3000 2 example_store) \<and>
   db_deleteInventoryMovement real4 None 4000 2
       (snd (db_deleteInventoryMovement real4 None 3000 2 example_store)) =
     (False, snd (db_deleteInventoryMovement real4 None 3000 2 example_store))"
proof -
  have a: "js_map_get m_id 7 (inventoryMovements example_store) = None"
    by (simp add: example_store_def js_map_get_def)
  have b: "fst (mem_deleteInventoryMovement 3000 2 example_store)"
    by (simp add: example_store_def mem_deleteInventoryMovement_def js_map_get_def
        getInventoryItem_def js_map_delete_def Let_def)
  have n: "js_sub (Finite 15) (Finite 5) = Finite 10" "js_sub (Finite 140) (Finite 40) = Finite 100"
    by (simp_all add: js_sub_def round_double_numeral)
  have c: "fst (db_deleteInventoryMovement real4 None 3000 2 example_store)"
    by (simp add: example_store_def db_deleteInventoryMovement_def db_first_def Let_def n
        real4_numeral)
  from a b c
    deleteMovement_not_found[of 7 example_store 3000 real4 None 4000 real4 None]
    deleteMovement_not_found[of 2 example_store 3000 real4 None 4000 real4 None]
  show ?thesis by simp
qed

section \<open>The inventory report\<close>

lemma or_num_zero: "or_num x (Finite 0) = (if x = NaN then Finite 0 else x)"
  by (cases x) (simp_all add: or_num_def)

lemma or_str_empty: "or_str x [] = x"
  by (simp add: or_str_def)

lemma getInventoryReport_loop_map:
  "getInventoryReport_loop s start end ps result =
     result @ map (\<lambda>product.
       \<lparr>r_id = p_id product, r_name = p_name product, r_category = p_category product,
        r_current_quantity =
          (case getInventoryItem s (p_id product) of None \<Rightarrow> Finite 0
           | Some item \<Rightarrow> if i_quantity item = NaN then Finite 0 else i_quantity item),
        r_unit = (case getInventoryItem s (p_id product) of None \<Rightarrow> [] | Some item \<Rightarrow> i_unit item),
        r_total_value =
          (case getInventoryItem s (p_id product) of None \<Rightarrow> Finite 0
           | Some item \<Rightarrow> if i_total_price item = NaN then Finite 0 else i_total_price item),
        r_movement_count = length (filter (\<lambda>m. m_product_id m = p_id product \<and>
                                     start \<le> m_movement_date m \<and> m_movement_date m \<le> end)
                          (inventoryMovements s))\<rparr>) ps"
proof (induction ps arbitrary: result)
  case Nil
  then show ?case by simp
next
  case (Cons p ps)
  show ?case
    by (simp add: Let_def Cons.IH or_num_zero or_str_empty cong: option.case_cong)
qed

lemma db_getInventoryReport_loop_eq:
  "db_getInventoryReport_loop s start end ps result =
     getInventoryReport_loop s start end ps result"
  by (induction ps arbitrary: result) (simp_all add: db_getInventoryItem_eq Let_def)

lemma find_first:
  "\<forall>x\<in>set pre. \<not> P x \<Longrightarrow> P item \<Longrightarrow> find P (pre @ item # post) = Some item"
  by (induction pre) auto

lemma find_none: "\<forall>x\<in>set xs. \<not> P x \<Longrightarrow> find P xs = None"
  by (induction xs) auto

text \<open>
  Claim C5, as amended. The two storage classes give the same inventory report. It has
  exactly one row per stored product, in the order of the products, whether or not the
  product has a movement in the window. The
  row of the \<open>k\<close>-th product carries the product's columns and, as movement count, the
  number of its movements dated from \<open>start\<close> to \<open>end\<close>, both included. When no balance
  row is the product's, the quantity is 0, the unit the empty string and the total value
  0. Otherwise, with \<open>item\<close> the product's (first) balance row, the unit is that of
  \<open>item\<close>, and the quantity and the total value are those of \<open>item\<close>, whatever the
  window, except that a figure that is NaN is reported as 0.
\<close>

theorem getInventoryReport_rows:
  "db_getInventoryReport s start end = getInventoryReport s start end \<and>
   length (getInventoryReport s start end) = length (products s) \<and>
   (\<forall>k < length (products s).
      r_id (getInventoryReport s start end ! k) = p_id (products s ! k) \<and>
      r_name (getInventoryReport s start end ! k) = p_name (products s ! k) \<and>
      r_category (getInventoryReport s start end ! k) = p_category (products s ! k) \<and>
      r_movement_count (getInventoryReport s start end ! k) =
        length (filter (\<lambda>m. m_product_id m = p_id (products s ! k) \<and>
                              start \<le> m_movement_date m \<and> m_movement_date m \<le> end)
                  (inventoryMovements s)) \<and>
      ((\<forall>i\<in>set (inventory s). i_product_id i \<noteq> p_id (products s ! k)) \<longrightarrow>
         r_current_quantity (getInventoryReport s start end ! k) = Finite 0 \<and>
         r_unit (getInventoryReport s start end ! k) = [] \<and>
         r_total_value (getInventoryReport s start end ! k) = Finite 0) \<and>
      (\<forall>pre item post.
         inventory s = pre @ item # post \<and> i_product_id item = p_id (products s ! k) \<and>
         (\<forall>i\<in>set pre. i_product_id i \<noteq> p_id (products s ! k)) \<longrightarrow>
         r_current_quantity (getInventoryReport s start end ! k) =
           (if i_quantity item = NaN then Finite 0 else i_quantity item) \<and>
         r_unit (getInventoryReport s start end ! k) = i_unit item \<and>
         r_total_value (getInventoryReport s start end ! k) =
           (if i_total_price item = NaN then Finite 0 else i_total_price item)))"
proof (intro conjI allI impI)
  show "db_getInventoryReport s start end = getInventoryReport s start end"
    by (simp add: db_getInventoryReport_def getInventoryReport_def db_getInventoryReport_loop_eq)
next
  show "length (getInventoryReport s start end) = length (products s)"
    by (simp add: getInventoryReport_def getAllProducts_def getInventoryReport_loop_map)
next
  fix k
  assume k: "k < length (products s)"
  then show "r_id (getInventoryReport s start end ! k) = p_id (products s ! k)"
    and "r_name (getInventoryReport s start end ! k) = p_name (products s ! k)"
    and "r_category (getInventoryReport s start end ! k) = p_category (products s ! k)"
    and "r_movement_count (getInventoryReport s start end ! k) =
        length (filter (\<lambda>m. m_product_id m = p_id (products s ! k) \<and>
                              start \<le> m_movement_date m \<and> m_movement_date m \<le> end)
                  (inventoryMovements s))"
    by (simp_all add: getInventoryReport_def getAllProducts_def getInventoryReport_loop_map)
  {
    assume "\<forall>i\<in>set (inventory s). i_product_id i \<noteq> p_id (products s ! k)"
    then have "getInventoryItem s (p_id (products s ! k)) = None"
      unfolding getInventoryItem_def by (intro find_none) simp
    with k show "r_current_quantity (getInventoryReport s start end ! k) = Finite 0"
      and "r_unit (getInventoryReport s start end ! k) = []"
      and "r_total_value (getInventoryReport s start end ! k) = Finite 0"
      by (simp_all add: getInventoryReport_def getAllProducts_def getInventoryReport_loop_map)
  }
  fix pre item post
  assume a: "inventory s = pre @ item # post \<and> i_product_id item = p_id (products s ! k) \<and>
         (\<forall>i\<in>set pre. i_product_id i \<noteq> p_id (products s ! k))"
  then have "getInventoryItem s (p_id (products s ! k)) = Some item"
    unfolding getInventoryItem_def by (simp add: find_first)
  with k show "r_current_quantity (getInventoryReport s start end ! k) =
           (if i_quantity item = NaN then Finite 0 else i_quantity item)"
    and "r_unit (getInventoryReport s start end ! k) = i_unit item"
    and "r_total_value (getInventoryReport s start end ! k) =
           (if i_total_price item = NaN then Finite 0 else i_total_price item)"
    by (simp_all add: getInventoryReport_def getAllProducts_def getInventoryReport_loop_map)
qed

text \<open>The scenario of the specification: a window after both movements still reports
  the product, with count 0 and its current balance; and a product without a balance row
  is reported with the defaults.\<close>

theorem getInventoryReport_rows_witness:
  "db_getInventoryReport example_store 5000 6000 = getInventoryReport example_store 5000 6000 \<and>
   length (getInventoryReport example_store 5000 6000) = 1 \<and>
   r_id (getInventoryReport example_store 5000 6000 ! 0) = 1 \<and>
   r_movement_count (getInventoryReport example_store 5000 6000 ! 0) = 0 \<and>
   r_current_quantity (getInventoryReport example_store 5000 6000 ! 0) = Finite 15 \<and>
   r_unit (getInventoryReport example_store 5000 6000 ! 0) = ''kg'' \<and>
   r_total_value (getInventoryReport example_store 5000 6000 ! 0) = Finite 140 \<and>
   r_movement_count (getInventoryReport example_store 1000 2000 ! 0) = 2 \<and>
   r_current_quantity (getInventoryReport example_fresh 1000 2000 ! 0) = Finite 0 \<and>
   r_unit (getInventoryReport example_fresh 1000 2000 ! 0) = [] \<and>
   r_total_value (getInventoryReport example_fresh 1000 2000 ! 0) = Finite 0"
proof -
  have p: "products example_store = [\<lparr>p_id = 1, p_name = ''Un'', p_category = ''GENEL''\<rparr>]"
    "products example_fresh = [\<lparr>p_id = 1, p_name = ''Un'', p_category = ''GENEL''\<rparr>]"
    by (simp_all add: example_store_def example_fresh_def)
  have i: "inventory example_store =
     [] @ \<lparr>i_id = 1, i_product_id = 1, i_quantity = Finite 15, i_unit = ''kg'',
           i_total_price = Finite 140, i_last_updated = 2000, i_updated_by = Some 1\<rparr> # []"
    "inventory example_fresh = []"
    by (simp_all add: example_store_def example_fresh_def)
  have m: "inventoryMovements example_store =
        [\<lparr>m_id = 1, m_product_id = 1, m_quantity_change = Finite 10, m_unit = ''kg'',
          m_total_price = Finite 100, m_movement_type = ''update'', m_movement_date = 1000,
          m_user_id = Some 1\<rparr>,
         \<lparr>m_id = 2, m_product_id = 1, m_quantity_change = Finite 5, m_unit = ''kg'',
          m_total_price = Finite 40, m_movement_type = ''update'', m_movement_date = 2000,
          m_user_id = Some 1\<rparr>]"
    by (simp add: example_store_def)
  from getInventoryReport_rows[of example_store 5000 6000]
  have a1: "db_getInventoryReport example_store 5000 6000 =
             getInventoryReport example_store 5000 6000 \<and>
   length (getInventoryReport example_store 5000 6000) = 1 \<and>
   r_id (getInventoryReport example_store 5000 6000 ! 0) = 1 \<and>
   r_movement_count (getInventoryReport example_store 5000 6000 ! 0) = 0"
    unfolding p m by simp
  from getInventoryReport_rows[of example_store 5000 6000]
  have q: "\<forall>pre item post.
         inventory example_store = pre @ item # post \<and> i_product_id item = 1 \<and>
         (\<forall>i\<in>set pre. i_product_id i \<noteq> 1) \<longrightarrow>
         r_current_quantity (getInventoryReport example_store 5000 6000 ! 0) =
           (if i_quantity item = NaN then Finite 0 else i_quantity item) \<and>
         r_unit (getInventoryReport example_store 5000 6000 ! 0) = i_unit item \<and>
         r_total_value (getInventoryReport example_store 5000 6000 ! 0) =
           (if i_total_price item = NaN then Finite 0 else i_total_price item)"
    unfolding p by simp
  from q[rule_format, of "[]" "\<lparr>i_id = 1, i_product_id = 1, i_quantity = Finite 15, i_unit = ''kg'',
           i_total_price = Finite 140, i_last_updated = 2000, i_updated_by = Some 1\<rparr>" "[]"] i(1)
  have a2: "r_current_quantity (getInventoryReport example_store 5000 6000 ! 0) = Finite 15 \<and>
   r_unit (getInventoryReport example_store 5000 6000 ! 0) = ''kg'' \<and>
   r_total_value (getInventoryReport example_store 5000 6000 ! 0) = Finite 140"
    by simp
  note a = a1 a2
  from getInventoryReport_rows[of example_store 1000 2000]
  have b: "r_movement_count (getInventoryReport example_store 1000 2000 ! 0) = 2"
    unfolding p m by simp
  from getInventoryReport_rows[of example_fresh 1000 2000]
  have c: "r_current_quantity (getInventoryReport example_fresh 1000 2000 ! 0) = Finite 0 \<and>
   r_unit (getInventoryReport example_fresh 1000 2000 ! 0) = [] \<and>
   r_total_value (getInventoryReport example_fresh 1000 2000 ! 0) = Finite 0"
    unfolding p i(2) by simp
  from a b c show ?thesis by simp
qed

lemma parseFloat_x: "parseFloat (JStr ''x'') = NaN"
  by (simp add: parseFloat_def parseFloat_str_def read_sign_def read_exponent_def is_space_def
      is_digit_def digits_val_def Let_def)

text \<open>
  Claim C5 as stated fails for a balance figure that is NaN. The administrator posts a
  movement on product 1 whose \<open>quantity_change\<close> is the text \<open>x\<close>: it is truthy and
  parses to NaN, the request is answered 201 and the balance quantity of product 1 becomes
  NaN. The report then shows the quantity 0, which is not the balance figure.
\<close>

theorem getInventoryReport_nan_counterexample:
  "post_movement_handler example_env None 3000 (Some 1) (JNum (Finite 1)) (JStr ''x'')
     (JStr ''kg'') (JNum (Finite 0)) example_store = (201, example_nan) \<and>
   map i_quantity (inventory example_nan) = [NaN] \<and>
   map r_current_quantity (db_getInventoryReport example_nan 0 9000) = [Finite 0] \<and>
   map r_current_quantity (getInventoryReport example_nan 0 9000) = [Finite 0]"
proof -
  have "post_movement_handler example_env None 3000 (Some 1) (JNum (Finite 1)) (JStr ''x'')
     (JStr ''kg'') (JNum (Finite 0)) example_store = (201, example_nan)"
    by (simp add: post_movement_handler_def deserializeUser_def getUser_def truthy_def
        parseInt_1 int4_1 parseFloat_x driver_text_def db_createInventoryMovement_def
        db_updateInventory_def db_getInventoryItem_def db_first_def product_ref_ok_def
        user_ref_ok_def example_env_def real4_numeral round_double_numeral parseFloat_JNum
        example_nan_def example_store_def Let_def)
  moreover have "map i_quantity (inventory example_nan) = [NaN]"
    by (simp add: example_nan_def example_store_def)
  moreover have "map r_current_quantity (getInventoryReport example_nan 0 9000) = [Finite 0]"
    by (simp add: getInventoryReport_def getAllProducts_def getInventoryItem_def or_num_def
        example_nan_def example_store_def)
  moreover have "map r_current_quantity (db_getInventoryReport example_nan 0 9000) = [Finite 0]"
    by (simp add: db_getInventoryReport_def getAllProducts_def db_getInventoryItem_def
        db_first_def or_num_def example_nan_def example_store_def)
  ultimately show ?thesis by simp
qed

section \<open>Lookups by name\<close>

lemma toLowerCase_ADMIN: "toLowerCase ''ADMIN'' = ''admin''" and toLowerCase_admin: "toLowerCase ''admin'' = ''admin''"
  and toLowerCase_UN: "toLowerCase ''UN'' = ''un''" and toLowerCase_Un: "toLowerCase ''Un'' = ''un''"
  by code_simp+

text \<open>
  Claim C6. The claim asks that a name be found whatever its letter case. The store holds
  the account \<open>admin\<close> and the product \<open>Un\<close>. \<^verbatim>\<open>MemStorage\<close> finds them under \<open>ADMIN\<close> and
  \<open>UN\<close>; \<^verbatim>\<open>DatabaseStorage\<close>, which compares with \<^verbatim>\<open>eq\<close>, finds neither.
\<close>

theorem lookup_is_case_sensitive:
  "db_getUserByUsername example_store ''ADMIN'' = None \<and>
   map u_id (users example_store) = [1] \<and>
   map_option u_id (mem_getUserByUsername example_store ''ADMIN'') = Some 1 \<and>
   db_getProductByName example_store ''UN'' = None \<and>
   map_option p_id (mem_getProductByName example_store ''UN'') = Some 1"
  by (simp add: db_getUserByUsername_def mem_getUserByUsername_def db_getProductByName_def
      mem_getProductByName_def db_first_def example_store_def toLowerCase_ADMIN toLowerCase_admin
      toLowerCase_UN toLowerCase_Un)

section \<open>Deleting a product\<close>

text \<open>
  Claim C9. The claim asks that deleting a product id that does not exist be answered
  "not found". No product 99 is stored: \<^verbatim>\<open>MemStorage.deleteProduct\<close> answers \<open>False\<close>, but
  \<^verbatim>\<open>DatabaseStorage.deleteProduct\<close> answers \<open>True\<close>, and the endpoint, asked by the
  administrator, status 200.
\<close>

theorem deleteProduct_absent_answers_success:
  "getAllProducts example_store = [\<lparr>p_id = 1, p_name = ''Un'', p_category = ''GENEL''\<rparr>] \<and>
   db_deleteProduct None 99 example_store = (True, example_store) \<and>
   delete_product_handler None (Some 1) 99 example_store = (200, example_store) \<and>
   mem_deleteProduct 99 example_store = (False, example_store)"
  by (simp add: db_deleteProduct_def delete_product_handler_def mem_deleteProduct_def
      deserializeUser_def getUser_def getAllProducts_def js_map_delete_def example_store_def Let_def)

section \<open>The summary aggregator\<close>

lemma round_double_not_NaN: "round_double x \<noteq> NaN"
  by (simp add: round_double_def Let_def)

lemma or_zero_cases: "or_zero x = Finite (case x of None \<Rightarrow> 0 | Some v \<Rightarrow> v)"
  by (cases x) (simp_all add: or_zero_def or_num_def)

lemma quantity_add_ok:
  assumes "q = PosInfinity \<or> (\<exists>x. q = Finite x \<and> 0 \<le> x)"
  shows "js_add q (js_abs (or_zero v)) = PosInfinity \<or>
         (\<exists>x. js_add q (js_abs (or_zero v)) = Finite x \<and> 0 \<le> x)"
proof (cases q)
  case (Finite a)
  with assms have "0 \<le> a + \<bar>case v of None \<Rightarrow> 0 | Some w \<Rightarrow> w\<bar>" by simp
  from round_double_nonneg[OF this] Finite show ?thesis
    by (simp add: or_zero_cases)
qed (use assms in \<open>simp_all add: or_zero_cases\<close>)

lemma total_add_ok: "t \<noteq> NaN \<Longrightarrow> js_add t (or_zero v) \<noteq> NaN"
  by (cases t) (simp_all add: or_zero_cases round_double_not_NaN)

lemma list_all_map_pres:
  "list_all P xs \<Longrightarrow> (\<And>x. P x \<Longrightarrow> P (f x)) \<Longrightarrow> list_all P (map f xs)"
  by (auto simp: list_all_iff)

lemma summary_step_ok:
  assumes "list_all (\<lambda>(k, g). group_ok g) acc"
  shows "list_all (\<lambda>(k, g). group_ok g) (summary_step acc item)"
proof -
  have upd: "group_ok (g\<lparr>sg_quantity := js_add (sg_quantity g) (js_abs (or_zero a)),
                        sg_total_price := js_add (sg_total_price g) (or_zero b)\<rparr>)"
    if "group_ok g" for g a b
    using that quantity_add_ok[of "sg_quantity g" a] total_add_ok[of "sg_total_price g" b]
    by (simp add: group_ok_def)
  have new: "group_ok \<lparr>sg_name = n, sg_quantity = Finite 0, sg_unit = u, sg_total_price = Finite 0\<rparr>"
    for n u
    by (simp add: group_ok_def)
  have acc1: "list_all (\<lambda>(k, g). group_ok g)
     (case map_of acc (ri_product_name item) of
        None \<Rightarrow> acc @ [(ri_product_name item,
                  \<lparr>sg_name = ri_product_name item, sg_quantity = Finite 0,
                   sg_unit = ri_unit item, sg_total_price = Finite 0\<rparr>)]
      | Some _ \<Rightarrow> acc)"
    using assms new by (simp split: option.splits)
  show ?thesis
    unfolding summary_step_def Let_def
    by (rule list_all_map_pres[OF acc1]) (auto simp: upd split: if_splits)
qed

lemma summary_foldl_ok:
  "list_all (\<lambda>(k, g). group_ok g) acc \<Longrightarrow>
   list_all (\<lambda>(k, g). group_ok g) (foldl summary_step acc report)"
proof (induction report arbitrary: acc)
  case Nil
  then show ?case by simp
next
  case (Cons item report)
  from Cons.prems have "list_all (\<lambda>(k, g). group_ok g) (summary_step acc item)"
    by (rule summary_step_ok)
  then show ?case using Cons.IH by simp
qed

lemma unitPrice_ok:
  assumes "group_ok g"
  shows "unitPrice g = (if sg_quantity g = Finite 0 then Text ''0.00''
                        else ToFixed2 (js_divide (sg_total_price g) (sg_quantity g)))"
    and "sg_quantity g \<noteq> Finite 0 \<Longrightarrow>
         js_divide (sg_total_price g) (sg_quantity g) = NaN \<longleftrightarrow>
           sg_quantity g = PosInfinity \<and>
           (sg_total_price g = PosInfinity \<or> sg_total_price g = NegInfinity)"
proof -
  show "unitPrice g = (if sg_quantity g = Finite 0 then Text ''0.00''
                        else ToFixed2 (js_divide (sg_total_price g) (sg_quantity g)))"
    using assms by (auto simp: group_ok_def unitPrice_def)
  assume "sg_quantity g \<noteq> Finite 0"
  with assms show "js_divide (sg_total_price g) (sg_quantity g) = NaN \<longleftrightarrow>
           sg_quantity g = PosInfinity \<and>
           (sg_total_price g = PosInfinity \<or> sg_total_price g = NegInfinity)"
    by (cases "sg_total_price g"; cases "sg_quantity g")
       (auto simp: group_ok_def round_double_not_NaN)
qed

text \<open>
  Claim C8, as amended. For every list of report rows, every group of the summary has a
  summed absolute quantity that is a finite number not below 0, or \<open>+\<infinity>\<close> when the sum has
  overflowed. Its unit price cell is the literal \<open>0.00\<close> when that quantity is 0, and
  otherwise the two-decimal rendering of the quotient of its total price by its quantity
  in double arithmetic, so the division never meets a zero divisor. That quotient is NaN
  exactly when both sums have overflowed; it is an infinity when the division overflows.
\<close>

theorem summary_unitPrice_cases:
  "list_all (\<lambda>(key, item).
      (sg_quantity item = PosInfinity \<or> (\<exists>q. sg_quantity item = Finite q \<and> 0 \<le> q)) \<and>
      unitPrice item = (if sg_quantity item = Finite 0 then Text ''0.00''
                        else ToFixed2 (js_divide (sg_total_price item) (sg_quantity item))) \<and>
      (if sg_quantity item = Finite 0 then True
       else (js_divide (sg_total_price item) (sg_quantity item) = NaN \<longleftrightarrow>
               sg_quantity item = PosInfinity \<and>
               (sg_total_price item = PosInfinity \<or> sg_total_price item = NegInfinity))))
     (summary_groups report)"
proof -
  have ok: "list_all (\<lambda>(k, g). group_ok g) (summary_groups report)"
    unfolding summary_groups_def by (rule summary_foldl_ok) simp
  show ?thesis
    unfolding list_all_iff
  proof
    fix x
    assume x: "x \<in> set (summary_groups report)"
    obtain key item where xi: "x = (key, item)" by (cases x)
    from ok x xi have g: "group_ok item" by (auto simp: list_all_iff)
    then have q: "sg_quantity item = PosInfinity \<or> (\<exists>q. sg_quantity item = Finite q \<and> 0 \<le> q)"
      by (simp add: group_ok_def)
    show "case x of (key, item) \<Rightarrow>
      (sg_quantity item = PosInfinity \<or> (\<exists>q. sg_quantity item = Finite q \<and> 0 \<le> q)) \<and>
      unitPrice item = (if sg_quantity item = Finite 0 then Text ''0.00''
                        else ToFixed2 (js_divide (sg_total_price item) (sg_quantity item))) \<and>
      (if sg_quantity item = Finite 0 then True
       else (js_divide (sg_total_price item) (sg_quantity item) = NaN \<longleftrightarrow>
               sg_quantity item = PosInfinity \<and>
               (sg_total_price item = PosInfinity \<or> sg_total_price item = NegInfinity)))"
      unfolding xi prod.case
      using q unitPrice_ok(1)[OF g] unitPrice_ok(2)[OF g] by simp
  qed
qed

lemma round_double_five_halves: "round_double (5 / 2) = Finite (5 / 2)"
  by (rule round_double_dyadic[of _ 5 "- 1"]) simp_all

theorem summary_unitPrice_cases_witness:
  "map (\<lambda>(key, item). (key, sg_quantity item, sg_total_price item, unitPrice item))
     (summary_groups
        [\<lparr>ri_product_name = ''Un'', ri_quantity_change = Some (-4), ri_unit = ''kg'',
          ri_total_price = Some 10\<rparr>,
         \<lparr>ri_product_name = ''Tuz'', ri_quantity_change = None, ri_unit = ''kg'',
          ri_total_price = Some 5\<rparr>,
         \<lparr>ri_product_name = ''Un'', ri_quantity_change = Some 4, ri_unit = ''kg'',
          ri_total_price = Some 10\<rparr>]) =
   [(''Un'', Finite 8, Finite 20, ToFixed2 (Finite (5 / 2))),
    (''Tuz'', Finite 0, Finite 5, Text ''0.00'')]"
proof -
  let ?report = "[\<lparr>ri_product_name = ''Un'', ri_quantity_change = Some (-4), ri_unit = ''kg'',
          ri_total_price = Some 10\<rparr>,
         \<lparr>ri_product_name = ''Tuz'', ri_quantity_change = None, ri_unit = ''kg'',
          ri_total_price = Some 5\<rparr>,
         \<lparr>ri_product_name = ''Un'', ri_quantity_change = Some 4, ri_unit = ''kg'',
          ri_total_price = Some 10\<rparr>]"
  have g: "summary_groups ?report =
     [(''Un'', \<lparr>sg_name = ''Un'', sg_quantity = Finite 8, sg_unit = ''kg'',
                sg_total_price = Finite 20\<rparr>),
      (''Tuz'', \<lparr>sg_name = ''Tuz'', sg_quantity = Finite 0, sg_unit = ''kg'',
                 sg_total_price = Finite 5\<rparr>)]"
    by (simp add: summary_groups_def summary_step_def or_zero_def or_num_def Let_def
        round_double_numeral)
  from summary_unitPrice_cases[of ?report] round_double_five_halves show ?thesis
    unfolding g by simp
qed

lemma round_double_half: "round_double (1 / 2) = Finite (1 / 2)"
  by (rule round_double_dyadic[of _ 1 "- 1"]) simp_all

lemma round_double_pow_1023: "round_double (2 ^ 1023) = Finite (2 ^ 1023)"
  by (rule round_double_dyadic[of _ 1 1023]) simp_all

lemma round_double_pow_1023_twice: "round_double (2 ^ 1023 + 2 ^ 1023) = PosInfinity"
  by (rule round_double_overflow) simp

lemma round_double_pow_1023_by_half: "round_double (2 ^ 1023 / (1 / 2)) = PosInfinity"
  by (rule round_double_overflow) simp

text \<open>
  Claim C8 as stated fails. One report row of quantity 0.5 and total price \<open>2\<^sup>1\<^sup>0\<^sup>2\<^sup>3\<close>
  (about \<open>9 \<times> 10\<^sup>3\<^sup>0\<^sup>7\<close>, a double) makes a group whose quantity is positive and whose
  quotient overflows: the cell is the rendering of \<open>+\<infinity>\<close>. Two rows of quantity and total
  price \<open>2\<^sup>1\<^sup>0\<^sup>2\<^sup>3\<close> each make both sums overflow, and the cell is the rendering of NaN.
\<close>

theorem summary_unitPrice_overflow_counterexample:
  "map (\<lambda>(key, item). unitPrice item)
     (summary_groups
        [\<lparr>ri_product_name = ''Un'', ri_quantity_change = Some (1 / 2), ri_unit = ''kg'',
          ri_total_price = Some (2 ^ 1023)\<rparr>]) = [ToFixed2 PosInfinity] \<and>
   map (\<lambda>(key, item). unitPrice item)
     (summary_groups
        [\<lparr>ri_product_name = ''Un'', ri_quantity_change = Some (2 ^ 1023), ri_unit = ''kg'',
          ri_total_price = Some (2 ^ 1023)\<rparr>,
         \<lparr>ri_product_name = ''Un'', ri_quantity_change = Some (2 ^ 1023), ri_unit = ''kg'',
          ri_total_price = Some (2 ^ 1023)\<rparr>]) = [ToFixed2 NaN]"
  using round_double_half round_double_pow_1023 round_double_pow_1023_twice
    round_double_pow_1023_by_half
  by (simp add: summary_groups_def summary_step_def or_zero_def or_num_def unitPrice_def Let_def)

section \<open>Deleting an account\<close>

lemma db_deleteInventoryMovement_users:
  "users (snd (db_deleteInventoryMovement col fail_at now ident s)) = users s"
  by (simp add: db_deleteInventoryMovement_def Let_def split: option.splits)

lemma db_deleteProduct_users: "users (snd (db_deleteProduct fail_at ident s)) = users s"
  by (simp add: db_deleteProduct_def Let_def)

lemma delete_movement_handler_users:
  "users (snd (delete_movement_handler env fail_at now session ident s)) = users s"
  by (simp add: delete_movement_handler_def Let_def db_deleteInventoryMovement_users
      split: request_user.splits)

lemma delete_product_handler_users:
  "users (snd (delete_product_handler fail_at session ident s)) = users s"
  by (simp add: delete_product_handler_def Let_def db_deleteProduct_users
      split: request_user.splits)

lemma db_createProduct_users: "users (snd (db_createProduct fail name category s)) = users s"
  by (simp add: db_createProduct_def Let_def)

lemma post_product_handler_users:
  "users (snd (post_product_handler fail session name category s)) = users s"
  by (simp add: post_product_handler_def db_createProduct_users Let_def
      split: request_user.splits option.splits sum.splits)

lemma db_updateInventory_users:
  "users (snd (db_updateInventory col fail_at now item s)) = users s"
  by (simp add: db_updateInventory_def Let_def split: option.splits)

lemma db_createInventoryMovement_users:
  "users (snd (db_createInventoryMovement col fail now m s)) = users s"
  by (simp add: db_createInventoryMovement_def Let_def split: option.splits)

lemma post_movement_handler_users:
  "users (snd (post_movement_handler env fail_at now session product_id quantity_change unit
     total_price s)) = users s"
  by (simp add: post_movement_handler_def Let_def db_updateInventory_users
      db_createInventoryMovement_users split: request_user.splits option.splits sum.splits)

lemma db_createUser_has_admin:
  "has_admin s \<Longrightarrow> has_admin (snd (db_createUser fail u s))"
  by (simp add: db_createUser_def Let_def has_admin_def)

lemma post_users_handler_has_admin:
  "has_admin s \<Longrightarrow> has_admin (snd (post_users_handler fail session newUser s))"
  by (simp add: post_users_handler_def Let_def db_createUser_has_admin
      split: request_user.splits option.splits sum.splits)

lemma post_register_handler_has_admin:
  "has_admin s \<Longrightarrow> has_admin (snd (post_register_handler fail session newUser s))"
  by (simp add: post_register_handler_def Let_def db_createUser_has_admin
      split: request_user.splits option.splits sum.splits)

lemma deserializeUser_Authenticated:
  "deserializeUser s session = Authenticated user \<Longrightarrow>
   user \<in> set (users s) \<and> session = Some (u_id user)"
  by (auto simp: deserializeUser_def getUser_def find_Some_iff
      split: option.splits)

lemma db_deleteUser_keeps:
  "user \<in> set (users s) \<Longrightarrow> u_id user \<noteq> ident \<Longrightarrow>
   user \<in> set (users (snd (db_deleteUser fail ident s)))"
  by (simp add: db_deleteUser_def)

lemma delete_user_handler_has_admin:
  assumes "has_admin s"
  shows "has_admin (snd (delete_user_handler fail_at session ident s))"
proof (cases "deserializeUser s session")
  case Anonymous
  with assms show ?thesis by (simp add: delete_user_handler_def)
next
  case DeserializeError
  with assms show ?thesis by (simp add: delete_user_handler_def)
next
  case (Authenticated user)
  then have mem: "user \<in> set (users s)" by (simp add: deserializeUser_Authenticated)
  show ?thesis
  proof (cases "u_is_admin user \<and> ident \<noteq> u_id user")
    case False
    with Authenticated assms show ?thesis by (auto simp: delete_user_handler_def)
  next
    case True
    then have "user \<in> set (users (snd (db_deleteUser (fail_at = Some 2) ident s)))"
      using mem by (intro db_deleteUser_keeps) auto
    with True have "has_admin (snd (db_deleteUser (fail_at = Some 2) ident s))"
      by (auto simp: has_admin_def list_ex_iff)
    with Authenticated assms show ?thesis
      by (simp add: delete_user_handler_def Let_def)
  qed
qed

lemma handle_has_admin:
  assumes "has_admin s"
  shows "has_admin (snd (handle env r s))"
proof (cases r)
  case (PostProduct fail session name category)
  with assms post_product_handler_users[of fail session name category s] show ?thesis
    by (simp add: has_admin_def)
next
  case (DeleteProduct fail_at session ident)
  with assms delete_product_handler_users[of fail_at session ident s] show ?thesis
    by (simp add: has_admin_def)
next
  case (PostMovement fail_at now session product_id quantity_change unit total_price)
  with assms post_movement_handler_users[of env fail_at now session product_id quantity_change
      unit total_price s] show ?thesis
    by (simp add: has_admin_def)
next
  case (DeleteMovementReq fail_at now session ident)
  with assms delete_movement_handler_users[of env fail_at now session ident s] show ?thesis
    by (simp add: has_admin_def)
next
  case (PostUsers fail session newUser)
  with assms post_users_handler_has_admin[of s fail session newUser] show ?thesis by simp
next
  case (PostRegister fail session newUser)
  with assms post_register_handler_has_admin[of s fail session newUser] show ?thesis by simp
next
  case (DeleteUser fail_at session ident)
  with assms delete_user_handler_has_admin[of s fail_at session ident] show ?thesis by simp
qed

lemma run_requests_has_admin:
  "has_admin s \<Longrightarrow> has_admin (run_requests env rs s)"
proof (induction rs arbitrary: s)
  case Nil
  then show ?case by simp
next
  case (Cons r rs)
  from handle_has_admin[OF Cons.prems, of env r] have "has_admin (snd (handle env r s))" .
  then show ?case using Cons.IH by simp
qed

lemma delete_user_self:
  "delete_user_handler fail_at (Some ident) ident s = (status, s') \<Longrightarrow> s' = s \<and> status \<noteq> 200"
  by (auto simp: delete_user_handler_def dest: deserializeUser_Authenticated
      split: request_user.splits if_splits)

lemma delete_user_last_admin:
  assumes "getUser s ident = Some t" and "u_is_admin t"
    and "length (filter u_is_admin (getAllUsers s)) = 1"
    and "delete_user_handler fail_at session ident s = (status, s')"
  shows "s' = s \<and> status \<noteq> 200"
  using assms
  by (auto simp: delete_user_handler_def Let_def split: request_user.splits if_splits)

text \<open>
  Claim C7. \<^verbatim>\<open>DELETE /api/users/:id\<close> leaves the store as it was and does not answer 200
  when the target id is the requester's own, and when the target is an administrator and
  exactly one administrator is stored. And from a store with an administrator, every store
  reached by a run of the writing requests (products, movements, accounts; whatever the
  database rejects and however it converts numbers) has an administrator.
\<close>

theorem delete_user_guards:
  "(session = Some ident \<longrightarrow>
      snd (delete_user_handler fail_at session ident s) = s \<and>
      fst (delete_user_handler fail_at session ident s) \<noteq> 200) \<and>
   (getUser s ident = Some t \<and> u_is_admin t \<and> length (filter u_is_admin (getAllUsers s)) = 1 \<longrightarrow>
      snd (delete_user_handler fail_at session ident s) = s \<and>
      fst (delete_user_handler fail_at session ident s) \<noteq> 200) \<and>
   (has_admin s \<and> run_requests env rs s = s' \<longrightarrow> has_admin s')"
proof (intro conjI impI)
  assume "session = Some ident"
  then show "snd (delete_user_handler fail_at session ident s) = s"
    and "fst (delete_user_handler fail_at session ident s) \<noteq> 200"
    using delete_user_self[of fail_at ident s] by (auto simp: prod_eq_iff)
next
  assume a: "getUser s ident = Some t \<and> u_is_admin t \<and>
    length (filter u_is_admin (getAllUsers s)) = 1"
  then show "snd (delete_user_handler fail_at session ident s) = s"
    and "fst (delete_user_handler fail_at session ident s) \<noteq> 200"
    using delete_user_last_admin[of s ident t fail_at session] by (auto simp: prod_eq_iff)
next
  assume "has_admin s \<and> run_requests env rs s = s'"
  then show "has_admin s'" using run_requests_has_admin by blast
qed

theorem delete_user_guards_witness:
  "getUser example_store 1 = Some \<lparr>u_id = 1, u_username = ''admin'', u_password = ''hash'',
       u_is_admin = True, u_can_add_product = True, u_can_view_reports = True,
       u_can_manage_inventory = True\<rparr> \<and>
   length (filter u_is_admin (getAllUsers example_store)) = 1 \<and>
   delete_user_handler None (Some 1) 1 example_store = (400, example_store) \<and>
   has_admin example_store \<and>
   run_requests example_env
     [PostUsers False (Some 1) \<lparr>u_id = 0, u_username = ''ayse'', u_password = ''hash2'',
        u_is_admin = False, u_can_add_product = False, u_can_view_reports = True,
        u_can_manage_inventory = False\<rparr>,
      DeleteUser None (Some 1) 2,
      DeleteUser None (Some 1) 1] example_store = example_store\<lparr>userIdCounter := 3\<rparr> \<and>
   has_admin (example_store\<lparr>userIdCounter := 3\<rparr>)"
proof -
  let ?admin = "\<lparr>u_id = 1, u_username = ''admin'', u_password = ''hash'',
       u_is_admin = True, u_can_add_product = True, u_can_view_reports = True,
       u_can_manage_inventory = True\<rparr>"
  let ?rs = "[PostUsers False (Some 1) \<lparr>u_id = 0, u_username = ''ayse'', u_password = ''hash2'',
        u_is_admin = False, u_can_add_product = False, u_can_view_reports = True,
        u_can_manage_inventory = False\<rparr>,
      DeleteUser None (Some 1) 2,
      DeleteUser None (Some 1) 1]"
  have g: "getUser example_store 1 = Some ?admin"
    by (simp add: getUser_def example_store_def)
  have n: "length (filter u_is_admin (getAllUsers example_store)) = 1"
    by (simp add: getAllUsers_def example_store_def)
  have h: "has_admin example_store"
    by (simp add: has_admin_def example_store_def)
  have d: "delete_user_handler None (Some 1) 1 example_store = (400, example_store)"
    by (simp add: delete_user_handler_def deserializeUser_def g)
  have r: "run_requests example_env ?rs example_store = example_store\<lparr>userIdCounter := 3\<rparr>"
    by (simp add: post_users_handler_def delete_user_handler_def deserializeUser_def getUser_def
        getAllUsers_def db_getUserByUsername_def db_first_def db_createUser_def db_deleteUser_def
        example_store_def Let_def)
  from delete_user_guards[of "Some 1" 1 None example_store ?admin example_env ?rs
      "example_store\<lparr>userIdCounter := 3\<rparr>"] g n h d r
  show ?thesis by simp
qed

section \<open>Recording a movement through the endpoint\<close>

lemma find_map_update:
  "find P xs = Some e \<Longrightarrow> (\<And>r. P (f r) = P r) \<Longrightarrow>
   find P (map (\<lambda>r. if key r = key e then f r else r) xs) = Some (f e)"
proof (induction xs)
  case Nil
  then show ?case by simp
next
  case (Cons x xs)
  show ?case
  proof (cases "P x")
    case True
    with Cons.prems show ?thesis by simp
  next
    case False
    with Cons show ?thesis by simp
  qed
qed

lemma find_product_update:
  assumes "find (\<lambda>x. i_product_id x = p) xs = Some e"
  shows "find (\<lambda>x. i_product_id x = p)
           (map (\<lambda>row. if i_id row = i_id e
                   then row\<lparr>i_quantity := a, i_unit := b, i_total_price := c,
                            i_last_updated := d, i_updated_by := f\<rparr>
                   else row) xs) =
         Some (e\<lparr>i_quantity := a, i_unit := b, i_total_price := c,
                  i_last_updated := d, i_updated_by := f\<rparr>)"
  using find_map_update[OF assms, of "\<lambda>row. row\<lparr>i_quantity := a, i_unit := b, i_total_price := c,
                            i_last_updated := d, i_updated_by := f\<rparr>" i_id]
  by simp

lemma db_createInventoryMovement_Inr:
  assumes "fst (db_createInventoryMovement col fail now m s) = Inr mv"
  shows "snd (db_createInventoryMovement col fail now m s) =
           s\<lparr>movementIdCounter := movementIdCounter s + 1,
             inventoryMovements := inventoryMovements s @ [mv]\<rparr>"
    and "m_product_id mv = im_product_id m"
    and "col (im_quantity_change m) = Some (m_quantity_change mv)"
    and "col (im_total_price m) = Some (m_total_price mv)"
    and "\<not> fail"
  using assms
  by (auto simp: db_createInventoryMovement_def Let_def split: if_splits option.splits)

lemma db_createInventoryMovement_Inl:
  assumes "fst (db_createInventoryMovement col fail now m s) = Inl err"
  shows "inventoryMovements (snd (db_createInventoryMovement col fail now m s)) =
           inventoryMovements s"
    and "inventory (snd (db_createInventoryMovement col fail now m s)) = inventory s"
  using assms
  by (auto simp: db_createInventoryMovement_def Let_def split: if_splits option.splits)

lemma db_createInventoryMovement_fail:
  "fst (db_createInventoryMovement col True now m s) = Inl DbError"
  by (simp add: db_createInventoryMovement_def Let_def split: option.splits)

lemma db_updateInventory_movements:
  "inventoryMovements (snd (db_updateInventory col fail_at now item s)) = inventoryMovements s"
  by (simp add: db_updateInventory_def Let_def split: option.splits)

lemma db_updateInventory_Inl:
  "fst (db_updateInventory col fail_at now item s) = Inl err \<Longrightarrow>
   inventory (snd (db_updateInventory col fail_at now item s)) = inventory s"
  by (auto simp: db_updateInventory_def Let_def split: option.splits if_splits)

lemma db_updateInventory_Inr:
  assumes "fst (db_updateInventory col fail_at now item s) = Inr it"
  shows "getInventoryItem (snd (db_updateInventory col fail_at now item s)) (ii_product_id item)
           = Some it"
    and "case getInventoryItem s (ii_product_id item) of
           None \<Rightarrow> col (ii_quantity item) = Some (i_quantity it) \<and>
                   col (ii_total_price item) = Some (i_total_price it)
         | Some e \<Rightarrow> col (js_add (i_quantity e) (ii_quantity item)) = Some (i_quantity it) \<and>
                     col (js_add (i_total_price e) (ii_total_price item)) = Some (i_total_price it)"
    and "fail_at \<noteq> Some 0 \<and> fail_at \<noteq> Some 1"
proof -
  have "getInventoryItem (snd (db_updateInventory col fail_at now item s)) (ii_product_id item)
           = Some it \<and>
        (case getInventoryItem s (ii_product_id item) of
           None \<Rightarrow> col (ii_quantity item) = Some (i_quantity it) \<and>
                   col (ii_total_price item) = Some (i_total_price it)
         | Some e \<Rightarrow> col (js_add (i_quantity e) (ii_quantity item)) = Some (i_quantity it) \<and>
                     col (js_add (i_total_price e) (ii_total_price item)) = Some (i_total_price it)) \<and>
        fail_at \<noteq> Some 0 \<and> fail_at \<noteq> Some 1"
  proof (cases "getInventoryItem s (ii_product_id item)")
    case None
    with assms show ?thesis
      by (auto simp: db_updateInventory_def db_getInventoryItem_eq Let_def getInventoryItem_def
          find_append_new split: if_splits option.splits)
  next
    case (Some e)
    then have f: "find (\<lambda>x. i_product_id x = ii_product_id item) (inventory s) = Some e"
      by (simp add: getInventoryItem_def)
    from Some assms show ?thesis
      by (auto simp: db_updateInventory_def db_getInventoryItem_eq Let_def getInventoryItem_def
          find_product_update[OF f] split: if_splits option.splits)
  qed
  then show "getInventoryItem (snd (db_updateInventory col fail_at now item s)) (ii_product_id item)
           = Some it"
    and "case getInventoryItem s (ii_product_id item) of
           None \<Rightarrow> col (ii_quantity item) = Some (i_quantity it) \<and>
                   col (ii_total_price item) = Some (i_total_price it)
         | Some e \<Rightarrow> col (js_add (i_quantity e) (ii_quantity item)) = Some (i_quantity it) \<and>
                     col (js_add (i_total_price e) (ii_total_price item)) = Some (i_total_price it)"
    and "fail_at \<noteq> Some 0 \<and> fail_at \<noteq> Some 1"
    by blast+
qed










section \<open>Validation of a movement request\<close>

lemma parseFloat_zero_string: "parseFloat (JStr ''0'') = Finite 0"
  by (simp add: parseFloat_def parseFloat_str_def read_sign_def read_exponent_def is_space_def
      is_digit_def digits_val_def Let_def)

lemma post_movement_example_zero:
  "post_movement_handler example_env None 3000 (Some 1) (JNum (Finite 1)) (JStr ''0'')
     (JStr ''kg'') (JNum (Finite 0)) example_store = (201, example_zero_recorded)"
  by (simp add: post_movement_handler_def deserializeUser_def getUser_def truthy_def
      parseInt_1 int4_1 parseFloat_zero_string parseFloat_JNum driver_text_def
      db_createInventoryMovement_def db_updateInventory_def
      db_getInventoryItem_def db_first_def product_ref_ok_def user_ref_ok_def
      example_env_def real4_numeral round_double_numeral
      example_store_def example_zero_recorded_def example_zero_movement_def Let_def)

text \<open>
  Claim C10 as stated fails: the administrator posts \<open>quantity_change\<close> as the string
  \<open>0\<close>; the answer is 201 and a movement of quantity 0 is stored.
\<close>

theorem zero_quantity_movement_counterexample:
  "post_movement_handler example_env None 3000 (Some 1) (JNum (Finite 1)) (JStr ''0'')
     (JStr ''kg'') (JNum (Finite 0)) example_store = (201, example_zero_recorded) \<and>
   inventoryMovements example_zero_recorded =
     inventoryMovements example_store @ [example_zero_movement] \<and>
   m_quantity_change example_zero_movement = Finite 0"
  using post_movement_example_zero
  by (simp add: example_zero_recorded_def example_zero_movement_def)

lemma post_movement_400_iff:
  assumes "deserializeUser s session = Authenticated user"
      and "u_can_manage_inventory user \<or> u_is_admin user"
  shows "post_movement_handler env fail_at now session product_id quantity_change unit
           total_price s = (400, s) \<longleftrightarrow>
         \<not> truthy product_id \<or> \<not> truthy quantity_change \<or> \<not> truthy unit \<or> total_price = JUndefined"
  using assms
  by (auto simp: post_movement_handler_def Let_def
      split: option.splits sum.splits)

text \<open>
  Claim C10, as amended. For a caller allowed to manage the inventory, the request is
  answered 400, with the store unchanged, exactly when \<open>product_id\<close>, \<open>quantity_change\<close>
  or \<open>unit\<close> is falsy or \<open>total_price\<close> is absent: so it is for a \<open>quantity_change\<close> or a
  \<open>product_id\<close> that is the number 0, and a \<open>total_price\<close> of 0 is not a reason for it.
  A movement of quantity 0 can still be created: the text \<open>0\<close> is truthy and parses to 0.
\<close>

theorem movement_validation_by_truthiness:
  assumes "deserializeUser s session = Authenticated user"
      and "u_can_manage_inventory user \<or> u_is_admin user"
  shows "(post_movement_handler env fail_at now session product_id quantity_change unit
            total_price s = (400, s) \<longleftrightarrow>
          \<not> truthy product_id \<or> \<not> truthy quantity_change \<or> \<not> truthy unit
            \<or> total_price = JUndefined) \<and>
         post_movement_handler env fail_at now session product_id (JNum (Finite 0)) unit
            total_price s = (400, s) \<and>
         post_movement_handler env fail_at now session (JNum (Finite 0)) quantity_change unit
            total_price s = (400, s) \<and>
         (post_movement_handler env fail_at now session product_id quantity_change unit
            (JNum (Finite 0)) s = (400, s) \<longleftrightarrow>
          \<not> truthy product_id \<or> \<not> truthy quantity_change \<or> \<not> truthy unit) \<and>
         (\<exists>s' m. post_movement_handler example_env None 3000 (Some 1) (JNum (Finite 1))
                    (JStr ''0'') (JStr ''kg'') (JNum (Finite 0)) example_store = (201, s') \<and>
                 inventoryMovements s' = inventoryMovements example_store @ [m] \<and>
                 m_quantity_change m = Finite 0)"
proof -
  have ex: "\<exists>s' m. post_movement_handler example_env None 3000 (Some 1) (JNum (Finite 1))
                    (JStr ''0'') (JStr ''kg'') (JNum (Finite 0)) example_store = (201, s') \<and>
                 inventoryMovements s' = inventoryMovements example_store @ [m] \<and>
                 m_quantity_change m = Finite 0"
    using post_movement_example_zero
    by (intro exI[of _ example_zero_recorded] exI[of _ example_zero_movement])
      (simp add: example_zero_recorded_def example_zero_movement_def)
  have z: "\<not> truthy (JNum (Finite 0))" by (simp add: truthy_def)
  show ?thesis
    using ex by (simp add: post_movement_400_iff[OF assms] z)
qed

theorem movement_validation_by_truthiness_witness:
  "deserializeUser example_store (Some 1) = Authenticated (hd (users example_store)) \<and>
   u_is_admin (hd (users example_store)) \<and>
   post_movement_handler example_env None 3000 (Some 1) (JNum (Finite 1)) (JNum (Finite 0))
     (JStr ''kg'') (JNum (Finite 40)) example_store = (400, example_store) \<and>
   post_movement_handler example_env None 3000 (Some 1) (JNum (Finite 0)) (JNum (Finite 5))
     (JStr ''kg'') (JNum (Finite 40)) example_store = (400, example_store) \<and>
   post_movement_handler example_env None 3000 (Some 1) (JNum (Finite 1)) (JNum (Finite 5))
     (JStr ''kg'') (JNum (Finite 0)) example_store \<noteq> (400, example_store)"
proof -
  have a: "deserializeUser example_store (Some 1) = Authenticated (hd (users example_store))"
    by (simp add: deserializeUser_def getUser_def example_store_def)
  have b: "u_can_manage_inventory (hd (users example_store)) \<or> u_is_admin (hd (users example_store))"
    by (simp add: example_store_def)
  have c: "u_is_admin (hd (users example_store))"
    by (simp add: example_store_def)
  from movement_validation_by_truthiness[OF a b, of example_env None 3000 "JNum (Finite 1)"
      "JNum (Finite 5)" "JStr ''kg''" "JNum (Finite 40)"]
    a c
  show ?thesis by (simp add: truthy_def)
qed

section \<open>The ledger invariant (DatabaseStorage)\<close>

lemma find_map_update_other:
  fixes key :: "'b \<Rightarrow> int"
  assumes "distinct (map key xs)" "e \<in> set xs" "key (f e) = key e" "\<not> Q e" "\<not> Q (f e)"
  shows "find Q (map (\<lambda>row. if key row = key e then f row else row) xs) = find Q xs"
  using map_update_eq_set[of key xs e f] find_set_other[of key xs e "f e" Q] assms
  by simp

lemma db_createInventoryMovement_wf:
  "store_wf s \<Longrightarrow> store_wf (snd (db_createInventoryMovement col fail now m s))"
  by (auto simp: db_createInventoryMovement_def Let_def store_wf_def list_all_iff list_ex_iff
      split: option.splits)

lemma db_createInventoryMovement_inventory:
  "inventory (snd (db_createInventoryMovement col fail now m s)) = inventory s"
  by (simp add: db_createInventoryMovement_def Let_def split: option.splits)

lemma db_createInventoryMovement_getInventoryItem:
  "getInventoryItem (snd (db_createInventoryMovement col fail now m s)) q = getInventoryItem s q"
  by (simp add: getInventoryItem_def db_createInventoryMovement_inventory)

lemma db_updateInventory_wf:
  assumes "store_wf s"
  shows "store_wf (snd (db_updateInventory col fail_at now item s))"
proof (cases "getInventoryItem s (ii_product_id item)")
  case None
  with assms show ?thesis
    by (auto simp: db_updateInventory_def db_getInventoryItem_eq Let_def store_wf_def
        list_all_iff list_ex_iff split: option.splits)
next
  case (Some e)
  have k: "map (i_id \<circ> (\<lambda>row. if i_id row = k
          then row\<lparr>i_quantity := a, i_unit := b, i_total_price := c, i_last_updated := d,
                   i_updated_by := f\<rparr>
          else row)) xs = map i_id xs" for k a b c d f and xs :: "Inventory list"
    by (induction xs) auto
  have "list_all (\<lambda>i. i_id i < n) (map (\<lambda>row. if i_id row = k
          then row\<lparr>i_quantity := a, i_unit := b, i_total_price := c, i_last_updated := d,
                   i_updated_by := f\<rparr>
          else row) xs) = list_all (\<lambda>i. i_id i < n) xs" for n k a b c d f and xs :: "Inventory list"
    by (induction xs) auto
  note l = this
  show ?thesis
    using Some assms
    by (auto simp: db_updateInventory_def db_getInventoryItem_eq Let_def store_wf_def k l
        split: option.splits)
qed

lemma db_updateInventory_other:
  assumes "distinct (map i_id (inventory s))" and "q \<noteq> ii_product_id item"
  shows "getInventoryItem (snd (db_updateInventory col fail_at now item s)) q =
         getInventoryItem s q"
proof (cases "getInventoryItem s (ii_product_id item)")
  case None
  with assms(2) show ?thesis
    by (auto simp: db_updateInventory_def db_getInventoryItem_eq Let_def getInventoryItem_def
        find_append_new split: option.splits)
next
  case (Some e)
  then have e: "e \<in> set (inventory s)" "i_product_id e = ii_product_id item"
    using find_mem[of "\<lambda>x. i_product_id x = ii_product_id item" "inventory s" e]
    by (simp_all add: getInventoryItem_def)
  have "find (\<lambda>x. i_product_id x = q)
          (map (\<lambda>row. if i_id row = i_id e
                  then row\<lparr>i_quantity := a, i_unit := b, i_total_price := c,
                           i_last_updated := d, i_updated_by := f\<rparr>
                  else row) (inventory s)) =
        find (\<lambda>x. i_product_id x = q) (inventory s)" for a b c d f
    using find_map_update_other[OF assms(1) e(1),
        of "\<lambda>row. row\<lparr>i_quantity := a, i_unit := b, i_total_price := c,
                           i_last_updated := d, i_updated_by := f\<rparr>"
           "\<lambda>x. i_product_id x = q"] e(2) assms(2)
    by simp
  with Some show ?thesis
    by (auto simp: db_updateInventory_def db_getInventoryItem_eq Let_def getInventoryItem_def
        split: option.splits)
qed

lemma db_recordMovement_wf:
  assumes "store_wf s"
  shows "store_wf (snd (db_recordMovement col fail_at now p q u t a s))"
  using db_createInventoryMovement_wf[OF assms] db_updateInventory_wf
  by (simp add: db_recordMovement_def Let_def split: sum.splits)

lemma db_recordMovement_Inl:
  assumes "fst (db_recordMovement col fail_at now p q u t a s) = Inl err"
  shows "inventory (snd (db_recordMovement col fail_at now p q u t a s)) = inventory s"
    and "inventoryMovements (snd (db_recordMovement col fail_at now p q u t a s)) =
           inventoryMovements s \<or>
         (\<exists>m. m_product_id m = p \<and>
           inventoryMovements (snd (db_recordMovement col fail_at now p q u t a s)) =
             inventoryMovements s @ [m])"
proof -
  let ?mv = "\<lparr>im_product_id = p, im_quantity_change = q, im_unit = u, im_total_price = t,
               im_movement_type = ''update'', im_user_id = a\<rparr>"
  let ?it = "\<lparr>ii_product_id = p, ii_quantity = q, ii_unit = u, ii_total_price = t,
               ii_updated_by = a\<rparr>"
  let ?f2 = "case fail_at of Some (Suc n) \<Rightarrow> Some n | _ \<Rightarrow> None"
  let ?r1 = "db_createInventoryMovement col (fail_at = Some 0) now ?mv s"
  let ?r2 = "db_updateInventory col ?f2 now ?it (snd ?r1)"
  have "inventory (snd (db_recordMovement col fail_at now p q u t a s)) = inventory s \<and>
        (inventoryMovements (snd (db_recordMovement col fail_at now p q u t a s)) =
           inventoryMovements s \<or>
         (\<exists>m. m_product_id m = p \<and>
           inventoryMovements (snd (db_recordMovement col fail_at now p q u t a s)) =
             inventoryMovements s @ [m]))"
  proof (cases "fst ?r1")
    case (Inl e1)
    then have "db_recordMovement col fail_at now p q u t a s = (Inl e1, snd ?r1)"
      by (simp add: db_recordMovement_def Let_def)
    with db_createInventoryMovement_Inl[OF Inl] show ?thesis by simp
  next
    case (Inr m)
    note c = db_createInventoryMovement_Inr[OF Inr]
    from assms Inr obtain e2 where e2: "fst ?r2 = Inl e2"
      by (auto simp: db_recordMovement_def Let_def split: sum.splits)
    with Inr have r: "db_recordMovement col fail_at now p q u t a s = (Inl e2, snd ?r2)"
      by (simp add: db_recordMovement_def Let_def)
    have "inventory (snd ?r2) = inventory s"
      using db_updateInventory_Inl[OF e2] c(1) by simp
    moreover have "inventoryMovements (snd ?r2) = inventoryMovements s @ [m]"
      using db_updateInventory_movements[of col ?f2 now ?it "snd ?r1"] c(1) by simp
    moreover have "m_product_id m = p" using c(2) by simp
    ultimately show ?thesis unfolding r by auto
  qed
  then show "inventory (snd (db_recordMovement col fail_at now p q u t a s)) = inventory s"
    and "inventoryMovements (snd (db_recordMovement col fail_at now p q u t a s)) =
           inventoryMovements s \<or>
         (\<exists>m. m_product_id m = p \<and>
           inventoryMovements (snd (db_recordMovement col fail_at now p q u t a s)) =
             inventoryMovements s @ [m])"
    by blast+
qed

lemma db_recordMovement_Inr:
  assumes wf: "store_wf s"
      and ok: "fst (db_recordMovement col fail_at now p q u t a s) = Inr m"
  shows "inventoryMovements (snd (db_recordMovement col fail_at now p q u t a s)) =
           inventoryMovements s @ [m]"
    and "m_product_id m = p"
    and "col q = Some (m_quantity_change m)"
    and "col t = Some (m_total_price m)"
    and "\<exists>item. getInventoryItem (snd (db_recordMovement col fail_at now p q u t a s)) p =
            Some item \<and>
          (case getInventoryItem s p of
             None \<Rightarrow> col q = Some (i_quantity item) \<and> col t = Some (i_total_price item)
           | Some e \<Rightarrow> col (js_add (i_quantity e) q) = Some (i_quantity item) \<and>
                       col (js_add (i_total_price e) t) = Some (i_total_price item))"
    and "p' \<noteq> p \<Longrightarrow>
         getInventoryItem (snd (db_recordMovement col fail_at now p q u t a s)) p' =
           getInventoryItem s p'"
proof -
  let ?mv = "\<lparr>im_product_id = p, im_quantity_change = q, im_unit = u, im_total_price = t,
               im_movement_type = ''update'', im_user_id = a\<rparr>"
  let ?it = "\<lparr>ii_product_id = p, ii_quantity = q, ii_unit = u, ii_total_price = t,
               ii_updated_by = a\<rparr>"
  let ?f2 = "case fail_at of Some (Suc n) \<Rightarrow> Some n | _ \<Rightarrow> None"
  let ?r1 = "db_createInventoryMovement col (fail_at = Some 0) now ?mv s"
  let ?r2 = "db_updateInventory col ?f2 now ?it (snd ?r1)"
  from ok obtain item where r1: "fst ?r1 = Inr m" and r2: "fst ?r2 = Inr item"
    by (auto simp: db_recordMovement_def Let_def split: sum.splits)
  then have r: "db_recordMovement col fail_at now p q u t a s = (Inr m, snd ?r2)"
    by (simp add: db_recordMovement_def Let_def)
  note c = db_createInventoryMovement_Inr[OF r1]
  note up = db_updateInventory_Inr[OF r2]
  show "inventoryMovements (snd (db_recordMovement col fail_at now p q u t a s)) =
           inventoryMovements s @ [m]"
    using db_updateInventory_movements[of col ?f2 now ?it "snd ?r1"] c(1) by (simp add: r)
  show "m_product_id m = p" using c(2) by simp
  show "col q = Some (m_quantity_change m)" using c(3) by simp
  show "col t = Some (m_total_price m)" using c(4) by simp
  have "getInventoryItem (snd ?r2) p = Some item" using up(1) by simp
  moreover have "case getInventoryItem s p of
             None \<Rightarrow> col q = Some (i_quantity item) \<and> col t = Some (i_total_price item)
           | Some e \<Rightarrow> col (js_add (i_quantity e) q) = Some (i_quantity item) \<and>
                       col (js_add (i_total_price e) t) = Some (i_total_price item)"
    using up(2) by (simp add: db_createInventoryMovement_getInventoryItem cong: option.case_cong)
  ultimately show "\<exists>item. getInventoryItem (snd (db_recordMovement col fail_at now p q u t a s)) p =
            Some item \<and>
          (case getInventoryItem s p of
             None \<Rightarrow> col q = Some (i_quantity item) \<and> col t = Some (i_total_price item)
           | Some e \<Rightarrow> col (js_add (i_quantity e) q) = Some (i_quantity item) \<and>
                       col (js_add (i_total_price e) t) = Some (i_total_price item))"
    unfolding r by auto
  assume "p' \<noteq> p"
  moreover have "distinct (map i_id (inventory (snd ?r1)))"
    using wf by (simp add: db_createInventoryMovement_inventory store_wf_def)
  ultimately show "getInventoryItem (snd (db_recordMovement col fail_at now p q u t a s)) p' =
           getInventoryItem s p'"
    unfolding r
    by (simp add: db_updateInventory_other db_createInventoryMovement_getInventoryItem)
qed

lemma db_recordMovement_inv:
  assumes wf: "store_wf s" and inv: "ledger_inv s p'"
      and ex: "db_ledger_op_exact col s p' (DbRecordMovement fail_at now p q u t a)"
  shows "ledger_inv (snd (db_recordMovement col fail_at now p q u t a s)) p'"
proof (cases "fst (db_recordMovement col fail_at now p q u t a s)")
  case (Inl err)
  note l = db_recordMovement_Inl[OF Inl]
  have g: "getInventoryItem (snd (db_recordMovement col fail_at now p q u t a s)) p' =
           getInventoryItem s p'"
    by (simp add: getInventoryItem_def l(1))
  have "movements_of (snd (db_recordMovement col fail_at now p q u t a s)) p' = movements_of s p'"
  proof (cases "p' = p")
    case True
    with ex Inl show ?thesis by (simp add: movements_of_def)
  next
    case False
    with l(2) show ?thesis by (auto simp: movements_of_def)
  qed
  with inv g show ?thesis by (simp add: ledger_inv_def cong: option.case_cong)
next
  case (Inr m)
  note r = db_recordMovement_Inr[OF wf Inr]
  have mv: "movements_of (snd (db_recordMovement col fail_at now p q u t a s)) p' =
            movements_of s p' @ (if p' = p then [m] else [])"
    by (simp add: movements_of_def r(1) r(2))
  show ?thesis
  proof (cases "p' = p")
    case False
    with inv show ?thesis
      by (simp add: ledger_inv_def mv r(6) cong: option.case_cong)
  next
    case True
    from mv True have mvp:
      "movements_of (snd (db_recordMovement col fail_at now p q u t a s)) p = movements_of s p @ [m]"
      by simp
    from ex Inr True have k: "kept col q" "kept col t" by simp_all
    with r(3) r(4) have mq: "m_quantity_change m = q" "m_total_price m = t"
      by (simp_all add: kept_def)
    from r(5) obtain item where
      g: "getInventoryItem (snd (db_recordMovement col fail_at now p q u t a s)) p = Some item"
      and b: "case getInventoryItem s p of
             None \<Rightarrow> col q = Some (i_quantity item) \<and> col t = Some (i_total_price item)
           | Some e \<Rightarrow> col (js_add (i_quantity e) q) = Some (i_quantity item) \<and>
                       col (js_add (i_total_price e) t) = Some (i_total_price item)"
      by blast
    show ?thesis
    proof (cases "getInventoryItem s p")
      case None
      with inv True have "movements_of s p = []" by (simp add: ledger_inv_def)
      moreover from ex Inr None True have f: "is_finite q" "is_finite t" by simp_all
      moreover from f have "q = Finite (finite_value q)" "t = Finite (finite_value t)"
        by (simp_all add: is_finite_iff[symmetric])
      moreover from b None k have "i_quantity item = q" "i_total_price item = t"
        by (simp_all add: kept_def)
      ultimately show ?thesis
        using True g mq by (simp add: ledger_inv_def mvp)
    next
      case (Some e)
      with inv True have e: "i_quantity e = Finite (real_sum (map m_quantity_change (movements_of s p)))"
        "i_total_price e = Finite (real_sum (map m_total_price (movements_of s p)))"
        and fin: "list_all (\<lambda>m. is_finite (m_quantity_change m) \<and> is_finite (m_total_price m))
          (movements_of s p)"
        by (simp_all add: ledger_inv_def)
      from ex Inr Some True have x: "exact_add (i_quantity e) q" "exact_add (i_total_price e) t"
        "kept col (js_add (i_quantity e) q)" "kept col (js_add (i_total_price e) t)"
        by simp_all
      from b Some x(3,4) have i: "i_quantity item = js_add (i_quantity e) q"
        "i_total_price item = js_add (i_total_price e) t"
        by (simp_all add: kept_def)
      from x(1,2) have "js_add (i_quantity e) q =
          Finite (real_sum (map m_quantity_change (movements_of s p)) + finite_value q)"
        "js_add (i_total_price e) t =
          Finite (real_sum (map m_total_price (movements_of s p)) + finite_value t)"
        "is_finite q" "is_finite t"
        by (simp_all add: exact_add_def e)
      with True g mq i fin show ?thesis
        by (simp add: ledger_inv_def mvp)
    qed
  qed
qed

lemma db_deleteInventoryMovement_wf:
  assumes "store_wf s"
  shows "store_wf (snd (db_deleteInventoryMovement col fail_at now ident s))"
proof -
  have k: "map (i_id \<circ> (\<lambda>row. if i_id row = k
          then row\<lparr>i_quantity := a, i_total_price := b, i_last_updated := d\<rparr>
          else row)) xs = map i_id xs" for k a b d and xs :: "Inventory list"
    by (induction xs) auto
  have l: "list_all (\<lambda>i. i_id i < n) (map (\<lambda>row. if i_id row = k
          then row\<lparr>i_quantity := a, i_total_price := b, i_last_updated := d\<rparr>
          else row) xs) = list_all (\<lambda>i. i_id i < n) xs" for n k a b d and xs :: "Inventory list"
    by (induction xs) auto
  have f: "list_all P (filter Q xs)" if "list_all P xs" for P Q and xs :: "InventoryMovement list"
    using that by (auto simp: list_all_iff)
  show ?thesis
    using assms
    by (auto simp: db_deleteInventoryMovement_def Let_def store_wf_def k l f distinct_map_filter
        split: option.splits)
qed

lemma db_deleteMovement_inv:
  assumes wf: "store_wf s" and inv: "ledger_inv s p"
      and ex: "db_ledger_op_exact col s p (DbDeleteMovement fail_at now ident)"
  shows "ledger_inv (snd (db_deleteInventoryMovement col fail_at now ident s)) p"
proof (cases "js_map_get m_id ident (inventoryMovements s)")
  case None
  with inv show ?thesis by (simp add: db_delete_absent)
next
  case (Some m)
  then have m: "m \<in> set (inventoryMovements s)" "m_id m = ident"
    using find_mem[of "\<lambda>x. m_id x = ident" "inventoryMovements s" m]
    by (simp_all add: js_map_get_def)
  have d: "distinct (map m_id (inventoryMovements s))" using wf by (simp add: store_wf_def)
  have di: "distinct (map i_id (inventory s))" using wf by (simp add: store_wf_def)
  let ?r = "db_deleteInventoryMovement col fail_at now ident s"
  note o = db_delete_outcome[OF di Some, of col fail_at now]
  show ?thesis
  proof (cases "fst ?r")
    case ok: True
    have mv: "movements_of (snd ?r) p =
        filter (\<lambda>x. m_product_id x = p) (filter (\<lambda>x. m_id x \<noteq> m_id m) (inventoryMovements s))"
      using o(3) ok by (simp add: movements_of_def m)
    have sq: "real_sum (map m_quantity_change (movements_of (snd ?r) p)) =
        real_sum (map m_quantity_change (movements_of s p)) -
          (if m_product_id m = p then finite_value (m_quantity_change m) else 0)"
      by (subst mv, unfold movements_of_def, rule real_sum_filter_remove[OF d m(1)])
    have sp: "real_sum (map m_total_price (movements_of (snd ?r) p)) =
        real_sum (map m_total_price (movements_of s p)) -
          (if m_product_id m = p then finite_value (m_total_price m) else 0)"
      by (subst mv, unfold movements_of_def, rule real_sum_filter_remove[OF d m(1)])
    have fin: "list_all (\<lambda>m. is_finite (m_quantity_change m) \<and> is_finite (m_total_price m))
          (movements_of (snd ?r) p)"
      using inv by (subst mv) (auto simp: ledger_inv_def movements_of_def list_all_iff)
    show ?thesis
    proof (cases "getInventoryItem s p")
      case None
      with inv have "movements_of s p = []" by (simp add: ledger_inv_def)
      then have "movements_of (snd ?r) p = []"
        by (subst mv) (auto simp: movements_of_def filter_empty_conv)
      with None show ?thesis
        by (simp add: ledger_inv_def o(4))
    next
      case e: (Some e)
      with inv have ie: "i_quantity e = Finite (real_sum (map m_quantity_change (movements_of s p)))"
        "i_total_price e = Finite (real_sum (map m_total_price (movements_of s p)))"
        by (simp_all add: ledger_inv_def)
      show ?thesis
      proof (cases "m_product_id m = p")
        case False
        with e ie sq sp fin show ?thesis
          by (simp add: ledger_inv_def o(4))
      next
        case True
        with ex Some e ok have x: "exact_sub (i_quantity e) (m_quantity_change m)"
          "kept col (js_sub (i_quantity e) (m_quantity_change m))"
          "exact_sub (i_total_price e) (m_total_price m)"
          "kept col (js_sub (i_total_price e) (m_total_price m))"
          by simp_all
        from x(1,3) have "js_sub (i_quantity e) (m_quantity_change m) =
            Finite (real_sum (map m_quantity_change (movements_of s p)) -
                    finite_value (m_quantity_change m))"
          "js_sub (i_total_price e) (m_total_price m) =
            Finite (real_sum (map m_total_price (movements_of s p)) -
                    finite_value (m_total_price m))"
          by (simp_all add: exact_sub_def ie)
        with e True sq sp fin ok x(2,4) show ?thesis
          by (simp add: ledger_inv_def o(4) kept_def)
      qed
    qed
  next
    case nok: False
    have mv: "movements_of (snd ?r) p = movements_of s p"
      using o(3) nok by (simp add: movements_of_def)
    show ?thesis
    proof (cases "getInventoryItem s p")
      case None
      with inv mv show ?thesis by (simp add: ledger_inv_def o(4))
    next
      case e: (Some e)
      show ?thesis
      proof (cases "m_product_id m = p")
        case False
        with e inv mv show ?thesis by (simp add: ledger_inv_def o(4))
      next
        case True
        with ex Some e nok have "fail_at \<noteq> Some 3" by simp
        with e inv mv nok show ?thesis by (simp add: ledger_inv_def o(4))
      qed
    qed
  qed
qed

lemma run_db_ledger_inv:
  "store_wf s \<Longrightarrow> ledger_inv s p \<Longrightarrow> db_run_exact col s p ops \<Longrightarrow>
   store_wf (run_db_ledger col ops s) \<and> ledger_inv (run_db_ledger col ops s) p"
  unfolding run_db_ledger_def
proof (induction ops arbitrary: s)
  case Nil
  then show ?case by simp
next
  case (Cons x ops)
  from Cons.prems(3) have e: "db_ledger_op_exact col s p x"
    and rest: "db_run_exact col (apply_db_ledger_op col s x) p ops"
    by simp_all
  have "store_wf (apply_db_ledger_op col s x) \<and> ledger_inv (apply_db_ledger_op col s x) p"
  proof (cases x)
    case (DbRecordMovement fail_at now productId q unit t uid)
    from db_recordMovement_inv[OF Cons.prems(1,2) e[unfolded DbRecordMovement]]
      db_recordMovement_wf[OF Cons.prems(1)]
    show ?thesis unfolding DbRecordMovement by simp
  next
    case (DbDeleteMovement fail_at now ident)
    from db_deleteMovement_inv[OF Cons.prems(1,2) e[unfolded DbDeleteMovement]]
      db_deleteInventoryMovement_wf[OF Cons.prems(1)]
    show ?thesis unfolding DbDeleteMovement by simp
  qed
  with rest show ?case using Cons.IH by simp
qed

lemma db_run_exact_take: "db_run_exact col s p ops \<Longrightarrow> db_run_exact col s p (take n ops)"
proof (induction ops arbitrary: s n)
  case Nil
  then show ?case by simp
next
  case (Cons x ops)
  then show ?case by (cases n) simp_all
qed

text \<open>The handler \<^verbatim>\<open>POST /api/inventory/movements\<close>, once the request has passed its checks
  and its product id and unit are accepted for binding, is \<open>db_recordMovement\<close>: 201 when
  it succeeds, 500 when it fails.\<close>

lemma post_movement_handler_record:
  assumes "deserializeUser s session = Authenticated user"
      and "u_can_manage_inventory user \<or> u_is_admin user"
      and "truthy product_id" "truthy quantity_change" "truthy unit" "total_price \<noteq> JUndefined"
      and "int4 (parseInt env product_id) = Some pid"
      and "driver_text env unit = Some u"
  shows "post_movement_handler env fail_at now session product_id quantity_change unit
           total_price s =
         (case fst (db_recordMovement (column env) fail_at now pid (parseFloat quantity_change) u
                      (parseFloat total_price) (Some (u_id user)) s) of
            Inl err \<Rightarrow> 500 | Inr movement \<Rightarrow> 201,
          snd (db_recordMovement (column env) fail_at now pid (parseFloat quantity_change) u
                 (parseFloat total_price) (Some (u_id user)) s))"
  using assms
  by (auto simp: post_movement_handler_def db_recordMovement_def Let_def split: sum.splits)

section \<open>The ledger invariant\<close>

lemma example_fresh_wf: "store_wf example_fresh"
  by (simp add: store_wf_def example_fresh_def example_store_def)

lemma example_fresh_fresh: "fresh_product example_fresh 1"
  by (simp add: fresh_product_def getInventoryItem_def movements_of_def example_fresh_def
      example_store_def)

text \<open>
  Claim C1, as amended. Start from any well-formed store in which product \<open>p\<close> is fresh
  and run any sequence of record-movement and delete-movement operations (on any products
  and movement ids), on either storage class. On the \<^verbatim>\<open>MemStorage\<close>, let every addition and
  subtraction made on the balance of \<open>p\<close> be exact, that is, not rounded. On the
  \<^verbatim>\<open>DatabaseStorage\<close>, let every operation bearing on \<open>p\<close> either succeed with exact
  arithmetic on figures that the columns keep, or fail without having written a row.
  Then after every operation of the run (after its first \<open>n\<close> operations, for every \<open>n\<close>)
  the balance quantity of \<open>p\<close> is the sum of \<open>quantity_change\<close> over the movements of \<open>p\<close>
  still stored, and its total value is the sum of their \<open>total_price\<close>.
\<close>

theorem ledger_invariant:
  assumes "store_wf s" and "fresh_product s p"
  shows "(run_exact s p ops \<longrightarrow>
           balance_quantity (run_ledger (take n ops) s) p =
             Finite (real_sum (map m_quantity_change
               (movements_of (run_ledger (take n ops) s) p))) \<and>
           balance_total_value (run_ledger (take n ops) s) p =
             Finite (real_sum (map m_total_price
               (movements_of (run_ledger (take n ops) s) p)))) \<and>
         (db_run_exact col s p dops \<longrightarrow>
           balance_quantity (run_db_ledger col (take n dops) s) p =
             Finite (real_sum (map m_quantity_change
               (movements_of (run_db_ledger col (take n dops) s) p))) \<and>
           balance_total_value (run_db_ledger col (take n dops) s) p =
             Finite (real_sum (map m_total_price
               (movements_of (run_db_ledger col (take n dops) s) p))))"
proof (intro conjI impI)
  from assms(2) have i: "ledger_inv s p" by (simp add: fresh_product_def ledger_inv_def)
  {
    assume "run_exact s p ops"
    from run_ledger_inv[OF assms(1) i run_exact_take[OF this, of n]]
    have "ledger_inv (run_ledger (take n ops) s) p" by simp
    then show "balance_quantity (run_ledger (take n ops) s) p =
             Finite (real_sum (map m_quantity_change
               (movements_of (run_ledger (take n ops) s) p)))"
      and "balance_total_value (run_ledger (take n ops) s) p =
             Finite (real_sum (map m_total_price
               (movements_of (run_ledger (take n ops) s) p)))"
      by (auto simp: ledger_inv_def balance_quantity_def balance_total_value_def
          split: option.splits)
  }
  {
    assume "db_run_exact col s p dops"
    from run_db_ledger_inv[OF assms(1) i db_run_exact_take[OF this, of n]]
    have "ledger_inv (run_db_ledger col (take n dops) s) p" by simp
    then show "balance_quantity (run_db_ledger col (take n dops) s) p =
             Finite (real_sum (map m_quantity_change
               (movements_of (run_db_ledger col (take n dops) s) p)))"
      and "balance_total_value (run_db_ledger col (take n dops) s) p =
             Finite (real_sum (map m_total_price
               (movements_of (run_db_ledger col (take n dops) s) p)))"
      by (auto simp: ledger_inv_def balance_quantity_def balance_total_value_def
          split: option.splits)
  }
qed

theorem ledger_invariant_witness:
  "store_wf mem_init \<and> fresh_product mem_init 1 \<and>
   run_exact mem_init 1 [RecordMovement 1000 1 (Finite 10) ''kg'' (Finite 100) (Some 1),
       RecordMovement 2000 1 (Finite 5) ''kg'' (Finite 40) (Some 1), DeleteMovement 3000 2] \<and>
   balance_quantity (run_ledger [RecordMovement 1000 1 (Finite 10) ''kg'' (Finite 100) (Some 1),
       RecordMovement 2000 1 (Finite 5) ''kg'' (Finite 40) (Some 1), DeleteMovement 3000 2] mem_init) 1
     = Finite 10 \<and>
   balance_total_value (run_ledger [RecordMovement 1000 1 (Finite 10) ''kg'' (Finite 100) (Some 1),
       RecordMovement 2000 1 (Finite 5) ''kg'' (Finite 40) (Some 1), DeleteMovement 3000 2] mem_init) 1
     = Finite 100 \<and>
   store_wf example_fresh \<and> fresh_product example_fresh 1 \<and>
   db_run_exact real4 example_fresh 1
      [DbRecordMovement None 1000 1 (Finite 10) ''kg'' (Finite 100) (Some 1),
       DbRecordMovement None 2000 1 (Finite 5) ''kg'' (Finite 40) (Some 1),
       DbRecordMovement (Some 0) 2500 1 (Finite 7) ''kg'' (Finite 70) (Some 1),
       DbDeleteMovement None 3000 2] \<and>
   balance_quantity (run_db_ledger real4
      [DbRecordMovement None 1000 1 (Finite 10) ''kg'' (Finite 100) (Some 1),
       DbRecordMovement None 2000 1 (Finite 5) ''kg'' (Finite 40) (Some 1),
       DbRecordMovement (Some 0) 2500 1 (Finite 7) ''kg'' (Finite 70) (Some 1),
       DbDeleteMovement None 3000 2] example_fresh) 1 = Finite 10 \<and>
   balance_total_value (run_db_ledger real4
      [DbRecordMovement None 1000 1 (Finite 10) ''kg'' (Finite 100) (Some 1),
       DbRecordMovement None 2000 1 (Finite 5) ''kg'' (Finite 40) (Some 1),
       DbRecordMovement (Some 0) 2500 1 (Finite 7) ''kg'' (Finite 70) (Some 1),
       DbDeleteMovement None 3000 2] example_fresh) 1 = Finite 100"
proof -
  let ?ops = "[RecordMovement 1000 1 (Finite 10) ''kg'' (Finite 100) (Some 1),
       RecordMovement 2000 1 (Finite 5) ''kg'' (Finite 40) (Some 1), DeleteMovement 3000 2]"
  let ?dops = "[DbRecordMovement None 1000 1 (Finite 10) ''kg'' (Finite 100) (Some 1),
       DbRecordMovement None 2000 1 (Finite 5) ''kg'' (Finite 40) (Some 1),
       DbRecordMovement (Some 0) 2500 1 (Finite 7) ''kg'' (Finite 70) (Some 1),
       DbDeleteMovement None 3000 2]"
  have ex: "run_exact mem_init 1 ?ops"
    by (simp add: exact_add_def exact_sub_def js_sub_def round_double_numeral
        mem_recordMovement_def mem_createInventoryMovement_def mem_updateInventory_def
        getInventoryItem_def js_map_get_def mem_init_def mem_empty_def mem_createUser_def Let_def)
  have mv: "map (\<lambda>m. (m_quantity_change m, m_total_price m))
     (movements_of (run_ledger ?ops mem_init) 1) = [(Finite 10, Finite 100)]"
    by (simp add: run_ledger_def movements_of_def mem_recordMovement_def
        mem_createInventoryMovement_def mem_updateInventory_def mem_deleteInventoryMovement_def
        getInventoryItem_def js_map_get_def js_map_delete_def mem_init_def mem_empty_def
        mem_createUser_def Let_def)
  have sm: "real_sum (map m_quantity_change (movements_of (run_ledger ?ops mem_init) 1)) = 10"
    "real_sum (map m_total_price (movements_of (run_ledger ?ops mem_init) 1)) = 100"
    using arg_cong[OF mv, of "\<lambda>l. real_sum (map fst l)"] arg_cong[OF mv, of "\<lambda>l. real_sum (map snd l)"]
    by (simp_all add: comp_def)
  have dex: "db_run_exact real4 example_fresh 1 ?dops"
    by (simp add: exact_add_def exact_sub_def kept_def js_sub_def round_double_numeral
        real4_numeral db_recordMovement_def db_createInventoryMovement_def
        db_updateInventory_def db_deleteInventoryMovement_def db_getInventoryItem_def
        db_first_def product_ref_ok_def user_ref_ok_def getInventoryItem_def js_map_get_def
        example_fresh_def example_store_def Let_def)
  have dmv: "map (\<lambda>m. (m_quantity_change m, m_total_price m))
     (movements_of (run_db_ledger real4 ?dops example_fresh) 1) = [(Finite 10, Finite 100)]"
    by (simp add: run_db_ledger_def movements_of_def js_sub_def round_double_numeral
        real4_numeral db_recordMovement_def db_createInventoryMovement_def
        db_updateInventory_def db_deleteInventoryMovement_def db_getInventoryItem_def
        db_first_def product_ref_ok_def user_ref_ok_def
        example_fresh_def example_store_def Let_def)
  have dsm: "real_sum (map m_quantity_change
               (movements_of (run_db_ledger real4 ?dops example_fresh) 1)) = 10"
    "real_sum (map m_total_price
               (movements_of (run_db_ledger real4 ?dops example_fresh) 1)) = 100"
    using arg_cong[OF dmv, of "\<lambda>l. real_sum (map fst l)"]
      arg_cong[OF dmv, of "\<lambda>l. real_sum (map snd l)"]
    by (simp_all add: comp_def)
  from ledger_invariant[OF mem_init_wf mem_init_fresh, where ops = ?ops and n = 3] ex sm
  have a: "balance_quantity (run_ledger ?ops mem_init) 1 = Finite 10 \<and>
           balance_total_value (run_ledger ?ops mem_init) 1 = Finite 100"
    by simp
  from ledger_invariant[OF example_fresh_wf example_fresh_fresh, where n = 4 and col = real4
      and dops = ?dops] dex dsm
  have b: "balance_quantity (run_db_ledger real4 ?dops example_fresh) 1 = Finite 10 \<and>
           balance_total_value (run_db_ledger real4 ?dops example_fresh) 1 = Finite 100"
    by simp
  from a b ex dex mem_init_wf mem_init_fresh example_fresh_wf example_fresh_fresh
  show ?thesis by simp
qed

text \<open>
  Claim C1 as stated fails, in two ways. On a \<^verbatim>\<open>MemStorage\<close>, record \<open>2\<^sup>5\<^sup>3\<close> and then 1 on a
  fresh product and delete the first movement: the second addition is rounded (the
  balance stays \<open>2\<^sup>5\<^sup>3\<close>), so after the deletion the balance reads 0 while the one movement
  left has quantity 1. On the \<^verbatim>\<open>DatabaseStorage\<close>, let the balance statement of a record of
  5 kg on a fresh product be aborted: the movement of quantity 5 stays stored and the
  product has no balance row at all.
\<close>

theorem ledger_invariant_counterexample:
  "store_wf mem_init \<and> fresh_product mem_init 1 \<and>
   balance_quantity (run_ledger [RecordMovement 1000 1 (Finite (2 ^ 53)) ''kg'' (Finite 100) (Some 1),
       RecordMovement 2000 1 (Finite 1) ''kg'' (Finite 40) (Some 1), DeleteMovement 3000 1] mem_init) 1
     = Finite 0 \<and>
   map m_quantity_change (movements_of (run_ledger
      [RecordMovement 1000 1 (Finite (2 ^ 53)) ''kg'' (Finite 100) (Some 1),
       RecordMovement 2000 1 (Finite 1) ''kg'' (Finite 40) (Some 1), DeleteMovement 3000 1] mem_init) 1)
     = [Finite 1] \<and>
   store_wf example_fresh \<and> fresh_product example_fresh 1 \<and>
   balance_quantity (run_db_ledger real4
      [DbRecordMovement (Some 2) 1000 1 (Finite 5) ''kg'' (Finite 40) (Some 1)] example_fresh) 1
     = Finite 0 \<and>
   getInventoryItem (run_db_ledger real4
      [DbRecordMovement (Some 2) 1000 1 (Finite 5) ''kg'' (Finite 40) (Some 1)] example_fresh) 1
     = None \<and>
   map m_quantity_change (movements_of (run_db_ledger real4
      [DbRecordMovement (Some 2) 1000 1 (Finite 5) ''kg'' (Finite 40) (Some 1)] example_fresh) 1)
     = [Finite 5]"
proof -
  let ?ops = "[RecordMovement 1000 1 (Finite (2 ^ 53)) ''kg'' (Finite 100) (Some 1),
       RecordMovement 2000 1 (Finite 1) ''kg'' (Finite 40) (Some 1), DeleteMovement 3000 1]"
  have a: "balance_quantity (run_ledger ?ops mem_init) 1 = Finite 0"
    by (simp add: run_ledger_def balance_quantity_def mem_recordMovement_def
        mem_createInventoryMovement_def mem_updateInventory_def mem_deleteInventoryMovement_def
        getInventoryItem_def js_map_get_def js_map_delete_def mem_init_def mem_empty_def
        mem_createUser_def Let_def js_sub_def round_double_tie_numeral round_double_numeral)
  have b: "map m_quantity_change (movements_of (run_ledger ?ops mem_init) 1) = [Finite 1]"
    by (simp add: run_ledger_def movements_of_def mem_recordMovement_def
        mem_createInventoryMovement_def mem_updateInventory_def mem_deleteInventoryMovement_def
        getInventoryItem_def js_map_get_def js_map_delete_def mem_init_def mem_empty_def
        mem_createUser_def Let_def)
  have d: "run_db_ledger real4
      [DbRecordMovement (Some 2) 1000 1 (Finite 5) ''kg'' (Finite 40) (Some 1)] example_fresh =
        example_fresh\<lparr>movementIdCounter := 2, inventoryIdCounter := 2,
           inventoryMovements :=
             [\<lparr>m_id = 1, m_product_id = 1, m_quantity_change = Finite 5, m_unit = ''kg'',
               m_total_price = Finite 40, m_movement_type = ''update'', m_movement_date = 1000,
               m_user_id = Some 1\<rparr>]\<rparr>"
    by (simp add: run_db_ledger_def db_recordMovement_def db_createInventoryMovement_def
        db_updateInventory_def db_getInventoryItem_def db_first_def product_ref_ok_def
        user_ref_ok_def real4_numeral example_fresh_def example_store_def Let_def)
  show ?thesis
    unfolding d using a b mem_init_wf mem_init_fresh example_fresh_wf example_fresh_fresh
    by (simp add: balance_quantity_def movements_of_def getInventoryItem_def example_fresh_def
        example_store_def)
qed


end
